(* ===== verification/Prelude.thy ===== *)
theory Prelude
  imports Complex_Main
begin

text \<open>
  The part of the library every component shares: the collections of hints, updates of one row
  of a list, and the arithmetic of the instants and durations the program computes with.

  Instants are microseconds since the epoch in UTC (\<open>datetime\<close> values with \<open>timezone.utc\<close>),
  dates are days since the epoch, both as \<open>int\<close>.
\<close>

named_theorems frame \<open>what an operation leaves unchanged\<close>
named_theorems ident \<open>operations that keep the identity of every row\<close>
named_theorems op_defs \<open>definitions of the small state operations\<close>

type_synonym instant = int
type_synonym date = int
type_synonym bytes = string

subsection \<open>Rows of a table\<close>

definition upd_where :: "('a \<Rightarrow> bool) \<Rightarrow> ('a \<Rightarrow> 'a) \<Rightarrow> 'a list \<Rightarrow> 'a list" where
  "upd_where P f xs = map (\<lambda>x. if P x then f x else x) xs"

lemma upd_where_Nil [simp]: "upd_where P f [] = []"
  by (simp add: upd_where_def)

lemma upd_where_Cons [simp]:
  "upd_where P f (x # xs) = (if P x then f x else x) # upd_where P f xs"
  by (simp add: upd_where_def)

lemma length_upd_where [simp]: "length (upd_where P f xs) = length xs"
  by (simp add: upd_where_def)

lemma upd_where_map_keep:
  assumes "\<And>x. P x \<Longrightarrow> g (f x) = g x"
  shows "map g (upd_where P f xs) = map g xs"
  using assms by (induction xs) auto

lemma find_upd_where:
  assumes "\<And>x. P x \<Longrightarrow> P (f x)"
  shows "find P (upd_where P f xs) = map_option f (find P xs)"
  using assms by (induction xs) auto

lemma find_upd_where_other:
  assumes "\<And>x. P x \<Longrightarrow> \<not> Q x \<and> \<not> Q (f x)"
  shows "find Q (upd_where P f xs) = find Q xs"
  using assms by (induction xs) (auto split: if_splits)

lemma find_Some_mem: "find P xs = Some x \<Longrightarrow> x \<in> set xs \<and> P x"
  by (induction xs) (auto split: if_splits)

lemma find_None_all: "find P xs = None \<longleftrightarrow> (\<forall>x\<in>set xs. \<not> P x)"
  by (induction xs) auto

lemma find_image:
  assumes "map g xs = map g ys"
  shows "map_option g (find (\<lambda>x. Q (g x)) xs) = map_option g (find (\<lambda>y. Q (g y)) ys)"
  using assms
proof (induction xs arbitrary: ys)
  case Nil
  then show ?case by simp
next
  case (Cons x xs)
  then obtain y ys' where "ys = y # ys'" "g x = g y" "map g xs = map g ys'"
    by (cases ys) auto
  with Cons.IH show ?case by simp
qed

lemma filter_image:
  assumes "map g xs = map g ys"
  shows "map g (filter (\<lambda>x. Q (g x)) xs) = map g (filter (\<lambda>y. Q (g y)) ys)"
  using assms
proof (induction xs arbitrary: ys)
  case Nil
  then show ?case by simp
next
  case (Cons x xs)
  then obtain y ys' where "ys = y # ys'" "g x = g y" "map g xs = map g ys'"
    by (cases ys) auto
  with Cons.IH show ?case by simp
qed

subsection \<open>Durations\<close>

abbreviation usec :: int where "usec \<equiv> 1000000"
abbreviation day_usec :: int where "day_usec \<equiv> 86400000000"

definition seconds :: "int \<Rightarrow> int" where
  "seconds n = n * usec"

definition minutes :: "int \<Rightarrow> int" where
  "minutes n = n * 60000000"

definition days :: "int \<Rightarrow> int" where
  "days n = n * day_usec"

text \<open>\<open>int(delta.total_seconds())\<close>: Python's \<open>int\<close> drops the fraction, towards zero.\<close>

definition trunc_seconds :: "int \<Rightarrow> int" where
  "trunc_seconds d = (if 0 \<le> d then d div usec else - ((- d) div usec))"

lemma trunc_seconds_nonneg: "0 \<le> d \<Longrightarrow> 0 \<le> trunc_seconds d"
  by (simp add: trunc_seconds_def)

lemma trunc_seconds_neg: "d \<le> 0 \<Longrightarrow> trunc_seconds d \<le> 0"
  by (simp add: trunc_seconds_def pos_imp_zdiv_nonneg_iff)

lemma trunc_seconds_pos_iff: "0 < trunc_seconds d \<longleftrightarrow> usec \<le> d"
proof (cases "0 \<le> d")
  case True
  have "0 < d div usec \<longleftrightarrow> usec \<le> d"
    using pos_imp_zdiv_pos_iff [of usec d] by simp
  with True show ?thesis by (simp add: trunc_seconds_def)
next
  case False
  then show ?thesis using trunc_seconds_neg [of d] by simp
qed

lemma trunc_seconds_bounds:
  assumes "0 \<le> d"
  shows "seconds (trunc_seconds d) \<le> d" and "d < seconds (trunc_seconds d) + usec"
proof -
  have "d = d div usec * usec + d mod usec" by simp
  moreover have "0 \<le> d mod usec" "d mod usec < usec" by simp_all
  ultimately show "seconds (trunc_seconds d) \<le> d" "d < seconds (trunc_seconds d) + usec"
    using assms by (simp_all add: trunc_seconds_def seconds_def)
qed

end
