(* ===== verification/Json.thy ===== *)
theory Json
  imports Pystr
begin

text \<open>
  JSON values as Python's \<open>json\<close> module builds them, with \<open>json.dumps(..., ensure_ascii=False)\<close>
  and \<open>json.loads\<close>. A float is kept as the literal that spells it. The round trip
  \<open>loads_dumps\<close> is what the idempotency store relies on.
\<close>

datatype json =
    JNull
  | JBool bool
  | JInt int
  | JFloat string
  | JStr string
  | JArr "json list"
  | JObj "(string \<times> json) list"

subsection \<open>Dictionaries\<close>

text \<open>\<open>d[k] = v\<close> keeps the position of a key that is there and appends a new one.\<close>

fun dict_set :: "'k \<Rightarrow> 'v \<Rightarrow> ('k \<times> 'v) list \<Rightarrow> ('k \<times> 'v) list" where
  "dict_set k v [] = [(k, v)]"
| "dict_set k v ((k', v') # d) = (if k' = k then (k, v) # d else (k', v') # dict_set k v d)"

definition dict_update :: "('k \<times> 'v) list \<Rightarrow> ('k \<times> 'v) list \<Rightarrow> ('k \<times> 'v) list" where
  "dict_update d e = foldl (\<lambda>a (k, v). dict_set k v a) d e"

lemma map_of_dict_set: "map_of (dict_set k v d) = (map_of d)(k \<mapsto> v)"
  by (induction d) auto

lemma fst_dict_set: "fst ` set (dict_set k v d) = insert k (fst ` set d)"
  by (induction k v d rule: dict_set.induct) (simp_all add: insert_commute)

lemma distinct_dict_set: "distinct (map fst d) \<Longrightarrow> distinct (map fst (dict_set k v d))"
  by (induction d) (auto simp: fst_dict_set)

lemma dict_set_new: "k \<notin> fst ` set d \<Longrightarrow> dict_set k v d = d @ [(k, v)]"
  by (induction d) auto

lemma dict_update_new:
  "distinct (map fst (d @ e)) \<Longrightarrow> dict_update d e = d @ e"
proof (induction e arbitrary: d)
  case Nil
  then show ?case by (simp add: dict_update_def)
next
  case (Cons kv e)
  obtain k v where kv: "kv = (k, v)" by (cases kv)
  have "dict_update d (kv # e) = dict_update (d @ [(k, v)]) e"
    using Cons.prems by (simp add: dict_update_def kv dict_set_new)
  also have "\<dots> = d @ kv # e"
    using Cons.IH [of "d @ [(k, v)]"] Cons.prems by (simp add: kv)
  finally show ?case .
qed

text \<open>\<open>bool(x)\<close>.\<close>

definition float_zero :: "string \<Rightarrow> bool" where
  "float_zero s = (\<forall>c \<in> set (takeWhile (\<lambda>c. c \<noteq> CHR ''e'' \<and> c \<noteq> CHR ''E'') s).
     c = CHR ''0'' \<or> c = CHR ''.'' \<or> c = CHR ''-'')"

fun truthy :: "json \<Rightarrow> bool" where
  "truthy JNull = False"
| "truthy (JBool b) = b"
| "truthy (JInt i) = (i \<noteq> 0)"
| "truthy (JFloat s) = (\<not> float_zero s)"
| "truthy (JStr s) = (s \<noteq> [])"
| "truthy (JArr xs) = (xs \<noteq> [])"
| "truthy (JObj d) = (d \<noteq> [])"

subsection \<open>Printing\<close>

abbreviation quote_char :: char where "quote_char \<equiv> CHR 0x22"
abbreviation backslash :: char where "backslash \<equiv> CHR 0x5C"

definition hex_char :: "nat \<Rightarrow> char" where
  "hex_char d = (if d < 10 then char_of (48 + d) else char_of (87 + d))"

definition hex_val :: "char \<Rightarrow> nat option" where
  "hex_val c = (let n = (of_char c :: nat) in
     if 48 \<le> n \<and> n \<le> 57 then Some (n - 48)
     else if 97 \<le> n \<and> n \<le> 102 then Some (n - 87)
     else if 65 \<le> n \<and> n \<le> 70 then Some (n - 55) else None)"

definition esc_char :: "char \<Rightarrow> string" where
  "esc_char c =
     (if c = quote_char then [backslash, quote_char]
      else if c = backslash then [backslash, backslash]
      else if c = CHR 0x0A then [backslash, CHR ''n'']
      else if c = CHR 0x0D then [backslash, CHR ''r'']
      else if c = CHR 0x09 then [backslash, CHR ''t'']
      else if c = CHR 0x08 then [backslash, CHR ''b'']
      else if c = CHR 0x0C then [backslash, CHR ''f'']
      else if (of_char c :: nat) < 32
        then [backslash, CHR ''u'', CHR ''0'', CHR ''0'',
              hex_char (of_char c div 16), hex_char (of_char c mod 16)]
      else [c])"

definition dump_str :: "string \<Rightarrow> string" where
  "dump_str s = quote_char # concat (map esc_char s) @ [quote_char]"

text \<open>\<open>isep\<close> and \<open>ksep\<close> are \<open>dumps\<close>'s \<open>separators\<close>.\<close>

fun dumps :: "string \<Rightarrow> string \<Rightarrow> json \<Rightarrow> string" where
  "dumps isep ksep JNull = ''null''"
| "dumps isep ksep (JBool b) = (if b then ''true'' else ''false'')"
| "dumps isep ksep (JInt i) = show_int i"
| "dumps isep ksep (JFloat s) = s"
| "dumps isep ksep (JStr s) = dump_str s"
| "dumps isep ksep (JArr xs) = ''['' @ join isep (map (dumps isep ksep) xs) @ '']''"
| "dumps isep ksep (JObj d) =
     ''{'' @ join isep (map (\<lambda>(k, v). dump_str k @ ksep @ dumps isep ksep v) d) @ ''}''"

abbreviation dumps_default :: "json \<Rightarrow> string" where
  "dumps_default \<equiv> dumps '', '' '': ''"

abbreviation dumps_compact :: "json \<Rightarrow> string" where
  "dumps_compact \<equiv> dumps '','' '':''"

subsection \<open>Parsing\<close>

definition json_space :: "char \<Rightarrow> bool" where
  "json_space c = (c = CHR '' '' \<or> c = CHR 0x09 \<or> c = CHR 0x0A \<or> c = CHR 0x0D)"

abbreviation skip_ws :: "string \<Rightarrow> string" where
  "skip_ws \<equiv> dropWhile json_space"

definition unesc :: "char \<Rightarrow> char option" where
  "unesc d =
     (if d = quote_char then Some quote_char
      else if d = backslash then Some backslash
      else if d = CHR ''/'' then Some (CHR ''/'')
      else if d = CHR ''n'' then Some (CHR 0x0A)
      else if d = CHR ''r'' then Some (CHR 0x0D)
      else if d = CHR ''t'' then Some (CHR 0x09)
      else if d = CHR ''b'' then Some (CHR 0x08)
      else if d = CHR ''f'' then Some (CHR 0x0C)
      else None)"

definition hex4 :: "string \<Rightarrow> char option" where
  "hex4 s =
     (case map hex_val s of
        [Some a, Some b, Some c, Some d] \<Rightarrow>
          (let n = ((a * 16 + b) * 16 + c) * 16 + d in if n < 256 then Some (char_of n) else None)
      | _ \<Rightarrow> None)"

fun parse_str :: "string \<Rightarrow> (string \<times> string) option" where
  "parse_str [] = None"
| "parse_str (c # s) =
     (if c = quote_char then Some ([], s)
      else if c = backslash then
        (case s of
           [] \<Rightarrow> None
         | d # s' \<Rightarrow>
             if d = CHR ''u'' then
               (case hex4 (take 4 s') of
                  None \<Rightarrow> None
                | Some e \<Rightarrow> map_option (\<lambda>(w, r). (e # w, r)) (parse_str (drop 4 s')))
             else
               (case unesc d of
                  None \<Rightarrow> None
                | Some e \<Rightarrow> map_option (\<lambda>(w, r). (e # w, r)) (parse_str s')))
      else if (of_char c :: nat) < 32 then None
      else map_option (\<lambda>(w, r). (c # w, r)) (parse_str s))"

definition parse_frac :: "string \<Rightarrow> string \<times> string" where
  "parse_frac s =
     (case s of
        CHR ''.'' # r \<Rightarrow>
          (let ds = takeWhile is_digit r in
           if ds = [] then ([], s) else (CHR ''.'' # ds, dropWhile is_digit r))
      | _ \<Rightarrow> ([], s))"

definition parse_exp :: "string \<Rightarrow> string \<times> string" where
  "parse_exp s =
     (case s of
        [] \<Rightarrow> ([], s)
      | e # r \<Rightarrow>
          if e = CHR ''e'' \<or> e = CHR ''E'' then
            (let sg = takeWhile (\<lambda>c. c = CHR ''+'' \<or> c = CHR ''-'') (take 1 r);
                 r' = drop (length sg) r;
                 ds = takeWhile is_digit r'
             in if ds = [] then ([], s) else (e # sg @ ds, dropWhile is_digit r'))
          else ([], s))"

definition parse_unsigned :: "string \<Rightarrow> (string \<times> string) option" where
  "parse_unsigned s =
     (let ds = takeWhile is_digit s in
      if ds = [] then None
      else if hd ds = CHR ''0'' then Some (''0'', tl s)
      else Some (ds, dropWhile is_digit s))"

definition parse_num :: "string \<Rightarrow> (json \<times> string) option" where
  "parse_num s =
     (let neg = (take 1 s = ''-''); body = (if neg then drop 1 s else s) in
      case parse_unsigned body of
        None \<Rightarrow> None
      | Some (ds, r) \<Rightarrow>
          (let (fr, r1) = parse_frac r; (ex, r2) = parse_exp r1 in
           if fr = [] \<and> ex = [] then
             Some (JInt (if neg then - int (read_digits ds) else int (read_digits ds)), r2)
           else Some (JFloat ((if neg then ''-'' else []) @ ds @ fr @ ex), r2)))"

text \<open>
  Recursive descent. The first argument bounds the nesting and the number of items read; the
  length of the text is enough (\<open>loads_dumps\<close>).
\<close>

fun parse_val :: "nat \<Rightarrow> string \<Rightarrow> (json \<times> string) option"
  and parse_items :: "nat \<Rightarrow> string \<Rightarrow> (json list \<times> string) option"
  and parse_members :: "nat \<Rightarrow> string \<Rightarrow> ((string \<times> json) list \<times> string) option" where
  "parse_val 0 s = None"
| "parse_val (Suc n) s =
     (case s of
        [] \<Rightarrow> None
      | c # r \<Rightarrow>
          if c = quote_char then map_option (\<lambda>(w, r'). (JStr w, r')) (parse_str r)
          else if c = CHR ''['' then
            (if take 1 (skip_ws r) = '']'' then Some (JArr [], drop 1 (skip_ws r))
             else map_option (\<lambda>(xs, r'). (JArr xs, r')) (parse_items n (skip_ws r)))
          else if c = CHR ''{'' then
            (if take 1 (skip_ws r) = ''}'' then Some (JObj [], drop 1 (skip_ws r))
             else map_option (\<lambda>(d, r'). (JObj (dict_update [] d), r')) (parse_members n (skip_ws r)))
          else if startswith s ''null'' then Some (JNull, drop 4 s)
          else if startswith s ''true'' then Some (JBool True, drop 4 s)
          else if startswith s ''false'' then Some (JBool False, drop 5 s)
          else parse_num s)"
| "parse_items 0 s = None"
| "parse_items (Suc n) s =
     (case parse_val n s of
        None \<Rightarrow> None
      | Some (x, r) \<Rightarrow>
          (case skip_ws r of
             [] \<Rightarrow> None
           | c # r' \<Rightarrow>
               if c = CHR '']'' then Some ([x], r')
               else if c = CHR '','' then
                 map_option (\<lambda>(xs, q). (x # xs, q)) (parse_items n (skip_ws r'))
               else None))"
| "parse_members 0 s = None"
| "parse_members (Suc n) s =
     (case s of
        [] \<Rightarrow> None
      | c # r \<Rightarrow>
          if c \<noteq> quote_char then None
          else
            (case parse_str r of
               None \<Rightarrow> None
             | Some (k, r1) \<Rightarrow>
                 (case skip_ws r1 of
                    [] \<Rightarrow> None
                  | d # r2 \<Rightarrow>
                      if d \<noteq> CHR '':'' then None
                      else
                        (case parse_val n (skip_ws r2) of
                           None \<Rightarrow> None
                         | Some (v, r3) \<Rightarrow>
                             (case skip_ws r3 of
                                [] \<Rightarrow> None
                              | e # r4 \<Rightarrow>
                                  if e = CHR ''}'' then Some ([(k, v)], r4)
                                  else if e = CHR '','' then
                                    map_option (\<lambda>(m, q). ((k, v) # m, q)) (parse_members n (skip_ws r4))
                                  else None)))))"

definition loads :: "string \<Rightarrow> json option" where
  "loads s =
     (case parse_val (Suc (length s)) (skip_ws s) of
        Some (j, r) \<Rightarrow> if skip_ws r = [] then Some j else None
      | None \<Rightarrow> None)"

subsection \<open>The round trip\<close>

fun wf_json :: "json \<Rightarrow> bool" where
  "wf_json (JFloat s) = False"
| "wf_json (JArr xs) = (\<forall>x \<in> set xs. wf_json x)"
| "wf_json (JObj d) = (distinct (map fst d) \<and> (\<forall>(k, v) \<in> set d. wf_json v))"
| "wf_json _ = True"

fun fuel_for :: "json \<Rightarrow> nat" where
  "fuel_for (JArr xs) = Suc (sum_list (map (\<lambda>x. Suc (fuel_for x)) xs))"
| "fuel_for (JObj d) = Suc (sum_list (map (\<lambda>(k, v). Suc (fuel_for v)) d))"
| "fuel_for _ = 1"

definition seps_ok :: "string \<Rightarrow> string \<Rightarrow> bool" where
  "seps_ok isep ksep \<longleftrightarrow>
     (\<exists>a b. isep = CHR '','' # a \<and> ksep = CHR '':'' # b \<and>
            (\<forall>c \<in> set a. json_space c) \<and> (\<forall>c \<in> set b. json_space c))"

definition ends_value :: "string \<Rightarrow> bool" where
  "ends_value r \<longleftrightarrow> r = [] \<or> hd r = CHR '','' \<or> hd r = CHR '']'' \<or> hd r = CHR ''}''"

lemma hex_val_char: "d < 16 \<Longrightarrow> hex_val (hex_char d) = Some d"
  by (auto simp: hex_val_def hex_char_def Let_def)

lemma hex4_control:
  assumes "(of_char c :: nat) < 32"
  shows "hex4 [CHR ''0'', CHR ''0'', hex_char (of_char c div 16), hex_char (of_char c mod 16)] = Some c"
proof -
  let ?n = "of_char c :: nat"
  have "hex_val (CHR ''0'') = Some 0" by (simp add: hex_val_def)
  moreover have "hex_val (hex_char (?n div 16)) = Some (?n div 16)"
    "hex_val (hex_char (?n mod 16)) = Some (?n mod 16)"
    using assms by (simp_all add: hex_val_char)
  moreover have "?n div 16 * 16 + ?n mod 16 = ?n" by simp
  ultimately show ?thesis using assms by (simp add: hex4_def Let_def)
qed

lemma unesc_simps:
  "unesc quote_char = Some quote_char" "unesc backslash = Some backslash"
  "unesc (CHR ''n'') = Some (CHR 0x0A)" "unesc (CHR ''r'') = Some (CHR 0x0D)"
  "unesc (CHR ''t'') = Some (CHR 0x09)" "unesc (CHR ''b'') = Some (CHR 0x08)"
  "unesc (CHR ''f'') = Some (CHR 0x0C)"
  by (simp_all add: unesc_def)

lemma parse_str_esc:
  "parse_str (esc_char c @ t) = map_option (\<lambda>(w, r). (c # w, r)) (parse_str t)"
  by (simp add: esc_char_def unesc_simps hex4_control del: of_char_of)

lemma parse_str_dump: "parse_str (concat (map esc_char s) @ quote_char # r) = Some (s, r)"
proof (induction s)
  case Nil
  then show ?case by simp
next
  case (Cons c s)
  then show ?case using parse_str_esc [of c "concat (map esc_char s) @ quote_char # r"] by simp
qed

lemma takeWhile_digits: "r = [] \<or> \<not> is_digit (hd r) \<Longrightarrow>
    takeWhile is_digit (show_nat n @ r) = show_nat n \<and> dropWhile is_digit (show_nat n @ r) = r"
  using show_nat_digits [of n] by (cases r) (auto simp: takeWhile_append2 dropWhile_append2)

lemma show_nat_leading_zero: "hd (show_nat n) = CHR ''0'' \<Longrightarrow> n = 0"
proof (induction n rule: show_nat.induct)
  case (1 n)
  show ?case
  proof (cases "n < 10")
    case True
    with 1 have "digit_char n = CHR ''0''" by (simp add: show_nat.simps [of n])
    then have "digit_val (digit_char n) = 0" by (simp add: digit_val_def)
    with True show ?thesis by (simp add: digit_val_char)
  next
    case False
    with 1 show_nat_nonempty [of "n div 10"] show ?thesis
      by (simp add: show_nat.simps [of n])
  qed
qed

lemma show_nat_0: "show_nat 0 = ''0''"
  by (simp add: show_nat.simps digit_char_def char_of_def bit_0)

lemma parse_unsigned_show:
  assumes "r = [] \<or> \<not> is_digit (hd r)"
  shows "parse_unsigned (show_nat n @ r) = Some (show_nat n, r)"
proof (cases "n = 0")
  case True
  then show ?thesis using takeWhile_digits [OF assms, of n]
    by (simp add: parse_unsigned_def show_nat_0 Let_def)
next
  case False
  then show ?thesis using takeWhile_digits [OF assms, of n] show_nat_leading_zero [of n]
    by (auto simp: parse_unsigned_def show_nat_nonempty Let_def)
qed

lemma ends_value_tail:
  assumes "ends_value r"
  shows "parse_frac r = ([], r)" "parse_exp r = ([], r)" "r = [] \<or> \<not> is_digit (hd r)"
  using assms by (auto simp: ends_value_def parse_frac_def parse_exp_def is_digit_def split: list.splits)

lemma parse_num_show:
  assumes "ends_value r"
  shows "parse_num (show_int i @ r) = Some (JInt i, r)"
proof (cases "i < 0")
  case True
  then show ?thesis
    by (simp add: parse_num_def show_int_def parse_unsigned_show ends_value_tail [OF assms] read_show_nat)
next
  case False
  have "take 1 (show_nat n @ r) \<noteq> ''-''" for n
    using show_nat_not_minus [of n] show_nat_nonempty [of n] by (cases "show_nat n") auto
  with False show ?thesis
    by (simp add: parse_num_def show_int_def parse_unsigned_show ends_value_tail [OF assms] read_show_nat)
qed

lemma show_int_head: "\<exists>c t. show_int i = c # t \<and> (c = CHR ''-'' \<or> is_digit c)"
  using show_nat_digits [of "nat i"] show_nat_nonempty [of "nat i"]
  by (cases "show_nat (nat i)") (auto simp: show_int_def)

lemma dumps_head:
  assumes "wf_json j"
  obtains c t where "dumps isep ksep j = c # t" "\<not> json_space c" "c \<noteq> CHR '']''" "c \<noteq> CHR ''}''"
proof -
  have "\<exists>c t. dumps isep ksep j = c # t \<and> \<not> json_space c \<and> c \<noteq> CHR '']'' \<and> c \<noteq> CHR ''}''"
    using assms
  proof (cases j)
    case (JInt i)
    with show_int_head [of i] show ?thesis by (auto simp: json_space_def is_digit_def)
  qed (auto simp: json_space_def dump_str_def)
  then show thesis using that by blast
qed

lemma skip_ws_prefix: "\<forall>c \<in> set a. json_space c \<Longrightarrow> skip_ws (a @ s) = skip_ws s"
  by (induction a) auto

lemma skip_ws_dumps: "wf_json j \<Longrightarrow> skip_ws (dumps isep ksep j @ r) = dumps isep ksep j @ r"
  by (erule dumps_head [where isep = isep and ksep = ksep]) simp

lemma parse_val_num: "parse_val (Suc n) (show_int i @ r) = parse_num (show_int i @ r)"
proof -
  obtain c t where ct: "show_int i = c # t" "c = CHR ''-'' \<or> is_digit c"
    using show_int_head by blast
  then have "c \<noteq> quote_char" "c \<noteq> CHR ''[''" "c \<noteq> CHR ''{''" "c \<noteq> CHR ''n''" "c \<noteq> CHR ''t''" "c \<noteq> CHR ''f''"
    by (auto simp: is_digit_def)
  with ct show ?thesis by (simp add: startswith_def)
qed

lemma ends_value_intros [simp]:
  "ends_value []" "ends_value (CHR '','' # r)" "ends_value (CHR '']'' # r)" "ends_value (CHR ''}'' # r)"
  by (simp_all add: ends_value_def)

text \<open>Lists and objects, given the round trip of their components.\<close>

lemma parse_items_join:
  assumes ok: "seps_ok isep ksep" and ne: "xs \<noteq> []"
    and wf: "\<forall>x \<in> set xs. wf_json x"
    and IH: "\<And>x n r. x \<in> set xs \<Longrightarrow> fuel_for x \<le> n \<Longrightarrow> ends_value r \<Longrightarrow>
               parse_val n (dumps isep ksep x @ r) = Some (x, r)"
    and fuel: "sum_list (map (\<lambda>x. Suc (fuel_for x)) xs) \<le> n"
  shows "parse_items n (join isep (map (dumps isep ksep) xs) @ CHR '']'' # r) = Some (xs, r)"
  using ne wf IH fuel
proof (induction xs arbitrary: n)
  case Nil
  then show ?case by simp
next
  case (Cons x xs)
  obtain m where n: "n = Suc m" using Cons.prems(4) by (cases n) auto
  from ok obtain a where a: "isep = CHR '','' # a" "\<forall>c \<in> set a. json_space c"
    by (auto simp: seps_ok_def)
  have hx: "fuel_for x \<le> m" using Cons.prems(4) n by simp
  show ?case
  proof (cases xs)
    case Nil
    have "parse_val m (dumps isep ksep x @ CHR '']'' # r) = Some (x, CHR '']'' # r)"
      using Cons.prems(3) hx by simp
    then show ?thesis by (simp add: n Nil json_space_def)
  next
    case (Cons y ys)
    let ?rest = "join isep (map (dumps isep ksep) xs) @ CHR '']'' # r"
    have "parse_val m (dumps isep ksep x @ CHR '','' # a @ ?rest) = Some (x, CHR '','' # a @ ?rest)"
      using Cons.prems(3) hx by simp
    moreover have "parse_items m ?rest = Some (xs, r)"
      using Cons.prems Cons n by (intro Cons.IH) auto
    moreover have "skip_ws (a @ ?rest) = ?rest"
    proof -
      have "wf_json y" using Cons.prems(2) Cons by simp
      then have "\<exists>t. ?rest = dumps isep ksep y @ t"
        using Cons by (cases ys) auto
      then show ?thesis using skip_ws_prefix [OF a(2)] skip_ws_dumps [OF \<open>wf_json y\<close>] by metis
    qed
    ultimately show ?thesis using Cons by (simp add: n a(1) json_space_def)
  qed
qed

lemma parse_members_join:
  assumes ok: "seps_ok isep ksep" and ne: "d \<noteq> []"
    and wf: "\<forall>(k, v) \<in> set d. wf_json v"
    and IH: "\<And>k v n r. (k, v) \<in> set d \<Longrightarrow> fuel_for v \<le> n \<Longrightarrow> ends_value r \<Longrightarrow>
               parse_val n (dumps isep ksep v @ r) = Some (v, r)"
    and fuel: "sum_list (map (\<lambda>(k, v). Suc (fuel_for v)) d) \<le> n"
  shows "parse_members n
     (join isep (map (\<lambda>(k, v). dump_str k @ ksep @ dumps isep ksep v) d) @ CHR ''}'' # r) = Some (d, r)"
  using ne wf IH fuel
proof (induction d arbitrary: n)
  case Nil
  then show ?case by simp
next
  case (Cons kv d)
  obtain k v where kv: "kv = (k, v)" by (cases kv)
  obtain m where n: "n = Suc m" using Cons.prems(4) by (cases n) (auto simp: kv)
  from ok obtain a b where a: "isep = CHR '','' # a" "\<forall>c \<in> set a. json_space c"
    and b: "ksep = CHR '':'' # b" "\<forall>c \<in> set b. json_space c"
    by (auto simp: seps_ok_def)
  have hv: "fuel_for v \<le> m" using Cons.prems(4) n kv by simp
  have wfv: "wf_json v" using Cons.prems(2) kv by simp
  have val: "parse_val m (skip_ws (b @ dumps isep ksep v @ t)) = Some (v, t)" if "ends_value t" for t
    using Cons.prems(3) [of k v m t] hv that skip_ws_prefix [OF b(2)] skip_ws_dumps [OF wfv] kv by simp
  have str: "parse_str (concat (map esc_char k) @ quote_char # t) = Some (k, t)" for t
    by (rule parse_str_dump)
  show ?case
  proof (cases d)
    case Nil
    then show ?thesis using val [of "CHR ''}'' # r"]
      by (simp add: n kv dump_str_def str b(1) json_space_def)
  next
    case (Cons kv2 d2)
    let ?p = "\<lambda>(k, v). dump_str k @ ksep @ dumps isep ksep v"
    let ?rest = "join isep (map ?p d) @ CHR ''}'' # r"
    have "parse_members m ?rest = Some (d, r)"
      using Cons.prems Cons n kv by (intro Cons.IH) auto
    moreover have "skip_ws (a @ ?rest) = ?rest"
    proof -
      have "\<exists>t. ?rest = quote_char # t"
        using Cons by (cases d2; cases kv2) (auto simp: dump_str_def)
      then show ?thesis using skip_ws_prefix [OF a(2)] by (auto simp: json_space_def)
    qed
    ultimately show ?thesis using Cons val [of "CHR '','' # a @ ?rest"]
      by (simp add: n kv dump_str_def str a(1) b(1) json_space_def)
  qed
qed

lemma parse_val_dumps:
  assumes "seps_ok isep ksep"
  shows "wf_json j \<Longrightarrow> fuel_for j \<le> n \<Longrightarrow> ends_value r \<Longrightarrow>
    parse_val n (dumps isep ksep j @ r) = Some (j, r)"
proof (induction j arbitrary: n r)
  case (JInt i)
  then obtain m where "n = Suc m" by (cases n) auto
  with JInt parse_num_show show ?case by (simp add: parse_val_num del: parse_val.simps)
next
  case (JStr s)
  then obtain m where "n = Suc m" by (cases n) auto
  then show ?case by (simp add: dump_str_def parse_str_dump)
next
  case (JArr xs)
  then obtain m where n: "n = Suc m" by (cases n) auto
  show ?case
  proof (cases xs)
    case Nil
    then show ?thesis by (simp add: n json_space_def)
  next
    case (Cons y ys)
    let ?b = "join isep (map (dumps isep ksep) xs) @ CHR '']'' # r"
    have items: "parse_items m ?b = Some (xs, r)"
      using JArr Cons n by (intro parse_items_join [OF assms]) auto
    obtain t where t: "?b = dumps isep ksep y @ t" using Cons by (cases ys) auto
    have wfy: "wf_json y" using JArr.prems Cons by simp
    have "skip_ws ?b = ?b" unfolding t by (rule skip_ws_dumps [OF wfy])
    moreover have "take 1 ?b \<noteq> '']''"
      unfolding t using dumps_head [OF wfy, of isep ksep] by (metis append_Cons list.inject take_Suc_Cons One_nat_def)
    ultimately show ?thesis using items by (simp add: n)
  qed
next
  case (JObj d)
  then obtain m where n: "n = Suc m" by (cases n) auto
  show ?case
  proof (cases d)
    case Nil
    then show ?thesis by (simp add: n json_space_def)
  next
    case (Cons kv d2)
    let ?p = "\<lambda>(k, v). dump_str k @ ksep @ dumps isep ksep v"
    let ?b = "join isep (map ?p d) @ CHR ''}'' # r"
    have IH: "parse_val n' (dumps isep ksep v @ r') = Some (v, r')"
      if "(k, v) \<in> set d" "fuel_for v \<le> n'" "ends_value r'" for k v n' r'
      using JObj.IH [of "(k, v)" v n' r'] that JObj.prems by (auto simp: snds.simps)
    have "parse_members m ?b = Some (d, r)"
      using JObj.prems Cons n IH by (intro parse_members_join [OF assms]) auto
    moreover obtain t where "?b = quote_char # t"
      using Cons by (cases d2; cases kv) (auto simp: dump_str_def)
    moreover have "dict_update [] d = d" using JObj.prems dict_update_new [of "[]" d] by simp
    ultimately show ?thesis by (simp add: n json_space_def)
  qed
qed (auto simp: startswith_def gr0_conv_Suc Suc_le_eq split: if_splits)

lemma length_join: "sum_list (map length ws) \<le> length (join sep ws)"
  by (induction sep ws rule: join.induct) auto

lemma length_join_pos:
  "sep \<noteq> [] \<Longrightarrow> sum_list (map length ws) + length ws \<le> Suc (length (join sep ws))"
  by (induction sep ws rule: join.induct) (auto simp: Suc_le_eq neq_Nil_conv)

lemma fuel_for_length:
  assumes "seps_ok isep ksep"
  shows "wf_json j \<Longrightarrow> fuel_for j \<le> length (dumps isep ksep j)"
proof (induction j)
  case (JInt i)
  then show ?case using show_int_head [of i] by auto
next
  case (JArr xs)
  have ne: "isep \<noteq> []" using assms by (auto simp: seps_ok_def)
  have "sum_list (map fuel_for xs) \<le> sum_list (map (\<lambda>x. length (dumps isep ksep x)) xs)"
    using JArr by (intro sum_list_mono) auto
  moreover have "sum_list (map (\<lambda>x. Suc (fuel_for x)) xs) = sum_list (map fuel_for xs) + length xs"
    by (induction xs) auto
  ultimately show ?case using length_join_pos [OF ne, of "map (dumps isep ksep) xs"]
    by (simp add: comp_def)
next
  case (JObj d)
  have ne: "isep \<noteq> []" using assms by (auto simp: seps_ok_def)
  let ?p = "\<lambda>(k, v). dump_str k @ ksep @ dumps isep ksep v"
  have "sum_list (map (\<lambda>(k, v). fuel_for v) d) \<le> sum_list (map (\<lambda>kv. length (?p kv)) d)"
  proof (rule sum_list_mono)
    fix kv assume kv: "kv \<in> set d"
    obtain k v where "kv = (k, v)" by (cases kv)
    moreover have "wf_json v" using JObj.prems kv \<open>kv = (k, v)\<close> by auto
    ultimately show "(case kv of (k, v) \<Rightarrow> fuel_for v) \<le> length (?p kv)"
      using JObj.IH [of kv v] kv by (auto simp: snds.simps)
  qed
  moreover have "sum_list (map (\<lambda>(k, v). Suc (fuel_for v)) d) =
      sum_list (map (\<lambda>(k, v). fuel_for v) d) + length d"
    by (induction d) auto
  ultimately show ?case using length_join_pos [OF ne, of "map ?p d"]
    by (simp add: comp_def)
qed (auto simp: dump_str_def)

theorem loads_dumps:
  assumes "seps_ok isep ksep" and "wf_json j"
  shows "loads (dumps isep ksep j) = Some j"
proof -
  have "parse_val (Suc (length (dumps isep ksep j))) (dumps isep ksep j) = Some (j, [])"
    using parse_val_dumps [OF assms, of "Suc (length (dumps isep ksep j))" "[]"]
      fuel_for_length [OF assms] by simp
  then show ?thesis
    using skip_ws_dumps [OF assms(2), of isep ksep "[]"] by (simp add: loads_def del: parse_val.simps)
qed

lemma seps_default: "seps_ok '', '' '': ''"
  by (simp add: seps_ok_def json_space_def)

lemma seps_compact: "seps_ok '','' '':''"
  by (simp add: seps_ok_def)

end
