(* ===== verification/Errors.thy ===== *)
theory Errors
  imports Json
begin

text \<open>
  \<open>app/errors.py\<close>: the application's one exception, \<open>FcamError\<close>, as a value, and the two JSON
  shapes it is rendered in: the gateway's own (\<open>/admin\<close>, health) and Firecrawl's (proxy paths).
\<close>

record fcam_error =
  e_status :: int
  e_code :: string
  e_message :: string
  e_details :: "json option"
  e_retry_after :: "int option"

definition fcam :: "int \<Rightarrow> string \<Rightarrow> string \<Rightarrow> fcam_error" where
  "fcam status code msg =
     \<lparr>e_status = status, e_code = code, e_message = msg, e_details = None, e_retry_after = None\<rparr>"

lemma fcam_sel [simp]:
  "e_status (fcam st c m) = st" "e_code (fcam st c m) = c" "e_message (fcam st c m) = m"
  "e_details (fcam st c m) = None" "e_retry_after (fcam st c m) = None"
  by (simp_all add: fcam_def)

definition db_unavailable :: fcam_error where
  "db_unavailable = fcam 503 ''DB_UNAVAILABLE'' ''Database unavailable''"

definition backend_unavailable :: fcam_error where
  "backend_unavailable = fcam 503 ''DB_UNAVAILABLE'' ''State backend unavailable''"

lemma unavailable_code [simp]:
  "e_code db_unavailable = ''DB_UNAVAILABLE''" "e_code backend_unavailable = ''DB_UNAVAILABLE''"
  by (simp_all add: db_unavailable_def backend_unavailable_def)

text \<open>A response of the gateway: status, headers set by the code, body.\<close>

record http_response =
  hr_status :: int
  hr_headers :: "(string \<times> string) list"
  hr_body :: bytes

definition json_opt :: "json option \<Rightarrow> json" where
  "json_opt x = (case x of None \<Rightarrow> JNull | Some j \<Rightarrow> j)"

definition int_opt :: "int option \<Rightarrow> json" where
  "int_opt x = (case x of None \<Rightarrow> JNull | Some i \<Rightarrow> JInt i)"

definition str_opt :: "string option \<Rightarrow> json" where
  "str_opt x = (case x of None \<Rightarrow> JNull | Some s \<Rightarrow> JStr s)"

definition error_headers :: "string \<Rightarrow> int option \<Rightarrow> (string \<times> string) list" where
  "error_headers request_id retry_after =
     (''X-Request-Id'', request_id) #
     (case retry_after of None \<Rightarrow> [] | Some n \<Rightarrow> [(''Retry-After'', show_int n)])"

definition json_error ::
  "string \<Rightarrow> int \<Rightarrow> string \<Rightarrow> string \<Rightarrow> json option \<Rightarrow> int option \<Rightarrow> http_response" where
  "json_error request_id status code msg details retry_after =
     \<lparr>hr_status = status,
      hr_headers = error_headers request_id retry_after,
      hr_body = dumps_compact (JObj
        [(''request_id'', JStr request_id),
         (''error'', JObj [(''code'', JStr code), (''message'', JStr msg), (''details'', json_opt details)])])\<rparr>"

definition build_error_response :: "string \<Rightarrow> fcam_error \<Rightarrow> http_response" where
  "build_error_response request_id e =
     json_error request_id (e_status e) (e_code e) (e_message e) (e_details e) (e_retry_after e)"

text \<open>\<open>_firecrawl_json_error\<close>: \<open>code\<close> is added only when it is non-empty.\<close>

definition firecrawl_json_error ::
  "string \<Rightarrow> int \<Rightarrow> string option \<Rightarrow> string \<Rightarrow> int option \<Rightarrow> http_response" where
  "firecrawl_json_error request_id status code msg retry_after =
     \<lparr>hr_status = status,
      hr_headers = error_headers request_id retry_after,
      hr_body = dumps_compact (JObj
        ([(''success'', JBool False), (''error'', JStr msg)] @
         (case code of None \<Rightarrow> [] | Some c \<Rightarrow> if c = [] then [] else [(''code'', JStr c)])))\<rparr>"

definition is_proxy_path :: "string \<Rightarrow> bool" where
  "is_proxy_path path \<longleftrightarrow>
     startswith path ''/api/'' \<or> startswith path ''/v1/'' \<or> startswith path ''/v2/'' \<or> startswith path ''/exa/''"

definition build_proxy_error_response :: "string \<Rightarrow> fcam_error \<Rightarrow> http_response" where
  "build_proxy_error_response request_id e =
     firecrawl_json_error request_id (e_status e) (Some (e_code e)) (e_message e) (e_retry_after e)"

text \<open>
  The exception handlers of \<open>register_exception_handlers\<close>: what is recorded on
  \<open>request.state\<close> (error code and details) and the response.
\<close>

record error_note =
  en_code :: string
  en_details :: json

definition handle_fcam_error :: "string \<Rightarrow> string \<Rightarrow> fcam_error \<Rightarrow> error_note \<times> http_response" where
  "handle_fcam_error path request_id e =
     (\<lparr>en_code = e_code e,
       en_details = JObj [(''code'', JStr (e_code e)), (''message'', JStr (e_message e)),
                          (''details'', json_opt (e_details e)), (''retry_after'', int_opt (e_retry_after e))]\<rparr>,
      (if is_proxy_path path then build_proxy_error_response request_id e
       else build_error_response request_id e))"

definition handle_validation_error ::
  "string \<Rightarrow> string \<Rightarrow> (string \<times> json) list list \<Rightarrow> error_note \<times> http_response" where
  "handle_validation_error path request_id errors =
     (let safe = map (\<lambda>e. JObj (filter (\<lambda>(k, v). k \<noteq> ''input'') e)) errors in
      (\<lparr>en_code = ''VALIDATION_ERROR'',
        en_details = JObj [(''code'', JStr ''VALIDATION_ERROR''), (''message'', JStr ''Validation error''),
                           (''details'', JObj [(''errors'', JArr (take 20 safe))])]\<rparr>,
       (if is_proxy_path path then
          firecrawl_json_error request_id 400 (Some ''VALIDATION_ERROR'') ''Invalid request parameters'' None
        else json_error request_id 400 ''VALIDATION_ERROR'' ''Validation error''
               (Some (JObj [(''errors'', JArr safe)])) None)))"

definition handle_http_exception :: "string \<Rightarrow> string \<Rightarrow> int \<Rightarrow> error_note \<times> http_response" where
  "handle_http_exception path request_id status =
     (let code = (if status = 404 then ''NOT_FOUND'' else ''INTERNAL_ERROR'');
          msg = (if status = 404 then ''Not found'' else ''HTTP error'') in
      (\<lparr>en_code = code,
        en_details = JObj [(''code'', JStr code), (''message'', JStr msg),
                           (''details'', JObj [(''status_code'', JInt status)])]\<rparr>,
       (if is_proxy_path path then firecrawl_json_error request_id status (Some code) msg None
        else json_error request_id status code msg None None)))"

definition handle_unexpected :: "string \<Rightarrow> string \<Rightarrow> string \<Rightarrow> error_note \<times> http_response" where
  "handle_unexpected path request_id class_name =
     (\<lparr>en_code = ''INTERNAL_ERROR'',
       en_details = JObj [(''code'', JStr ''INTERNAL_ERROR''), (''message'', JStr ''Internal error''),
                          (''details'', JObj [(''exception_type'', JStr class_name)])]\<rparr>,
      (if is_proxy_path path then
         firecrawl_json_error request_id 500 (Some ''UNKNOWN_ERROR'')
           ''An unexpected error occurred on the server.'' None
       else json_error request_id 500 ''INTERNAL_ERROR'' ''Internal error'' None None))"

text \<open>
  Bodies the handlers send parse back to the object they were built from, and a proxy path never
  shows the error's details.
\<close>

lemma proxy_error_body:
  "loads (hr_body (build_proxy_error_response rid e)) =
     Some (JObj ([(''success'', JBool False), (''error'', JStr (e_message e))] @
                 (if e_code e = [] then [] else [(''code'', JStr (e_code e))])))"
proof -
  let ?d = "[(''success'', JBool False), (''error'', JStr (e_message e))] @
                 (if e_code e = [] then [] else [(''code'', JStr (e_code e))])"
  have "wf_json (JObj ?d)" by auto
  from loads_dumps [OF seps_compact this] show ?thesis
    by (simp add: build_proxy_error_response_def firecrawl_json_error_def split: if_splits)
qed

lemma own_error_body:
  assumes "case e_details e of None \<Rightarrow> True | Some j \<Rightarrow> wf_json j"
  shows "loads (hr_body (build_error_response rid e)) =
     Some (JObj [(''request_id'', JStr rid),
       (''error'', JObj [(''code'', JStr (e_code e)), (''message'', JStr (e_message e)),
                         (''details'', json_opt (e_details e))])])"
proof -
  have "wf_json (json_opt (e_details e))"
    using assms by (cases "e_details e") (auto simp: json_opt_def)
  then have "wf_json (JObj [(''request_id'', JStr rid),
       (''error'', JObj [(''code'', JStr (e_code e)), (''message'', JStr (e_message e)),
                         (''details'', json_opt (e_details e))])])" by simp
  from loads_dumps [OF seps_compact this] show ?thesis
    by (simp add: build_error_response_def json_error_def)
qed

end
