(* ===== verification/Config.thy ===== *)
theory Config
  imports Errors
begin

text \<open>
  \<open>app/config.py\<close>: the configuration classes as records with their default values, the
  normalisation of base URLs, the merge of defaults, file and environment, and the reading of
  \<open>FCAM_*\<close> variables. YAML parsing and pydantic's validation are libraries: the parser is a
  parameter of \<open>env_overrides\<close>.
\<close>

record server_config =
  sv_host :: string
  sv_port :: int
  sv_trust_proxy_headers :: bool
  sv_enable_docs :: bool
  sv_enable_data_plane :: bool
  sv_enable_control_plane :: bool

definition server_default :: server_config where
  "server_default = \<lparr>sv_host = ''0.0.0.0'', sv_port = 8000, sv_trust_proxy_headers = False,
     sv_enable_docs = True, sv_enable_data_plane = True, sv_enable_control_plane = True\<rparr>"

record firecrawl_config =
  fc_base_url :: string
  fc_timeout :: int
  fc_max_retries :: int
  fc_failure_threshold :: int
  fc_failure_window_seconds :: int
  fc_failed_cooldown_seconds :: int

definition firecrawl_default :: firecrawl_config where
  "firecrawl_default = \<lparr>fc_base_url = ''https://api.firecrawl.dev'', fc_timeout = 30, fc_max_retries = 3,
     fc_failure_threshold = 3, fc_failure_window_seconds = 60, fc_failed_cooldown_seconds = 60\<rparr>"

text \<open>The validator \<open>_normalize_base_url\<close>; an empty URL is a \<open>ValueError\<close> (\<open>None\<close>).\<close>

definition normalize_base_url :: "string \<Rightarrow> string option" where
  "normalize_base_url v =
     (let normalized = strip v in
      if normalized = [] then None else Some (rstrip (\<lambda>c. c = CHR ''/'') normalized))"

record request_limits_config =
  rl_max_body_bytes :: int
  rl_allowed_paths :: "string list"

definition request_limits_default :: request_limits_config where
  "request_limits_default = \<lparr>rl_max_body_bytes = 1048576,
     rl_allowed_paths = [''scrape'', ''crawl'', ''search'', ''agent'', ''map'', ''extract'', ''batch'',
                         ''browser'', ''team'']\<rparr>"

record security_config =
  sc_client_auth_enabled :: bool
  sc_client_auth_scheme :: string
  sc_admin_token_env :: string
  sc_master_key_env :: string
  sc_request_limits :: request_limits_config

definition security_default :: security_config where
  "security_default = \<lparr>sc_client_auth_enabled = True, sc_client_auth_scheme = ''bearer'',
     sc_admin_token_env = ''FCAM_ADMIN_TOKEN'', sc_master_key_env = ''FCAM_MASTER_KEY'',
     sc_request_limits = request_limits_default\<rparr>"

record quota_config =
  qt_timezone :: string
  qt_count_mode :: string
  qt_default_daily_limit :: int
  qt_reset_time :: string
  qt_enable_quota_check :: bool

definition quota_default :: quota_config where
  "quota_default = \<lparr>qt_timezone = ''UTC'', qt_count_mode = ''success'', qt_default_daily_limit = 5,
     qt_reset_time = ''00:00'', qt_enable_quota_check = True\<rparr>"

record smart_refresh_config =
  sr_enabled :: bool
  sr_high_usage_interval :: int
  sr_medium_usage_interval :: int
  sr_normal_usage_interval :: int
  sr_low_usage_interval :: int

record local_estimation_config =
  le_enabled :: bool
  le_sync_on_request :: bool

record credit_monitoring_config =
  cm_enabled :: bool
  cm_smart_refresh :: smart_refresh_config
  cm_fixed_interval_minutes :: int
  cm_batch_size :: int
  cm_batch_delay_seconds :: int
  cm_local_estimation :: local_estimation_config
  cm_retention_days :: int
  cm_retry_delay_minutes :: int
  cm_refresh_check_interval_seconds :: int
  cm_min_manual_refresh_interval_seconds :: int
  cm_history_max_limit :: int

definition smart_refresh_default :: smart_refresh_config where
  "smart_refresh_default = \<lparr>sr_enabled = True, sr_high_usage_interval = 15,
     sr_medium_usage_interval = 30, sr_normal_usage_interval = 60, sr_low_usage_interval = 120\<rparr>"

definition credit_monitoring_default :: credit_monitoring_config where
  "credit_monitoring_default = \<lparr>cm_enabled = False, cm_smart_refresh = smart_refresh_default,
     cm_fixed_interval_minutes = 60, cm_batch_size = 10, cm_batch_delay_seconds = 5,
     cm_local_estimation = \<lparr>le_enabled = True, le_sync_on_request = True\<rparr>,
     cm_retention_days = 90, cm_retry_delay_minutes = 10, cm_refresh_check_interval_seconds = 300,
     cm_min_manual_refresh_interval_seconds = 300, cm_history_max_limit = 500\<rparr>"

record idempotency_config =
  ip_enabled :: bool
  ip_ttl_seconds :: int
  ip_max_response_bytes :: int
  ip_require_on :: "string list"

definition idempotency_default :: idempotency_config where
  "idempotency_default = \<lparr>ip_enabled = True, ip_ttl_seconds = 86400, ip_max_response_bytes = 1048576,
     ip_require_on = []\<rparr>"

record database_config =
  dbc_path :: string
  dbc_url :: "string option"

record logging_config =
  lg_level :: string
  lg_format :: string
  lg_redact_fields :: "string list"

definition logging_default :: logging_config where
  "logging_default = \<lparr>lg_level = ''INFO'', lg_format = ''json'',
     lg_redact_fields = [''authorization'', ''api_key'', ''x-api-key'', ''token'', ''cookie'', ''set-cookie'']\<rparr>"

record observability_config =
  ob_metrics_enabled :: bool
  ob_metrics_path :: string
  ob_request_logs_days :: int
  ob_audit_logs_days :: int

definition observability_default :: observability_config where
  "observability_default = \<lparr>ob_metrics_enabled = False, ob_metrics_path = ''/metrics'',
     ob_request_logs_days = 30, ob_audit_logs_days = 90\<rparr>"

record state_config =
  st_mode :: string
  st_redis_url :: string
  st_redis_key_prefix :: string

definition state_default :: state_config where
  "state_default = \<lparr>st_mode = ''memory'', st_redis_url = ''redis://localhost:6379/0'',
     st_redis_key_prefix = ''fcam''\<rparr>"

record provider_config =
  pv_enabled :: bool
  pv_base_url :: string
  pv_auth_mode :: string
  pv_timeout :: int
  pv_max_retries :: int
  pv_route_prefix :: string
  pv_allowed_paths :: "string list"

definition exa_default :: provider_config where
  "exa_default = \<lparr>pv_enabled = False, pv_base_url = ''https://api.exa.ai'', pv_auth_mode = ''x-api-key'',
     pv_timeout = 30, pv_max_retries = 3, pv_route_prefix = ''/exa'',
     pv_allowed_paths = [''search'', ''findSimilar'', ''contents'', ''answer'']\<rparr>"

record app_config =
  c_server :: server_config
  c_firecrawl :: firecrawl_config
  c_exa :: provider_config
  c_security :: security_config
  c_quota :: quota_config
  c_cooldown_seconds :: int
  c_credit_monitoring :: credit_monitoring_config
  c_idempotency :: idempotency_config
  c_database :: database_config
  c_logging :: logging_config
  c_observability :: observability_config
  c_state :: state_config
  c_batch_key_test_max_workers :: int

definition default_config :: app_config where
  "default_config = \<lparr>c_server = server_default, c_firecrawl = firecrawl_default, c_exa = exa_default,
     c_security = security_default, c_quota = quota_default, c_cooldown_seconds = 60,
     c_credit_monitoring = credit_monitoring_default, c_idempotency = idempotency_default,
     c_database = \<lparr>dbc_path = ''./data/api_manager.db'', dbc_url = None\<rparr>, c_logging = logging_default,
     c_observability = observability_default, c_state = state_default,
     c_batch_key_test_max_workers = 10\<rparr>"

record secrets =
  sec_admin_token :: "string option"
  sec_master_key :: "string option"

text \<open>\<open>if not secrets.master_key\<close>: unset and empty are the same.\<close>

definition set_secret :: "string option \<Rightarrow> string option" where
  "set_secret x = (case x of None \<Rightarrow> None | Some s \<Rightarrow> if s = [] then None else Some s)"

subsection \<open>Merging defaults, file and environment\<close>

text \<open>
  \<open>_deep_merge\<close>: nested mappings are merged, any other value of the override wins.
\<close>

function (sequential) deep_merge ::
  "(string \<times> json) list \<Rightarrow> (string \<times> json) list \<Rightarrow> (string \<times> json) list" where
  "deep_merge base [] = base"
| "deep_merge base ((k, v) # ov) =
     (let merged = (case v of
          JObj dv \<Rightarrow> (case map_of base k of
                       Some (JObj db) \<Rightarrow> dict_set k (JObj (deep_merge db dv)) base
                     | _ \<Rightarrow> dict_set k v base)
        | _ \<Rightarrow> dict_set k v base)
      in deep_merge merged ov)"
  by pat_completeness auto
termination
  by (relation "measure (\<lambda>(base, ov). size (JObj ov))") auto

text \<open>
  \<open>_env_overrides\<close>: \<open>yaml_load\<close> is PyYAML's \<open>safe_load\<close>. \<open>split_dunder\<close> is
  \<open>str.split("__")\<close>.
\<close>

fun split_dunder :: "string \<Rightarrow> string list" where
  "split_dunder [] = [[]]"
| "split_dunder [c] = [[c]]"
| "split_dunder (c # d # s) =
     (if c = CHR ''_'' \<and> d = CHR ''_'' then [] # split_dunder s
      else (case split_dunder (d # s) of [] \<Rightarrow> [[c]] | w # ws \<Rightarrow> (c # w) # ws))"

fun put_path :: "string list \<Rightarrow> json \<Rightarrow> (string \<times> json) list \<Rightarrow> (string \<times> json) list" where
  "put_path [] v d = d"
| "put_path [k] v d = dict_set k v d"
| "put_path (k # l # ks) v d =
     (let sub = (case map_of d k of Some (JObj e) \<Rightarrow> e | _ \<Rightarrow> [])
      in dict_set k (JObj (put_path (l # ks) v sub)) d)"

definition reserved_env_keys :: "string list" where
  "reserved_env_keys = [''FCAM_CONFIG'', ''FCAM_ADMIN_TOKEN'', ''FCAM_MASTER_KEY'']"

definition env_step ::
  "(string \<Rightarrow> json) \<Rightarrow> (string \<times> string) list \<Rightarrow> string \<times> string
     \<Rightarrow> (string \<times> json) list \<Rightarrow> (string \<times> json) list" where
  "env_step yaml_load environ kv result =
     (let (key0, raw) = kv in
      if key0 \<in> set reserved_env_keys then result
      else if key0 = ''FCAM_DATABASE_URL'' \<and> map_of environ ''FCAM_DATABASE__URL'' \<noteq> None then result
      else
        (let key = (if key0 = ''FCAM_DATABASE_URL'' then ''FCAM_DATABASE__URL'' else key0) in
         if \<not> startswith key ''FCAM_'' then result
         else put_path (split_dunder (lower (drop 5 key))) (yaml_load raw) result))"

definition env_overrides :: "(string \<Rightarrow> json) \<Rightarrow> (string \<times> string) list \<Rightarrow> (string \<times> json) list" where
  "env_overrides yaml_load environ =
     foldl (\<lambda>result kv. env_step yaml_load environ kv result) [] environ"

text \<open>
  \<open>load_config\<close> up to pydantic's validation: the conflict check on the two database variables
  and the order of precedence, defaults below file below environment.
\<close>

definition load_merged ::
  "(string \<Rightarrow> json) \<Rightarrow> (string \<times> json) list \<Rightarrow> (string \<times> json) list \<Rightarrow> (string \<times> string) list
     \<Rightarrow> (string \<times> json) list option" where
  "load_merged yaml_load defaults yaml_config environ =
     (let flat = map_of environ ''FCAM_DATABASE_URL''; nested = map_of environ ''FCAM_DATABASE__URL'' in
      if set_secret flat \<noteq> None \<and> set_secret nested \<noteq> None \<and> flat \<noteq> nested then None
      else Some (deep_merge (deep_merge defaults yaml_config) (env_overrides yaml_load environ)))"

subsection \<open>What a merge returns\<close>

definition is_obj :: "json \<Rightarrow> bool" where
  "is_obj j = (case j of JObj _ \<Rightarrow> True | _ \<Rightarrow> False)"

lemma deep_merge_other:
  "k \<notin> fst ` set ov \<Longrightarrow> map_of (deep_merge base ov) k = map_of base k"
proof (induction base ov rule: deep_merge.induct)
  case (1 base)
  then show ?case by simp
next
  case (2 base k' v ov)
  then show ?case
    by (auto simp: Let_def map_of_dict_set split: json.splits option.splits)
qed

lemma deep_merge_scalar:
  assumes "distinct (map fst ov)" and "map_of ov k = Some v" and "\<not> is_obj v"
  shows "map_of (deep_merge base ov) k = Some v"
  using assms
proof (induction base ov rule: deep_merge.induct)
  case (1 base)
  then show ?case by simp
next
  case (2 base k' v' ov)
  show ?case
  proof (cases "k' = k")
    case True
    with 2 have v: "v' = v" by simp
    have "deep_merge base ((k', v') # ov) = deep_merge (dict_set k v base) ov"
      using \<open>\<not> is_obj v\<close> v True by (cases v) (auto simp: is_obj_def)
    moreover have "k \<notin> fst ` set ov" using "2.prems"(1) True by auto
    ultimately show ?thesis by (simp add: deep_merge_other map_of_dict_set)
  next
    case False
    with 2 show ?thesis by (auto simp: Let_def split: json.splits option.splits)
  qed
qed

lemma deep_merge_nested:
  assumes "distinct (map fst ov)" and "map_of ov k = Some (JObj dv)" and "map_of base k = Some (JObj db)"
  shows "map_of (deep_merge base ov) k = Some (JObj (deep_merge db dv))"
  using assms
proof (induction base ov rule: deep_merge.induct)
  case (1 base)
  then show ?case by simp
next
  case (2 base k' v' ov)
  show ?case
  proof (cases "k' = k")
    case True
    with 2 have v: "v' = JObj dv" by simp
    have "deep_merge base ((k', v') # ov) = deep_merge (dict_set k (JObj (deep_merge db dv)) base) ov"
      using "2.prems" v True by simp
    moreover have "k \<notin> fst ` set ov" using "2.prems"(1) True by auto
    ultimately show ?thesis by (simp add: deep_merge_other map_of_dict_set)
  next
    case False
    with 2 show ?thesis by (auto simp: Let_def map_of_dict_set split: json.splits option.splits)
  qed
qed

end
