(* ===== verification/Models.thy ===== *)
theory Models
  imports Config
begin

text \<open>
  \<open>app/db/models.py\<close> and the part of SQLAlchemy's \<open>Session\<close> the program uses: the rows as
  records, the tables, and a session with the committed tables (\<open>db\<close>), the session's own view
  (\<open>cur\<close>) and the outcomes of the round trips to come (\<open>faults\<close>: \<open>True\<close> is a failure,
  an exhausted list means no further failure).
\<close>

datatype key_status = Active | Cooling | Failed | Quota_exceeded | Disabled | Decrypt_failed
datatype client_status = Cl_active | Cl_disabled | Cl_deleted
datatype idem_status = In_progress | Completed

record api_key =
  k_id :: int
  k_client_id :: "int option"
  k_ciphertext :: bytes
  k_hash :: string
  k_last4 :: string
  k_account_username :: "string option"
  k_account_password_ciphertext :: "bytes option"
  k_account_verified_at :: "instant option"
  k_name :: "string option"
  k_plan_type :: string
  k_is_active :: bool
  k_daily_quota :: "int option"
  k_daily_usage :: int
  k_quota_reset_at :: "date option"
  k_max_concurrent :: int
  k_rate_limit_per_min :: int
  k_cooldown_until :: "instant option"
  k_total_requests :: int
  k_last_used_at :: "instant option"
  k_created_at :: instant
  k_last_credit_snapshot_id :: "int option"
  k_last_credit_check_at :: "instant option"
  k_cached_remaining :: "int option"
  k_cached_plan :: "int option"
  k_next_refresh_at :: "instant option"
  k_provider :: string
  k_status :: key_status

record client =
  c_id :: int
  c_name :: string
  c_token_hash :: string
  c_is_active :: bool
  c_daily_quota :: "int option"
  c_daily_usage :: int
  c_quota_reset_at :: "date option"
  c_rate_limit_per_min :: int
  c_max_concurrent :: int
  c_created_at :: instant
  c_last_used_at :: "instant option"
  c_status :: client_status

record request_log =
  l_id :: int
  l_request_id :: string
  l_client_id :: "int option"
  l_api_key_id :: "int option"
  l_endpoint :: string
  l_method :: string
  l_status_code :: "int option"
  l_response_time_ms :: "int option"
  l_success :: "bool option"
  l_retry_count :: int
  l_error_message :: "string option"
  l_error_details :: "string option"
  l_idempotency_key :: "string option"
  l_created_at :: instant

record credit_snapshot =
  cs_id :: int
  cs_api_key_id :: int
  cs_remaining :: int
  cs_plan :: int
  cs_period_start :: "instant option"
  cs_period_end :: "instant option"
  cs_snapshot_at :: instant
  cs_fetch_success :: bool
  cs_error_message :: "string option"

record idem_record =
  i_id :: int
  i_client_id :: int
  i_key :: string
  i_request_hash :: string
  i_status :: idem_status
  i_response_status :: "int option"
  i_response_body :: "string option"
  i_created_at :: instant
  i_expires_at :: "instant option"

record binding =
  b_id :: int
  b_client_id :: int
  b_api_key_id :: int
  b_resource_type :: string
  b_resource_id :: string
  b_created_at :: instant
  b_expires_at :: "instant option"

record audit_log =
  a_id :: int
  a_actor_type :: string
  a_actor_id :: "string option"
  a_action :: string
  a_resource_type :: "string option"
  a_resource_id :: "string option"
  a_ip :: "string option"
  a_user_agent :: "string option"
  a_created_at :: instant

record tables =
  t_keys :: "api_key list"
  t_clients :: "client list"
  t_logs :: "request_log list"
  t_snapshots :: "credit_snapshot list"
  t_idem :: "idem_record list"
  t_bindings :: "binding list"
  t_audit :: "audit_log list"

text \<open>
  The unique constraints of the schema, checked when a session flushes; the next value of an
  autoincrement column.
\<close>

definition unique_ok :: "tables \<Rightarrow> bool" where
  "unique_ok t \<longleftrightarrow>
     distinct (map k_hash (t_keys t)) \<and>
     distinct (map c_name (t_clients t)) \<and>
     distinct (map c_token_hash (t_clients t)) \<and>
     distinct (map (\<lambda>r. (i_client_id r, i_key r)) (t_idem t)) \<and>
     distinct (map (\<lambda>b. (b_client_id b, b_resource_type b, b_resource_id b)) (t_bindings t))"

definition fresh_id :: "int list \<Rightarrow> int" where
  "fresh_id ids = 1 + foldr max ids 0"

lemma foldr_max_ge: "i \<in> set ids \<Longrightarrow> i \<le> foldr max ids (0::int)"
  by (induction ids) auto

lemma fresh_id_fresh: "fresh_id ids \<notin> set ids"
  using foldr_max_ge [of "fresh_id ids" ids] by (auto simp: fresh_id_def)

subsection \<open>Sessions\<close>

record session =
  db :: tables
  cur :: tables
  faults :: "bool list"

datatype db_exc = Integrity_error | Db_error

text \<open>One round trip whose failure the code catches.\<close>

definition next_fault :: "session \<Rightarrow> bool \<times> session" where
  "next_fault s = (case faults s of [] \<Rightarrow> (False, s) | f # fs \<Rightarrow> (f, s\<lparr>faults := fs\<rparr>))"

definition commit :: "session \<Rightarrow> db_exc option \<times> session" where
  "commit s =
     (let (f, s1) = next_fault s in
      if f then (Some Db_error, s1)
      else if \<not> unique_ok (cur s1) then (Some Integrity_error, s1)
      else (None, s1\<lparr>db := cur s1\<rparr>))"

definition rollback :: "session \<Rightarrow> session" where
  "rollback s = s\<lparr>cur := db s\<rparr>"

text \<open>\<open>try: db.commit() except Exception: db.rollback()\<close>, and whether it succeeded.\<close>

definition commit_or_rollback :: "session \<Rightarrow> bool \<times> session" where
  "commit_or_rollback s =
     (case commit s of (None, s') \<Rightarrow> (True, s') | (Some _, s') \<Rightarrow> (False, rollback s'))"

text \<open>A new session on the committed tables, and the end of one (uncommitted work is lost).\<close>

definition open_session :: "tables \<Rightarrow> bool list \<Rightarrow> session" where
  "open_session t fs = \<lparr>db = t, cur = t, faults = fs\<rparr>"

definition close_session :: "session \<Rightarrow> session" where
  "close_session s = s\<lparr>cur := db s\<rparr>"

lemma next_fault_sel [simp]:
  "db (snd (next_fault s)) = db s" "cur (snd (next_fault s)) = cur s"
  by (simp_all add: next_fault_def split: list.splits)

lemma next_fault_views: "next_fault s = (f, t) \<Longrightarrow> cur t = cur s \<and> db t = db s"
  using next_fault_sel [of s] by simp

lemma commit_cases:
  assumes "commit s = (r, s')"
  shows "cur s' = cur s \<and> (db s' = db s \<or> (r = None \<and> db s' = cur s \<and> unique_ok (cur s)))"
  using assms next_fault_sel [of s]
  by (cases "next_fault s") (auto simp: commit_def split: if_splits)

lemma commit_no_faults:
  "faults s = [] \<Longrightarrow> commit s =
     (if unique_ok (cur s) then (None, s\<lparr>db := cur s\<rparr>) else (Some Integrity_error, s))"
  by (simp add: commit_def next_fault_def)

lemma commit_or_rollback_cases:
  assumes "commit_or_rollback s = (ok, s')"
  obtains "ok" "cur s' = cur s" "db s' = cur s" | "\<not> ok" "cur s' = db s" "db s' = db s"
proof -
  obtain r t where c: "commit s = (r, t)" by (cases "commit s")
  show thesis
  proof (cases r)
    case None
    with c assms have "ok" "s' = t" by (auto simp: commit_or_rollback_def)
    moreover have "cur t = cur s \<and> db t = cur s"
      using c None next_fault_sel [of s]
      by (cases "next_fault s") (auto simp: commit_def split: if_splits)
    ultimately show thesis using that(1) by simp
  next
    case (Some e)
    with c assms have "\<not> ok" "s' = rollback t" by (auto simp: commit_or_rollback_def)
    moreover have "db t = db s"
      using c Some next_fault_sel [of s]
      by (cases "next_fault s") (auto simp: commit_def split: if_splits)
    ultimately show thesis using that(2) by (simp add: rollback_def)
  qed
qed

subsection \<open>Rows by id\<close>

definition get_key :: "int \<Rightarrow> session \<Rightarrow> api_key option" where
  "get_key kid s = find (\<lambda>k. k_id k = kid) (t_keys (cur s))"

definition upd_key :: "int \<Rightarrow> (api_key \<Rightarrow> api_key) \<Rightarrow> session \<Rightarrow> session" where
  "upd_key kid f s =
     s\<lparr>cur := (cur s)\<lparr>t_keys := upd_where (\<lambda>k. k_id k = kid) f (t_keys (cur s))\<rparr>\<rparr>"

definition get_client :: "int \<Rightarrow> session \<Rightarrow> client option" where
  "get_client cid s = find (\<lambda>c. c_id c = cid) (t_clients (cur s))"

definition upd_client :: "int \<Rightarrow> (client \<Rightarrow> client) \<Rightarrow> session \<Rightarrow> session" where
  "upd_client cid f s =
     s\<lparr>cur := (cur s)\<lparr>t_clients := upd_where (\<lambda>c. c_id c = cid) f (t_clients (cur s))\<rparr>\<rparr>"

text \<open>
  What no operation of the data plane changes in a key's row, and the same for the two views of a
  session. Every operation of the data plane keeps the identities of a session.
\<close>

definition key_ident :: "api_key \<Rightarrow> int \<times> int option \<times> string \<times> bytes" where
  "key_ident k = (k_id k, k_client_id k, k_provider k, k_ciphertext k)"

definition idents :: "session \<Rightarrow> (int \<times> int option \<times> string \<times> bytes) list
    \<times> (int \<times> int option \<times> string \<times> bytes) list" where
  "idents s = (map key_ident (t_keys (cur s)), map key_ident (t_keys (db s)))"

definition coherent :: "session \<Rightarrow> bool" where
  "coherent s \<longleftrightarrow> map key_ident (t_keys (cur s)) = map key_ident (t_keys (db s))"

lemma coherent_open [simp]: "coherent (open_session t fs)"
  by (simp add: coherent_def open_session_def)

lemma upd_key_keys [simp]:
  "t_keys (cur (upd_key kid f s)) = upd_where (\<lambda>k. k_id k = kid) f (t_keys (cur s))"
  "db (upd_key kid f s) = db s" "t_clients (cur (upd_key kid f s)) = t_clients (cur s)"
  "faults (upd_key kid f s) = faults s"
  by (simp_all add: upd_key_def)

lemma upd_client_sel [simp]:
  "t_keys (cur (upd_client cid f s)) = t_keys (cur s)" "db (upd_client cid f s) = db s"
  "faults (upd_client cid f s) = faults s"
  by (simp_all add: upd_client_def)

definition keeps_ident :: "(api_key \<Rightarrow> api_key) \<Rightarrow> bool" where
  "keeps_ident f \<longleftrightarrow> (\<forall>k. key_ident (f k) = key_ident k)"

lemma keeps_ident_id: "keeps_ident f \<Longrightarrow> k_id (f k) = k_id k"
  by (simp add: keeps_ident_def key_ident_def)

lemma idents_upd_key [ident]: "keeps_ident f \<Longrightarrow> idents (upd_key kid f s) = idents s"
  by (simp add: idents_def upd_where_map_keep keeps_ident_def)

lemma idents_upd_client [ident]: "idents (upd_client cid f s) = idents s"
  by (simp add: idents_def)

lemma get_key_upd: "keeps_ident f \<Longrightarrow> get_key kid (upd_key kid f s) = map_option f (get_key kid s)"
  unfolding get_key_def upd_key_keys by (rule find_upd_where) (simp add: keeps_ident_id)

lemma get_key_upd_other:
  "keeps_ident f \<Longrightarrow> kid \<noteq> kid' \<Longrightarrow> get_key kid' (upd_key kid f s) = get_key kid' s"
  unfolding get_key_def upd_key_keys by (rule find_upd_where_other) (simp add: keeps_ident_id)

lemma get_key_id: "get_key kid s = Some k \<Longrightarrow> k_id k = kid \<and> k \<in> set (t_keys (cur s))"
  by (auto simp: get_key_def dest: find_Some_mem)

lemma get_key_ident:
  assumes "map key_ident (t_keys (cur s)) = map key_ident (t_keys (cur s'))"
  shows "map_option key_ident (get_key kid s) = map_option key_ident (get_key kid s')"
proof -
  have "map_option key_ident (find (\<lambda>k. (\<lambda>i. fst i = kid) (key_ident k)) (t_keys (cur s)))
      = map_option key_ident (find (\<lambda>k. (\<lambda>i. fst i = kid) (key_ident k)) (t_keys (cur s')))"
    by (rule find_image [OF assms])
  then show ?thesis by (simp add: get_key_def key_ident_def)
qed

lemma coherent_commit_or_rollback:
  assumes "coherent s" and "commit_or_rollback s = (ok, s')"
  shows "coherent s' \<and> map key_ident (t_keys (cur s')) = map key_ident (t_keys (cur s))"
  using assms(2) by (rule commit_or_rollback_cases) (use assms(1) in \<open>auto simp: coherent_def\<close>)

end
