(* ===== verification/Rate_Limit.thy ===== *)
theory Rate_Limit
  imports Models
begin

text \<open>
  \<open>TokenBucketRateLimiter\<close> of \<open>app/core/rate_limit.py\<close>: a bucket per key, refilled on use.
  Token counts and the monotonic clock are floats in the code and exact rationals here.
\<close>

record bucket =
  tokens :: rat
  last_refill :: rat

type_synonym buckets = "string \<Rightarrow> bucket option"

definition bucket_at :: "rat \<Rightarrow> rat \<Rightarrow> string \<Rightarrow> buckets \<Rightarrow> bucket" where
  "bucket_at now capacity key bs =
     (case bs key of None \<Rightarrow> \<lparr>tokens = capacity, last_refill = now\<rparr> | Some b \<Rightarrow> b)"

definition refilled :: "rat \<Rightarrow> rat \<Rightarrow> bucket \<Rightarrow> rat" where
  "refilled now capacity b =
     min capacity (tokens b + max (now - last_refill b) 0 * (capacity / 60))"

definition allow :: "rat \<Rightarrow> string \<Rightarrow> int \<Rightarrow> buckets \<Rightarrow> (bool \<times> int) \<times> buckets" where
  "allow now key rate_per_min bs =
     (if rate_per_min \<le> 0 then ((True, 0), bs)
      else
        (let capacity = of_int rate_per_min;
             refill_per_sec = capacity / 60;
             t = refilled now capacity (bucket_at now capacity key bs)
         in if 1 \<le> t then ((True, 0), bs(key \<mapsto> \<lparr>tokens = t - 1, last_refill = now\<rparr>))
            else ((False, max \<lceil>(1 - t) / refill_per_sec\<rceil> 1),
                  bs(key \<mapsto> \<lparr>tokens = t, last_refill = now\<rparr>))))"

lemma allow_unlimited: "rate \<le> 0 \<Longrightarrow> allow now key rate bs = ((True, 0), bs)"
  by (simp add: allow_def)

lemma allow_other: "key' \<noteq> key \<Longrightarrow> snd (allow now key rate bs) key' = bs key'"
  by (simp add: allow_def Let_def)

text \<open>What one call leaves in the bucket of its key.\<close>

definition level :: "rat \<Rightarrow> int \<Rightarrow> string \<Rightarrow> buckets \<Rightarrow> rat" where
  "level now rate key bs = refilled now (of_int rate) (bucket_at now (of_int rate) key bs)"

lemma allow_eq:
  assumes "0 < rate"
  shows "allow now key rate bs =
    ((1 \<le> level now rate key bs,
      if 1 \<le> level now rate key bs then 0
      else max \<lceil>(1 - level now rate key bs) / (of_int rate / 60)\<rceil> 1),
     bs(key \<mapsto> \<lparr>tokens = level now rate key bs - of_bool (1 \<le> level now rate key bs),
               last_refill = now\<rparr>))"
  using assms by (auto simp: allow_def level_def Let_def)

lemma level_le_capacity: "level now rate key bs \<le> of_int rate"
  by (simp add: level_def refilled_def)

lemma level_after:
  assumes "bs key = Some \<lparr>tokens = t, last_refill = u\<rparr>" and "u \<le> now"
  shows "level now rate key bs = min (of_int rate) (t + (now - u) * (of_int rate / 60))"
  using assms by (simp add: level_def refilled_def bucket_at_def)

text \<open>
  The announced delay: with no other call for the key, a call \<open>r\<close> seconds after the refusal is
  allowed, and when \<open>r > 1\<close> a call one whole second earlier is still refused.
\<close>

lemma retry_after_suffices:
  assumes "0 < rate" and "allow now key rate bs = ((False, r), bs')" and "now + of_int r \<le> later"
  shows "fst (fst (allow later key rate bs'))"
proof -
  let ?c = "of_int rate :: rat" and ?t = "level now rate key bs"
  have t: "?t < 1" and r: "r = max \<lceil>(1 - ?t) / (?c / 60)\<rceil> 1"
    and bs': "bs' key = Some \<lparr>tokens = ?t, last_refill = now\<rparr>"
    using assms(1,2) by (auto simp: allow_eq split: if_splits)
  have c: "0 < ?c" "1 \<le> ?c" using assms(1) by auto
  have "(1 - ?t) / (?c / 60) \<le> of_int r"
    unfolding r by (meson le_of_int_ceiling of_int_le_iff max.cobounded1 order_trans)
  then have "1 - ?t \<le> of_int r * (?c / 60)"
    using c by (simp add: field_simps)
  also have "\<dots> \<le> (later - now) * (?c / 60)"
    using assms(3) c by (intro mult_right_mono) auto
  finally have "1 \<le> ?t + (later - now) * (?c / 60)" by simp
  moreover have "0 \<le> r" using r by simp
  then have "now \<le> later" using assms(3) by (smt (verit) of_int_0_le_iff add_increasing2 dual_order.trans order_refl)
  ultimately have "1 \<le> level later rate key bs'"
    using c by (simp add: level_after [where bs = bs' and key = key, OF bs'])
  with assms(1) show ?thesis by (simp add: allow_eq)
qed

lemma retry_after_tight:
  assumes "0 < rate" and "allow now key rate bs = ((False, r), bs')" and "1 < r"
    and "now \<le> earlier" and "earlier \<le> now + of_int (r - 1)"
  shows "\<not> fst (fst (allow earlier key rate bs'))"
proof -
  let ?c = "of_int rate :: rat" and ?t = "level now rate key bs"
  have t: "?t < 1" and r: "r = max \<lceil>(1 - ?t) / (?c / 60)\<rceil> 1"
    and bs': "bs' key = Some \<lparr>tokens = ?t, last_refill = now\<rparr>"
    using assms(1,2) by (auto simp: allow_eq split: if_splits)
  have c: "0 < ?c" using assms(1) by auto
  have "r = \<lceil>(1 - ?t) / (?c / 60)\<rceil>" using r assms(3) by auto
  then have "of_int (r - 1) < (1 - ?t) / (?c / 60)"
    by (metis less_ceiling_iff zle_diff1_eq order_refl)
  then have "of_int (r - 1) * (?c / 60) < 1 - ?t"
    using c by (simp add: field_simps)
  moreover have "(earlier - now) * (?c / 60) \<le> of_int (r - 1) * (?c / 60)"
    using assms(5) c by (intro mult_right_mono) auto
  ultimately have "level earlier rate key bs' < 1"
    by (simp add: level_after [where bs = bs' and key = key, OF bs' assms(4)])
  with assms(1) show ?thesis by (simp add: allow_eq)
qed

subsection \<open>A run of calls\<close>

text \<open>
  Calls \<open>(time, key)\<close> for keys whose rates are \<open>rate\<close>; \<open>granted\<close> counts the calls for one key
  that are allowed.
\<close>

fun granted :: "(string \<Rightarrow> int) \<Rightarrow> string \<Rightarrow> (rat \<times> string) list \<Rightarrow> buckets \<Rightarrow> nat" where
  "granted rate key [] bs = 0"
| "granted rate key ((t, k) # calls) bs =
     (let (r, bs') = allow t k (rate k) bs
      in (if k = key \<and> fst r then 1 else 0) + granted rate key calls bs')"

lemma level_mono_time:
  assumes "0 < rate" and "bs key = Some b" and "last_refill b \<le> now" and "now \<le> later"
  shows "level later rate key bs \<le> level now rate key bs + (later - now) * (of_int rate / 60)"
proof -
  let ?c = "of_int rate :: rat"
  have "(later - last_refill b) * (?c / 60)
      = (now - last_refill b) * (?c / 60) + (later - now) * (?c / 60)"
    by (simp flip: distrib_right)
  moreover have "0 \<le> (later - now) * (?c / 60)" using assms by simp
  moreover have "level later rate key bs = min ?c (tokens b + (later - last_refill b) * (?c / 60))"
    "level now rate key bs = min ?c (tokens b + (now - last_refill b) * (?c / 60))"
    using assms by (auto simp: level_def refilled_def bucket_at_def)
  ultimately show ?thesis by linarith
qed

text \<open>
  From a state whose bucket for \<open>key\<close> was refilled at or before the first call, the calls granted up
  to time \<open>fin\<close> are at most what the bucket holds plus what flows in.
\<close>

lemma granted_le:
  assumes "0 < rate key" and "sorted (now # map fst calls)" and "\<forall>t \<in> fst ` set calls. t \<le> fin"
    and "bs key = Some b" and "last_refill b \<le> now" and "0 \<le> tokens b" and "now \<le> fin"
  shows "of_nat (granted rate key calls bs)
      \<le> level now (rate key) key bs + (fin - now) * (of_int (rate key) / 60)"
  using assms
proof (induction calls arbitrary: now bs b)
  case Nil
  then have "0 \<le> level now (rate key) key bs"
    by (auto simp: level_def refilled_def bucket_at_def)
  moreover have "0 \<le> (fin - now) * (of_int (rate key) / 60)" using Nil by simp
  ultimately show ?case by simp
next
  case (Cons call calls)
  obtain t k where call: "call = (t, k)" by (cases call)
  let ?c = "of_int (rate key) / 60 :: rat"
  have t: "now \<le> t" "t \<le> fin" "sorted (t # map fst calls)" "\<forall>u \<in> fst ` set calls. u \<le> fin"
    using Cons.prems by (auto simp: call)
  have lev: "level t (rate key) key bs \<le> level now (rate key) key bs + (t - now) * ?c"
    using level_mono_time Cons.prems t(1) by blast
  show ?case
  proof (cases "k = key")
    case False
    have same: "snd (allow t k (rate k) bs) key = bs key" using False by (simp add: allow_other)
    have "of_nat (granted rate key calls (snd (allow t k (rate k) bs)))
        \<le> level t (rate key) key (snd (allow t k (rate k) bs)) + (fin - t) * ?c"
      using Cons.IH [of t "snd (allow t k (rate k) bs)" b] Cons.prems t same by auto
    moreover have "level t (rate key) key (snd (allow t k (rate k) bs)) = level t (rate key) key bs"
      using same by (simp add: level_def bucket_at_def)
    moreover have "(t - now) * ?c + (fin - t) * ?c = (fin - now) * ?c" by (simp flip: distrib_right)
    ultimately have "of_nat (granted rate key calls (snd (allow t k (rate k) bs)))
        \<le> level now (rate key) key bs + (fin - now) * ?c"
      using lev by linarith
    with False show ?thesis by (cases "allow t k (rate k) bs") (simp add: call)
  next
    case True
    let ?l = "level t (rate key) key bs"
    let ?b' = "\<lparr>tokens = ?l - of_bool (1 \<le> ?l), last_refill = t\<rparr>"
    define bs' where "bs' = bs(key \<mapsto> ?b')"
    have al: "allow t key (rate key) bs = ((1 \<le> ?l, if 1 \<le> ?l then 0
      else max \<lceil>(1 - ?l) / (of_int (rate key) / 60)\<rceil> 1), bs')"
      unfolding bs'_def using Cons.prems(1) by (rule allow_eq)
    have nonneg: "0 \<le> ?l - of_bool (1 \<le> ?l)"
      using Cons.prems t by (auto simp: level_def refilled_def bucket_at_def)
    have l': "level t (rate key) key bs' \<le> ?l - of_bool (1 \<le> ?l)"
      by (simp add: bs'_def level_def refilled_def bucket_at_def)
    have b': "bs' key = Some ?b'" by (simp add: bs'_def)
    have "of_nat (granted rate key calls bs') \<le> level t (rate key) key bs' + (fin - t) * ?c"
      by (rule Cons.IH [where bs = bs' and now = t and b = ?b', OF Cons.prems(1) t(3,4) b' _ _ t(2)]) (use nonneg in simp_all)
    moreover have "(t - now) * ?c + (fin - t) * ?c = (fin - now) * ?c" by (simp flip: distrib_right)
    ultimately have "of_nat (granted rate key calls bs') + of_bool (1 \<le> ?l)
        \<le> level now (rate key) key bs + (fin - now) * ?c"
      using l' lev by linarith
    then show ?thesis by (cases "1 \<le> ?l") (simp_all add: call True al add.commute)
  qed
qed

end
