(* ===== verification/Concurrency.thy ===== *)
theory Concurrency
  imports Rate_Limit
begin

text \<open>
  \<open>ConcurrencyManager\<close> and \<open>Lease\<close> of \<open>app/core/concurrency.py\<close>. A lease carries what its
  \<open>release_fn\<close> does: nothing, or giving back one slot of a key.
\<close>

record cstate =
  cn_current :: int
  cn_maximum :: int

type_synonym cstates = "string \<Rightarrow> cstate option"

datatype lease = Noop_lease | Slot_lease string | Token_lease string string

definition try_acquire :: "string \<Rightarrow> int \<Rightarrow> cstates \<Rightarrow> lease option \<times> cstates" where
  "try_acquire key maximum st =
     (if maximum \<le> 0 then (Some Noop_lease, st)
      else
        (let x = (case st key of None \<Rightarrow> \<lparr>cn_current = 0, cn_maximum = maximum\<rparr> | Some x \<Rightarrow> x);
             x1 = x\<lparr>cn_maximum := maximum\<rparr>
         in if cn_maximum x1 \<le> cn_current x1 then (None, st(key \<mapsto> x1))
            else (Some (Slot_lease key), st(key \<mapsto> x1\<lparr>cn_current := cn_current x1 + 1\<rparr>))))"

definition release_slot :: "string \<Rightarrow> cstates \<Rightarrow> cstates" where
  "release_slot key st =
     (case st key of None \<Rightarrow> st
      | Some x \<Rightarrow> st(key \<mapsto> x\<lparr>cn_current := max (cn_current x - 1) 0\<rparr>))"

definition current :: "string \<Rightarrow> cstates \<Rightarrow> int" where
  "current key st = (case st key of None \<Rightarrow> 0 | Some x \<Rightarrow> cn_current x)"

fun run_release :: "lease \<Rightarrow> cstates \<Rightarrow> cstates" where
  "run_release Noop_lease st = st"
| "run_release (Slot_lease key) st = release_slot key st"
| "run_release (Token_lease key token) st = st"

record lease_obj =
  lo_lease :: lease
  lo_released :: bool

definition lease_release :: "lease_obj \<Rightarrow> cstates \<Rightarrow> lease_obj \<times> cstates" where
  "lease_release lo st =
     (if lo_released lo then (lo, st)
      else (lo\<lparr>lo_released := True\<rparr>, run_release (lo_lease lo) st))"

lemma current_release:
  "current k (release_slot key st) =
     (if k = key \<and> st key \<noteq> None then max (current key st - 1) 0 else current k st)"
  by (auto simp: current_def release_slot_def split: option.splits)

lemma try_acquire_granted:
  assumes "try_acquire key m st = (Some l, st')"
  shows "l = Noop_lease \<and> m \<le> 0 \<and> st' = st \<or>
    l = Slot_lease key \<and> current key st < m \<and> st' key \<noteq> None \<and>
    (\<forall>k. current k st' = current k st + of_bool (k = key))"
  using assms by (auto simp: try_acquire_def current_def Let_def split: if_splits option.splits)

lemma try_acquire_refused:
  assumes "try_acquire key m st = (None, st')"
  shows "0 < m \<and> m \<le> current key st \<and> (\<forall>k. current k st' = current k st)"
  using assms by (auto simp: try_acquire_def current_def Let_def split: if_splits option.splits)

lemma release_after_acquire:
  assumes "try_acquire key m st = (Some l, st')"
  shows "nat (current k (run_release l st')) = nat (current k st)"
  using try_acquire_granted [OF assms] by (auto simp: current_release)

subsection \<open>Any interleaving of acquisitions and releases\<close>

text \<open>
  The callers hold lease objects and release them in any order, more than once if they like.
  \<open>cy_hi\<close> records the largest limit a key was ever acquired with.
\<close>

record conc_sys =
  cy_states :: cstates
  cy_leases :: "lease_obj list"
  cy_hi :: "string \<Rightarrow> int"

definition conc_init :: conc_sys where
  "conc_init = \<lparr>cy_states = Map.empty, cy_leases = [], cy_hi = (\<lambda>_. 0)\<rparr>"

inductive conc_step :: "conc_sys \<Rightarrow> conc_sys \<Rightarrow> bool" where
  granted: "try_acquire key m (cy_states s) = (Some l, st') \<Longrightarrow>
    conc_step s (s\<lparr>cy_states := st', cy_leases := cy_leases s @ [\<lparr>lo_lease = l, lo_released = False\<rparr>],
                   cy_hi := (cy_hi s)(key := max (cy_hi s key) m)\<rparr>)"
| refused: "try_acquire key m (cy_states s) = (None, st') \<Longrightarrow>
    conc_step s (s\<lparr>cy_states := st'\<rparr>)"
| released: "i < length (cy_leases s) \<Longrightarrow> lease_release (cy_leases s ! i) (cy_states s) = (lo', st') \<Longrightarrow>
    conc_step s (s\<lparr>cy_states := st', cy_leases := (cy_leases s)[i := lo']\<rparr>)"

inductive conc_reachable :: "conc_sys \<Rightarrow> bool" where
  init: "conc_reachable conc_init"
| step: "conc_reachable s \<Longrightarrow> conc_step s s' \<Longrightarrow> conc_reachable s'"

definition holds :: "string \<Rightarrow> lease_obj \<Rightarrow> bool" where
  "holds key lo \<longleftrightarrow> \<not> lo_released lo \<and> lo_lease lo = Slot_lease key"

definition outstanding :: "string \<Rightarrow> conc_sys \<Rightarrow> nat" where
  "outstanding key s = length (filter (holds key) (cy_leases s))"

definition conc_inv :: "conc_sys \<Rightarrow> bool" where
  "conc_inv s \<longleftrightarrow> (\<forall>key. current key (cy_states s) = int (outstanding key s) \<and>
      int (outstanding key s) \<le> max 0 (cy_hi s key) \<and>
      (0 < outstanding key s \<longrightarrow> cy_states s key \<noteq> None))"

lemma length_filter_update:
  assumes "i < length xs"
  shows "length (filter P (xs[i := y])) + of_bool (P (xs ! i)) = length (filter P xs) + of_bool (P y)"
  using assms
proof (induction xs arbitrary: i)
  case Nil
  then show ?case by simp
next
  case (Cons x xs)
  then show ?case by (cases i) auto
qed

lemma conc_inv_init: "conc_inv conc_init"
  by (simp add: conc_inv_def conc_init_def outstanding_def current_def)

lemma outstanding_grant:
  "outstanding k (s\<lparr>cy_states := st', cy_leases := cy_leases s @ [\<lparr>lo_lease = l, lo_released = False\<rparr>],
      cy_hi := hi\<rparr>) = outstanding k s + of_bool (l = Slot_lease k)"
  by (simp add: outstanding_def holds_def)

lemma conc_inv_granted:
  assumes "conc_inv s" and "try_acquire key m (cy_states s) = (Some l, st')"
  shows "conc_inv (s\<lparr>cy_states := st', cy_leases := cy_leases s @ [\<lparr>lo_lease = l, lo_released = False\<rparr>],
                   cy_hi := (cy_hi s)(key := max (cy_hi s key) m)\<rparr>)" (is "conc_inv ?s'")
  unfolding conc_inv_def
proof
  fix k
  have inv: "current k (cy_states s) = int (outstanding k s)"
    "int (outstanding k s) \<le> max 0 (cy_hi s k)"
    "0 < outstanding k s \<longrightarrow> cy_states s k \<noteq> None"
    using assms(1) by (auto simp: conc_inv_def)
  have hi: "max 0 (cy_hi s k) \<le> max 0 (cy_hi ?s' k)" "k = key \<Longrightarrow> m \<le> cy_hi ?s' k" by auto
  have kept: "st' k \<noteq> None" if "cy_states s k \<noteq> None"
    using assms(2) that by (auto simp: try_acquire_def Let_def split: if_splits option.splits)
  show "current k (cy_states ?s') = int (outstanding k ?s') \<and>
      int (outstanding k ?s') \<le> max 0 (cy_hi ?s' k) \<and>
      (0 < outstanding k ?s' \<longrightarrow> cy_states ?s' k \<noteq> None)"
    using try_acquire_granted [OF assms(2)] inv hi kept
    unfolding outstanding_grant by (cases "k = key") auto
qed

lemma conc_inv_refused:
  assumes "conc_inv s" and "try_acquire key m (cy_states s) = (None, st')"
  shows "conc_inv (s\<lparr>cy_states := st'\<rparr>)"
proof -
  have "st' k \<noteq> None" if "cy_states s k \<noteq> None" for k
    using assms(2) that by (auto simp: try_acquire_def Let_def split: if_splits option.splits)
  then show ?thesis
    using assms(1) try_acquire_refused [OF assms(2)] by (auto simp: conc_inv_def outstanding_def)
qed

lemma conc_inv_released:
  assumes "conc_inv s" and i: "i < length (cy_leases s)"
    and rel: "lease_release (cy_leases s ! i) (cy_states s) = (lo', st')"
  shows "conc_inv (s\<lparr>cy_states := st', cy_leases := (cy_leases s)[i := lo']\<rparr>)" (is "conc_inv ?s'")
proof (cases "lo_released (cy_leases s ! i)")
  case True
  with rel have "lo' = cy_leases s ! i" "st' = cy_states s" by (auto simp: lease_release_def)
  then have "?s' = s" by simp
  with assms(1) show ?thesis by simp
next
  case False
  let ?lo = "cy_leases s ! i"
  from False rel have lo': "lo' = ?lo\<lparr>lo_released := True\<rparr>" "st' = run_release (lo_lease ?lo) (cy_states s)"
    by (auto simp: lease_release_def)
  have cnt: "outstanding k ?s' + of_bool (holds k ?lo) = outstanding k s" for k
    using length_filter_update [OF i, of "holds k" lo'] lo'(1) by (simp add: outstanding_def holds_def)
  show ?thesis
    unfolding conc_inv_def
  proof
    fix k
    have inv: "current k (cy_states s) = int (outstanding k s)"
      "int (outstanding k s) \<le> max 0 (cy_hi s k)"
      "0 < outstanding k s \<longrightarrow> cy_states s k \<noteq> None"
      using assms(1) by (auto simp: conc_inv_def)
    have pos: "0 < outstanding k s" if "holds k ?lo" using cnt [of k] that by simp
    have "holds k ?lo \<longleftrightarrow> lo_lease ?lo = Slot_lease k" using False by (simp add: holds_def)
    moreover have "cy_states s k \<noteq> None \<Longrightarrow> st' k \<noteq> None"
      unfolding lo'(2) by (cases "lo_lease ?lo") (auto simp: release_slot_def split: option.splits)
    moreover have "current k st' = current k (cy_states s) - of_bool (holds k ?lo)"
      using pos inv calculation(1) unfolding lo'(2)
      by (cases "lo_lease ?lo") (auto simp: current_release)
    ultimately show "current k (cy_states ?s') = int (outstanding k ?s') \<and>
      int (outstanding k ?s') \<le> max 0 (cy_hi ?s' k) \<and>
      (0 < outstanding k ?s' \<longrightarrow> cy_states ?s' k \<noteq> None)"
      using inv cnt [of k] by auto
  qed
qed

lemma conc_step_inv: "conc_step s s' \<Longrightarrow> conc_inv s \<Longrightarrow> conc_inv s'"
  by (induction rule: conc_step.induct)
     (simp_all add: conc_inv_granted conc_inv_refused conc_inv_released)

lemma conc_reachable_inv: "conc_reachable s \<Longrightarrow> conc_inv s"
  by (induction rule: conc_reachable.induct) (auto intro: conc_inv_init conc_step_inv)

end
