(* ===== verification/Clock.thy ===== *)
theory Clock
  imports Models
begin

text \<open>
  \<open>app/core/time.py\<close>. \<open>zone name now\<close> is the offset (in microseconds) that Python's \<open>zoneinfo\<close>
  gives for a zone at an instant: the time zone database is a parameter. Arithmetic between two
  datetimes that share a zone ignores changes of the offset, as in Python.
\<close>

type_synonym zone_db = "string \<Rightarrow> instant \<Rightarrow> int"

definition tz_offset :: "zone_db \<Rightarrow> string \<Rightarrow> instant \<Rightarrow> int" where
  "tz_offset zone tz_name now = (if upper tz_name = ''UTC'' then 0 else zone tz_name now)"

definition today_in_timezone :: "zone_db \<Rightarrow> string \<Rightarrow> instant \<Rightarrow> date" where
  "today_in_timezone zone tz_name now = (now + tz_offset zone tz_name now) div day_usec"

definition seconds_until_next_midnight :: "zone_db \<Rightarrow> string \<Rightarrow> instant \<Rightarrow> int" where
  "seconds_until_next_midnight zone tz_name now =
     (let local = now + tz_offset zone tz_name now;
          tomorrow = (local + day_usec) div day_usec;
          next_midnight = tomorrow * day_usec
      in max (trunc_seconds (next_midnight - local)) 0)"

lemma div_unique_day:
  fixes x q :: int
  assumes "q * day_usec \<le> x" and "x < (q + 1) * day_usec"
  shows "x div day_usec = q"
proof -
  have "(x - q * day_usec) div day_usec = 0"
    using assms by (intro div_pos_pos_trivial) simp_all
  then show ?thesis using div_mult_self1 [of day_usec "x - q * day_usec" q] by simp
qed

lemma next_midnight_gap:
  fixes local :: int
  shows "0 < (local + day_usec) div day_usec * day_usec - local"
    and "(local + day_usec) div day_usec * day_usec - local \<le> day_usec"
proof -
  have "(local + day_usec) div day_usec = local div day_usec + 1" by simp
  moreover have "local = local div day_usec * day_usec + local mod day_usec" by simp
  moreover have "0 \<le> local mod day_usec" "local mod day_usec < day_usec" by simp_all
  ultimately show "0 < (local + day_usec) div day_usec * day_usec - local"
    "(local + day_usec) div day_usec * day_usec - local \<le> day_usec"
    by (simp_all only: distrib_right)
qed

lemma seconds_until_bounds:
  "0 \<le> seconds_until_next_midnight zone tz now" "seconds_until_next_midnight zone tz now \<le> 86400"
proof -
  let ?l = "now + tz_offset zone tz now"
  let ?g = "(?l + day_usec) div day_usec * day_usec - ?l"
  show "0 \<le> seconds_until_next_midnight zone tz now"
    by (simp add: seconds_until_next_midnight_def Let_def)
  have "seconds (trunc_seconds ?g) \<le> ?g"
    using next_midnight_gap(1) [of ?l] by (intro trunc_seconds_bounds(1)) simp
  then have "trunc_seconds ?g \<le> 86400"
    using next_midnight_gap(2) [of ?l] by (simp add: seconds_def)
  then show "seconds_until_next_midnight zone tz now \<le> 86400"
    by (simp add: seconds_until_next_midnight_def Let_def)
qed

text \<open>
  While the zone's offset stays the same, waiting the announced number of seconds and one more
  lands in the next day, and waiting less than the announced number does not.
\<close>

lemma seconds_until_reaches_tomorrow:
  assumes "tz_offset zone tz later = tz_offset zone tz now"
    and "later = now + seconds (seconds_until_next_midnight zone tz now) + usec"
  shows "today_in_timezone zone tz later = today_in_timezone zone tz now + 1"
proof -
  let ?l = "now + tz_offset zone tz now"
  let ?g = "(?l + day_usec) div day_usec * day_usec - ?l"
  have g: "0 < ?g" "?g \<le> day_usec" using next_midnight_gap [of ?l] by simp_all
  have s: "seconds_until_next_midnight zone tz now = trunc_seconds ?g"
    using trunc_seconds_nonneg [of ?g] g by (simp add: seconds_until_next_midnight_def Let_def)
  have b: "seconds (trunc_seconds ?g) \<le> ?g" "?g < seconds (trunc_seconds ?g) + usec"
    using g trunc_seconds_bounds [of ?g] by simp_all
  have midnight: "?l + ?g = (?l div day_usec + 1) * day_usec" by simp
  have "later + tz_offset zone tz later = ?l + ?g + (seconds (trunc_seconds ?g) + usec - ?g)"
    using assms s by simp
  then have "later + tz_offset zone tz later
      = (seconds (trunc_seconds ?g) + usec - ?g) + (?l div day_usec + 1) * day_usec"
    using midnight by linarith
  moreover have "(seconds (trunc_seconds ?g) + usec - ?g) div day_usec = 0"
    using b by (intro div_pos_pos_trivial) linarith+
  ultimately show ?thesis by (simp add: today_in_timezone_def)
qed

lemma seconds_until_not_before:
  assumes "tz_offset zone tz later = tz_offset zone tz now"
    and "now \<le> later" and "later < now + seconds (seconds_until_next_midnight zone tz now)"
  shows "today_in_timezone zone tz later = today_in_timezone zone tz now"
proof -
  let ?l = "now + tz_offset zone tz now"
  let ?g = "(?l + day_usec) div day_usec * day_usec - ?l"
  have g: "0 < ?g" "?g \<le> day_usec" using next_midnight_gap [of ?l] by simp_all
  have s: "seconds_until_next_midnight zone tz now = trunc_seconds ?g"
    using trunc_seconds_nonneg [of ?g] g by (simp add: seconds_until_next_midnight_def Let_def)
  have b: "seconds (trunc_seconds ?g) \<le> ?g" using g trunc_seconds_bounds(1) [of ?g] by simp
  have "later + tz_offset zone tz later < (?l div day_usec + 1) * day_usec"
    using assms s b by simp
  moreover have "?l div day_usec * day_usec \<le> later + tz_offset zone tz later"
  proof -
    have "?l div day_usec * day_usec \<le> ?l" by simp
    with assms show ?thesis by linarith
  qed
  ultimately have "(later + tz_offset zone tz later) div day_usec = ?l div day_usec"
    by (intro div_unique_day) simp_all
  then show ?thesis by (simp add: today_in_timezone_def)
qed

end
