(* ===== verification/Base64.thy ===== *)
theory Base64
  imports Pystr
begin

text \<open>
  Python's \<open>base64.b64encode\<close> and \<open>base64.b64decode\<close> (without validation) on byte strings, with
  their round trip. The idempotency store keeps response bodies this way and the master key may
  be given this way.
\<close>

definition b64_char :: "nat \<Rightarrow> char" where
  "b64_char v =
     (if v < 26 then char_of (65 + v)
      else if v < 52 then char_of (71 + v)
      else if v < 62 then char_of (v - 4)
      else if v = 62 then CHR ''+'' else CHR ''/'')"

definition b64_val :: "char \<Rightarrow> nat option" where
  "b64_val c = (let n = (of_char c :: nat) in
     if 65 \<le> n \<and> n \<le> 90 then Some (n - 65)
     else if 97 \<le> n \<and> n \<le> 122 then Some (n - 71)
     else if 48 \<le> n \<and> n \<le> 57 then Some (n + 4)
     else if n = 43 then Some 62
     else if n = 47 then Some 63
     else None)"

fun b64encode :: "bytes \<Rightarrow> string" where
  "b64encode [] = []"
| "b64encode [a] =
     (let x = of_char a in [b64_char (x div 4), b64_char (x mod 4 * 16), CHR ''='', CHR ''=''])"
| "b64encode [a, b] =
     (let x = of_char a; y = of_char b in
      [b64_char (x div 4), b64_char (x mod 4 * 16 + y div 16), b64_char (y mod 16 * 4), CHR ''=''])"
| "b64encode (a # b # c # s) =
     (let x = of_char a; y = of_char b; z = of_char c in
      [b64_char (x div 4), b64_char (x mod 4 * 16 + y div 16),
       b64_char (y mod 16 * 4 + z div 64), b64_char (z mod 64)] @ b64encode s)"

text \<open>
  The decoder of \<open>binascii.a2b_base64\<close>: characters outside the alphabet are skipped, \<open>pos\<close> counts the
  characters of the current group, \<open>left\<close> the bits carried over, \<open>pads\<close> the padding seen in it.
  A group left incomplete is an error (\<open>None\<close>).
\<close>

fun b64_scan :: "nat \<Rightarrow> nat \<Rightarrow> nat \<Rightarrow> string \<Rightarrow> bytes option" where
  "b64_scan pos left pads [] = (if pos = 0 then Some [] else None)"
| "b64_scan pos left pads (c # s) =
     (if c = CHR ''='' then
        (if 2 \<le> pos \<and> 4 \<le> pos + (pads + 1) then Some []
         else b64_scan pos left (if 2 \<le> pos then pads + 1 else pads) s)
      else
        (case b64_val c of
           None \<Rightarrow> b64_scan pos left pads s
         | Some v \<Rightarrow>
             if pos = 0 then b64_scan 1 v 0 s
             else if pos = 1 then
               map_option ((#) (char_of (left * 4 + v div 16))) (b64_scan 2 (v mod 16) 0 s)
             else if pos = 2 then
               map_option ((#) (char_of (left * 16 + v div 4))) (b64_scan 3 (v mod 4) 0 s)
             else
               map_option ((#) (char_of (left * 64 + v))) (b64_scan 0 0 0 s)))"

definition b64decode :: "string \<Rightarrow> bytes option" where
  "b64decode s = b64_scan 0 0 0 s"

definition urlsafe_b64decode :: "string \<Rightarrow> bytes option" where
  "urlsafe_b64decode s =
     b64decode (map (\<lambda>c. if c = CHR ''-'' then CHR ''+'' else if c = CHR ''_'' then CHR ''/'' else c) s)"

lemma b64_val_char: "v < 64 \<Longrightarrow> b64_val (b64_char v) = Some v"
  by (auto simp: b64_val_def b64_char_def Let_def)

lemma b64_char_not_pad: "v < 64 \<Longrightarrow> b64_char v \<noteq> CHR ''=''"
  using b64_val_char [of v] by (auto simp: b64_val_def)

lemma b64_scan_char:
  assumes "v < 64"
  shows "b64_scan pos left pads (b64_char v # s) =
    (if pos = 0 then b64_scan 1 v 0 s
     else if pos = 1 then map_option ((#) (char_of (left * 4 + v div 16))) (b64_scan 2 (v mod 16) 0 s)
     else if pos = 2 then map_option ((#) (char_of (left * 16 + v div 4))) (b64_scan 3 (v mod 4) 0 s)
     else map_option ((#) (char_of (left * 64 + v))) (b64_scan 0 0 0 s))"
  using assms by (simp add: b64_val_char b64_char_not_pad)

lemma of_char_lt: "(of_char c :: nat) < 256"
  by (rule nat_of_char_less_256)

lemma char_recombine:
  fixes n :: nat
  shows "of_char c div 4 * 4 + of_char c mod 4 = (of_char c :: nat)"
    "of_char c div 16 * 16 + of_char c mod 16 = (of_char c :: nat)"
    "of_char c div 64 * 64 + of_char c mod 64 = (of_char c :: nat)"
  by simp_all

lemma b64_group:
  fixes x y z :: nat
  assumes "x < 256" "y < 256" "z < 256"
  shows "x div 4 < 64" "x mod 4 * 16 + y div 16 < 64" "y mod 16 * 4 + z div 64 < 64" "z mod 64 < 64"
    and "x div 4 * 4 + (x mod 4 * 16 + y div 16) div 16 = x"
    and "(x mod 4 * 16 + y div 16) mod 16 * 16 + (y mod 16 * 4 + z div 64) div 4 = y"
    and "(y mod 16 * 4 + z div 64) mod 4 * 64 + z mod 64 = z"
proof -
  have y16: "y div 16 < 16" and z64: "z div 64 < 4" using assms by auto
  have x4: "x mod 4 < 4" and y4: "y mod 16 < 16" by auto
  show "x div 4 < 64" "z mod 64 < 64" using assms by auto
  show "x mod 4 * 16 + y div 16 < 64" "y mod 16 * 4 + z div 64 < 64" using y16 z64 x4 y4 by linarith+
  have "(x mod 4 * 16 + y div 16) div 16 = x mod 4" "(x mod 4 * 16 + y div 16) mod 16 = y div 16"
    using y16 by simp_all
  moreover have "(y mod 16 * 4 + z div 64) div 4 = y mod 16" "(y mod 16 * 4 + z div 64) mod 4 = z div 64"
    using z64 by simp_all
  ultimately show "x div 4 * 4 + (x mod 4 * 16 + y div 16) div 16 = x"
    "(x mod 4 * 16 + y div 16) mod 16 * 16 + (y mod 16 * 4 + z div 64) div 4 = y"
    "(y mod 16 * 4 + z div 64) mod 4 * 64 + z mod 64 = z" by simp_all
qed

theorem b64decode_encode: "b64decode (b64encode s) = Some s"
proof (induction s rule: b64encode.induct)
  case 1
  then show ?case by (simp add: b64decode_def)
next
  case (2 a)
  note g = b64_group [OF of_char_lt [of a] of_char_lt [of "CHR 0x00"] of_char_lt [of "CHR 0x00"]]
  from g show ?case by (simp add: b64decode_def Let_def b64_scan_char del: b64_scan.simps(2))
      (simp add: b64_scan_char)
next
  case (3 a b)
  note g = b64_group [OF of_char_lt [of a] of_char_lt [of b] of_char_lt [of "CHR 0x00"]]
  from g show ?case by (simp add: b64decode_def Let_def b64_scan_char del: b64_scan.simps(2))
      (simp add: b64_scan_char)
next
  case (4 a b c s)
  note g = b64_group [OF of_char_lt [of a] of_char_lt [of b] of_char_lt [of c]]
  from g 4 show ?case
    by (simp add: b64decode_def Let_def b64_scan_char del: b64_scan.simps(2))
qed

end
