(* ===== verification/Security.thy ===== *)
theory Security
  imports Models Base64
begin

text \<open>
  \<open>app/core/security.py\<close>. The ciphers, hashes and UTF-8 decoding are parameters, gathered in a
  record: \<open>None\<close> from \<open>cr_aes_decrypt\<close> is \<open>InvalidTag\<close> or \<open>ValueError\<close>.
\<close>

record crypto =
  cr_aes_encrypt :: "bytes \<Rightarrow> bytes \<Rightarrow> bytes \<Rightarrow> bytes \<Rightarrow> bytes"
  cr_aes_decrypt :: "bytes \<Rightarrow> bytes \<Rightarrow> bytes \<Rightarrow> bytes \<Rightarrow> bytes option"
  cr_hmac_hex :: "bytes \<Rightarrow> string \<Rightarrow> string"
  cr_sha256 :: "bytes \<Rightarrow> bytes"
  cr_sha256_hex :: "bytes \<Rightarrow> string"
  cr_utf8_decode :: "bytes \<Rightarrow> string option"

definition aad_api_key :: bytes where "aad_api_key = ''fcam:api_key:v1''"
definition aad_account_password :: bytes where "aad_account_password = ''fcam:account_password:v1''"

definition derive_master_key_bytes :: "crypto \<Rightarrow> string \<Rightarrow> bytes" where
  "derive_master_key_bytes cr master_key =
     (case urlsafe_b64decode master_key of
        Some raw \<Rightarrow> if length raw = 32 then raw else cr_sha256 cr master_key
      | None \<Rightarrow> cr_sha256 cr master_key)"

definition encrypt_with :: "bytes \<Rightarrow> crypto \<Rightarrow> bytes \<Rightarrow> bytes \<Rightarrow> string \<Rightarrow> bytes" where
  "encrypt_with aad cr master_key nonce plaintext =
     nonce @ cr_aes_encrypt cr master_key nonce plaintext aad"

definition decrypt_with :: "bytes \<Rightarrow> crypto \<Rightarrow> bytes \<Rightarrow> bytes \<Rightarrow> string option" where
  "decrypt_with aad cr master_key blob =
     (if length blob < 12 then None
      else (case cr_aes_decrypt cr master_key (take 12 blob) (drop 12 blob) aad of
              None \<Rightarrow> None
            | Some plaintext \<Rightarrow> cr_utf8_decode cr plaintext))"

definition encrypt_api_key :: "crypto \<Rightarrow> bytes \<Rightarrow> bytes \<Rightarrow> string \<Rightarrow> bytes" where
  "encrypt_api_key = encrypt_with aad_api_key"

definition decrypt_api_key :: "crypto \<Rightarrow> bytes \<Rightarrow> bytes \<Rightarrow> string option" where
  "decrypt_api_key = decrypt_with aad_api_key"

definition encrypt_account_password :: "crypto \<Rightarrow> bytes \<Rightarrow> bytes \<Rightarrow> string \<Rightarrow> bytes" where
  "encrypt_account_password = encrypt_with aad_account_password"

definition decrypt_account_password :: "crypto \<Rightarrow> bytes \<Rightarrow> bytes \<Rightarrow> string option" where
  "decrypt_account_password = decrypt_with aad_account_password"

definition mask_api_key_last4 :: "string \<Rightarrow> string" where
  "mask_api_key_last4 api_key_last4 =
     (let last4 = drop (length api_key_last4 - 4) api_key_last4 in ''fc-****'' @ last4)"

text \<open>
  What AES-GCM promises: decryption with the key, nonce and associated data of the encryption gives
  the plaintext back. Under it an encrypted key decrypts to itself.
\<close>

definition aes_sound :: "crypto \<Rightarrow> bool" where
  "aes_sound cr \<longleftrightarrow> (\<forall>key nonce p aad. length nonce = 12 \<longrightarrow>
     cr_aes_decrypt cr key nonce (cr_aes_encrypt cr key nonce p aad) aad = Some p)"

lemma decrypt_encrypt_with:
  assumes "aes_sound cr" and "length nonce = 12" and "cr_utf8_decode cr p = Some p"
  shows "decrypt_with aad cr mk (encrypt_with aad cr mk nonce p) = Some p"
  using assms by (simp add: decrypt_with_def encrypt_with_def aes_sound_def)

lemma mask_last4_length: "length (mask_api_key_last4 s) \<le> 11"
  by (simp add: mask_api_key_last4_def Let_def)

lemma derive_master_key_length:
  "(\<And>b. length (cr_sha256 cr b) = 32) \<Longrightarrow> length (derive_master_key_bytes cr mk) = 32"
  by (simp add: derive_master_key_bytes_def split: option.splits)

end
