(* ===== verification/App_State.thy ===== *)
theory App_State
  imports Concurrency Clock Security
begin

text \<open>
  The state the data plane works on: one request's session, the key pool's rotation indexes, the
  limiter and concurrency manager of the key scope (behind the interface \<open>backend\<close>), the
  forwarder's failure counters, the two clocks, the requests sent upstream so far and the metrics.
  Everything outside the repository (time zones, ciphers, the upstream HTTP service) is in \<open>env\<close>.
\<close>

subsection \<open>The interface of the state backend\<close>

text \<open>
  Both clocks are passed to every call: the wall clock (\<open>time.time\<close>) and the monotonic clock
  (\<open>time.monotonic\<close>). A call may raise the application's exception, as the Redis backend does.
\<close>

type_synonym clk = "instant \<times> rat"

record 'b backend =
  be_allow :: "clk \<Rightarrow> string \<Rightarrow> int \<Rightarrow> 'b \<Rightarrow> (fcam_error + bool \<times> int) \<times> 'b"
  be_acquire :: "clk \<Rightarrow> string \<Rightarrow> int \<Rightarrow> 'b \<Rightarrow> (fcam_error + lease option) \<times> 'b"
  be_release :: "clk \<Rightarrow> lease \<Rightarrow> 'b \<Rightarrow> 'b"
  be_set_cooldown :: "clk \<Rightarrow> int \<Rightarrow> int \<Rightarrow> 'b \<Rightarrow> (fcam_error + unit) \<times> 'b"
  be_remaining :: "clk \<Rightarrow> int \<Rightarrow> 'b \<Rightarrow> (fcam_error + int option) \<times> 'b"
  be_current :: "clk \<Rightarrow> string \<Rightarrow> 'b \<Rightarrow> int \<times> 'b"

text \<open>
  What the forwarder and the governance rely on: \<open>held t b key\<close> is the number of leases of a key that
  count at time \<open>t\<close>. Releasing a lease just obtained restores the count, and no other call changes it.
\<close>

locale lease_backend =
  fixes ops :: "'b backend"
    and held :: "instant \<Rightarrow> 'b \<Rightarrow> string \<Rightarrow> nat"
  assumes acquire_release:
    "be_acquire ops c k m b = (Inr (Some l), b') \<Longrightarrow> fst c \<le> t \<Longrightarrow>
      held t (be_release ops c' l b') = held t b"
    and acquire_refused: "be_acquire ops c k m b = (Inr None, b') \<Longrightarrow> fst c \<le> t \<Longrightarrow> held t b' = held t b"
    and acquire_error: "be_acquire ops c k m b = (Inl e, b') \<Longrightarrow> fst c \<le> t \<Longrightarrow> held t b' = held t b"
    and allow_release:
      "be_allow ops c k r b = (a, b') \<Longrightarrow> held t (be_release ops c' l b') = held t (be_release ops c' l b)"
    and allow_held: "be_allow ops c k r b = (a, b') \<Longrightarrow> fst c \<le> t \<Longrightarrow> held t b' = held t b"
    and set_cooldown_held:
      "be_set_cooldown ops c kid n b = (u, b') \<Longrightarrow> fst c \<le> t \<Longrightarrow> held t b' = held t b"
    and remaining_held: "be_remaining ops c kid b = (q, b') \<Longrightarrow> fst c \<le> t \<Longrightarrow> held t b' = held t b"
    and current_held: "be_current ops c k b = (n, b') \<Longrightarrow> fst c \<le> t \<Longrightarrow> held t b' = held t b"

text \<open>
  The backend of \<open>state.mode = "memory"\<close>: \<open>TokenBucketRateLimiter\<close>, \<open>ConcurrencyManager\<close> and
  \<open>NoopCooldownStore\<close> (\<open>app/core/cooldown.py\<close>).
\<close>

record memory =
  mb_buckets :: buckets
  mb_states :: cstates

definition memory_init :: memory where
  "memory_init = \<lparr>mb_buckets = Map.empty, mb_states = Map.empty\<rparr>"

definition noop_set_cooldown :: "int \<Rightarrow> int \<Rightarrow> 'b \<Rightarrow> 'b" where
  "noop_set_cooldown key_id cooldown_seconds b = b"

definition noop_remaining_seconds :: "int \<Rightarrow> int option" where
  "noop_remaining_seconds key_id = None"

definition memory_ops :: "memory backend" where
  "memory_ops = \<lparr>
     be_allow = (\<lambda>c k r b. let (a, bs) = allow (snd c) k r (mb_buckets b) in (Inr a, b\<lparr>mb_buckets := bs\<rparr>)),
     be_acquire = (\<lambda>c k m b. let (l, st) = try_acquire k m (mb_states b) in (Inr l, b\<lparr>mb_states := st\<rparr>)),
     be_release = (\<lambda>c l b. b\<lparr>mb_states := run_release l (mb_states b)\<rparr>),
     be_set_cooldown = (\<lambda>c kid n b. (Inr (), noop_set_cooldown kid n b)),
     be_remaining = (\<lambda>c kid b. (Inr (noop_remaining_seconds kid), b)),
     be_current = (\<lambda>c k b. (current k (mb_states b), b))\<rparr>"

definition memory_held :: "instant \<Rightarrow> memory \<Rightarrow> string \<Rightarrow> nat" where
  "memory_held t b k = nat (current k (mb_states b))"

interpretation mem: lease_backend memory_ops memory_held
  by unfold_locales
     (auto simp: memory_ops_def memory_held_def noop_set_cooldown_def fun_eq_iff Let_def
        split: prod.splits dest: release_after_acquire try_acquire_refused)

subsection \<open>Upstream requests\<close>

record up_request =
  rq_method :: string
  rq_base_url :: string
  rq_path :: string
  rq_headers :: "(string \<times> string) list"
  rq_body :: "json option"
  rq_timeout :: int

datatype up_outcome = Reply http_response | Timed_out | Http_failed string

text \<open>The answer to a request and the microseconds it took.\<close>

record up_event =
  ev_outcome :: up_outcome
  ev_elapsed :: nat

text \<open>
  \<open>en_repr\<close> is Python's \<open>str\<close> of a float, list or dict; \<open>en_upstream n rq\<close> is what the \<open>n\<close>-th request
  gets back.
\<close>

record env =
  en_zone :: zone_db
  en_crypto :: crypto
  en_repr :: "json \<Rightarrow> string"
  en_upstream :: "nat \<Rightarrow> up_request \<Rightarrow> up_event"

subsection \<open>Metrics\<close>

text \<open>\<open>app/observability/metrics.py\<close>: the counters and gauges, by their labels.\<close>

record metrics =
  m_requests_total :: "string \<times> string \<times> string \<times> string \<Rightarrow> nat"
  m_durations :: "string \<times> string \<Rightarrow> int list"
  m_key_selected :: "string \<Rightarrow> nat"
  m_key_cooldown :: "string \<Rightarrow> nat"
  m_quota_remaining :: "string \<times> string \<Rightarrow> int option"

definition metrics_init :: metrics where
  "metrics_init = \<lparr>m_requests_total = (\<lambda>_. 0), m_durations = (\<lambda>_. []), m_key_selected = (\<lambda>_. 0),
     m_key_cooldown = (\<lambda>_. 0), m_quota_remaining = (\<lambda>_. None)\<rparr>"

definition record_request :: "string \<Rightarrow> string \<Rightarrow> int \<Rightarrow> int \<Rightarrow> int option \<Rightarrow> metrics \<Rightarrow> metrics" where
  "record_request endpoint meth status_code latency_ms client_id m =
     (let client_label = (case client_id of None \<Rightarrow> ''unknown'' | Some i \<Rightarrow> show_int i);
          labels = (endpoint, meth, show_int status_code, client_label)
      in m\<lparr>m_requests_total := (m_requests_total m)(labels := m_requests_total m labels + 1),
           m_durations := (m_durations m)((endpoint, meth) := m_durations m (endpoint, meth) @ [latency_ms])\<rparr>)"

definition record_key_selected :: "int \<Rightarrow> metrics \<Rightarrow> metrics" where
  "record_key_selected key_id m =
     m\<lparr>m_key_selected := (m_key_selected m)(show_int key_id := m_key_selected m (show_int key_id) + 1)\<rparr>"

definition record_key_cooldown :: "int \<Rightarrow> metrics \<Rightarrow> metrics" where
  "record_key_cooldown key_id m =
     m\<lparr>m_key_cooldown := (m_key_cooldown m)(show_int key_id := m_key_cooldown m (show_int key_id) + 1)\<rparr>"

definition set_quota_remaining :: "string \<Rightarrow> int \<Rightarrow> int \<Rightarrow> metrics \<Rightarrow> metrics" where
  "set_quota_remaining scope i remaining m =
     m\<lparr>m_quota_remaining := (m_quota_remaining m)((scope, show_int i) \<mapsto> remaining)\<rparr>"

subsection \<open>The state\<close>

record 'b app =
  sess :: session
  rr :: "string \<Rightarrow> nat option"
  kback :: 'b
  failures :: "int \<Rightarrow> (int \<times> instant) option"
  wall :: instant
  mono :: rat
  sent :: "up_request list"
  meters :: "metrics option"

definition clk_of :: "'b app \<Rightarrow> clk" where
  "clk_of s = (wall s, mono s)"

definition on_key :: "int \<Rightarrow> (api_key \<Rightarrow> api_key) \<Rightarrow> 'b app \<Rightarrow> 'b app" where
  "on_key kid f s = s\<lparr>sess := upd_key kid f (sess s)\<rparr>"

definition key_row :: "int \<Rightarrow> 'b app \<Rightarrow> api_key option" where
  "key_row kid s = get_key kid (sess s)"

definition on_client :: "int \<Rightarrow> (client \<Rightarrow> client) \<Rightarrow> 'b app \<Rightarrow> 'b app" where
  "on_client cid f s = s\<lparr>sess := upd_client cid f (sess s)\<rparr>"

definition commit_app :: "'b app \<Rightarrow> bool \<times> 'b app" where
  "commit_app s = (let (ok, ss) = commit_or_rollback (sess s) in (ok, s\<lparr>sess := ss\<rparr>))"

definition metered :: "(metrics \<Rightarrow> metrics) \<Rightarrow> 'b app \<Rightarrow> 'b app" where
  "metered f s = s\<lparr>meters := map_option f (meters s)\<rparr>"

text \<open>One exchange with the upstream service.\<close>

definition send_upstream :: "env \<Rightarrow> up_request \<Rightarrow> 'b app \<Rightarrow> up_outcome \<times> 'b app" where
  "send_upstream e rq s =
     (let ev = en_upstream e (length (sent s)) rq
      in (ev_outcome ev,
          s\<lparr>sent := sent s @ [rq], wall := wall s + int (ev_elapsed ev),
            mono := mono s + of_nat (ev_elapsed ev) / 1000000\<rparr>))"

subsection \<open>What every operation keeps\<close>

text \<open>
  The tenant view of a state: what is asked of every operation below is that it keeps the identity
  of every row and the agreement of the session's two views on them.
\<close>

definition same_rows :: "'b app \<Rightarrow> 'b app \<Rightarrow> bool" where
  "same_rows s s' \<longleftrightarrow>
     map key_ident (t_keys (cur (sess s'))) = map key_ident (t_keys (cur (sess s))) \<and>
     map key_ident (t_keys (db (sess s'))) = map key_ident (t_keys (db (sess s)))"

definition ok_rows :: "'b app \<Rightarrow> bool" where
  "ok_rows s \<longleftrightarrow> coherent (sess s) \<and> distinct (map k_id (t_keys (cur (sess s))))"

lemma same_rows_refl [simp]: "same_rows s s"
  by (simp add: same_rows_def)

lemma same_rows_trans: "same_rows s t \<Longrightarrow> same_rows t u \<Longrightarrow> same_rows s u"
  by (simp add: same_rows_def)

lemma map_k_id_ident: "map k_id ks = map fst (map key_ident ks)"
  by (simp add: key_ident_def)

lemma same_rows_ok: "same_rows s s' \<Longrightarrow> ok_rows s \<Longrightarrow> ok_rows s'"
  unfolding same_rows_def ok_rows_def coherent_def map_k_id_ident by metis

lemma same_rows_sess: "sess s' = sess s \<Longrightarrow> same_rows s s'"
  by (simp add: same_rows_def)

lemma same_rows_on_key [ident]: "keeps_ident f \<Longrightarrow> same_rows s (on_key kid f s)"
  by (simp add: same_rows_def on_key_def upd_where_map_keep keeps_ident_def)

lemma same_rows_on_client [ident]: "same_rows s (on_client cid f s)"
  by (simp add: same_rows_def on_client_def)

lemma same_rows_commit [ident]: "ok_rows s \<Longrightarrow> commit_app s = (ok, s') \<Longrightarrow> same_rows s s'"
proof -
  assume "ok_rows s" and c: "commit_app s = (ok, s')"
  obtain ss where cc: "commit_or_rollback (sess s) = (ok, ss)" and s': "s' = s\<lparr>sess := ss\<rparr>"
    using c by (auto simp: commit_app_def split: prod.splits)
  show ?thesis
    using cc by (rule commit_or_rollback_cases)
      (use \<open>ok_rows s\<close> s' in \<open>auto simp: same_rows_def ok_rows_def coherent_def\<close>)
qed

lemma same_rows_send [ident]: "send_upstream e rq s = (r, s') \<Longrightarrow> same_rows s s'"
  by (auto simp: send_upstream_def same_rows_def Let_def)

lemma same_rows_metered [ident]: "same_rows s (metered f s)"
  by (simp add: metered_def same_rows_def)

lemma key_row_ident:
  assumes "same_rows s s'"
  shows "map_option key_ident (key_row kid s') = map_option key_ident (key_row kid s)"
  unfolding key_row_def by (rule get_key_ident) (use assms in \<open>simp add: same_rows_def\<close>)

lemma app_frames [frame, simp]:
  "sent (on_key kid f s) = sent s" "kback (on_key kid f s) = kback s" "wall (on_key kid f s) = wall s"
  "mono (on_key kid f s) = mono s" "failures (on_key kid f s) = failures s" "rr (on_key kid f s) = rr s"
  "sent (on_client cid g s) = sent s" "kback (on_client cid g s) = kback s"
  "wall (on_client cid g s) = wall s" "mono (on_client cid g s) = mono s"
  "sent (snd (commit_app s)) = sent s" "kback (snd (commit_app s)) = kback s"
  "wall (snd (commit_app s)) = wall s" "mono (snd (commit_app s)) = mono s"
  "rr (snd (commit_app s)) = rr s" "failures (snd (commit_app s)) = failures s"
  "sent (metered h s) = sent s" "kback (metered h s) = kback s" "wall (metered h s) = wall s"
  "mono (metered h s) = mono s" "sess (metered h s) = sess s"
  by (simp_all add: on_key_def on_client_def commit_app_def metered_def split: prod.splits)

lemma app_update_sel [simp]:
  "key_row kid (s\<lparr>kback := b\<rparr>) = key_row kid s" "key_row kid (s\<lparr>rr := r\<rparr>) = key_row kid s"
  "key_row kid (metered h s) = key_row kid s"
  by (simp_all add: key_row_def metered_def)

lemma key_row_on_key:
  "keeps_ident f \<Longrightarrow> key_row kid' (on_key kid f s) =
     (if kid' = kid then map_option f (key_row kid' s) else key_row kid' s)"
  by (auto simp: key_row_def on_key_def get_key_upd get_key_upd_other)

lemma commit_app_cases:
  assumes "commit_app s = (ok, s')"
  obtains "ok" "cur (sess s') = cur (sess s)" "db (sess s') = cur (sess s)"
  | "\<not> ok" "cur (sess s') = db (sess s)" "db (sess s') = db (sess s)"
proof -
  obtain ss where c: "commit_or_rollback (sess s) = (ok, ss)" and s': "s' = s\<lparr>sess := ss\<rparr>"
    using assms by (auto simp: commit_app_def split: prod.splits)
  from c show thesis
    by (rule commit_or_rollback_cases) (use that s' in auto)
qed

lemma key_row_commit:
  assumes "commit_app s = (True, s')"
  shows "key_row kid s' = key_row kid s"
  using assms by (rule commit_app_cases) (simp_all add: key_row_def get_key_def)

text \<open>
  \<open>steady held s s'\<close>: the rows of the keys are those of \<open>s\<close>, time has not gone back and no lease is
  left over or lost. \<open>sends n Q s s'\<close>: at most \<open>n\<close> requests were sent upstream, all of them \<open>Q\<close>.
\<close>

definition steady :: "(instant \<Rightarrow> 'b \<Rightarrow> string \<Rightarrow> nat) \<Rightarrow> 'b app \<Rightarrow> 'b app \<Rightarrow> bool" where
  "steady held s s' \<longleftrightarrow>
     (ok_rows s \<longrightarrow> same_rows s s') \<and> wall s \<le> wall s' \<and>
     (\<forall>t key. wall s' \<le> t \<longrightarrow> held t (kback s') key = held t (kback s) key)"

definition sends :: "nat \<Rightarrow> (up_request \<Rightarrow> bool) \<Rightarrow> 'b app \<Rightarrow> 'b app \<Rightarrow> bool" where
  "sends n Q s s' \<longleftrightarrow> (\<exists>rqs. sent s' = sent s @ rqs \<and> length rqs \<le> n \<and> (\<forall>rq \<in> set rqs. Q rq))"

named_theorems steady_intros \<open>operations that are steady\<close>
named_theorems silent \<open>operations that send nothing upstream\<close>

lemma steady_refl [steady_intros]: "steady held s s"
  by (simp add: steady_def)

lemma steady_trans: "steady held s t \<Longrightarrow> steady held t u \<Longrightarrow> steady held s u"
proof -
  assume st: "steady held s t" and tu: "steady held t u"
  have w: "wall s \<le> wall t" "wall t \<le> wall u" using st tu by (simp_all add: steady_def)
  have "held i (kback u) key = held i (kback s) key" if "wall u \<le> i" for i key
    using st tu w(2) that unfolding steady_def by fastforce
  moreover have "ok_rows s \<longrightarrow> same_rows s u"
    using st tu same_rows_ok same_rows_trans unfolding steady_def by blast
  ultimately show ?thesis using w unfolding steady_def by auto
qed

lemma steady_rows: "steady held s s' \<Longrightarrow> ok_rows s \<Longrightarrow> same_rows s s' \<and> ok_rows s'"
  unfolding steady_def using same_rows_ok by blast

lemma steady_on_key [steady_intros]: "keeps_ident f \<Longrightarrow> steady held s (on_key kid f s)"
  by (simp add: steady_def same_rows_on_key)

lemma steady_on_client [steady_intros]: "steady held s (on_client cid f s)"
  by (simp add: steady_def same_rows_on_client)

lemma steady_commit [steady_intros]: "steady held s (snd (commit_app s))"
proof -
  have "ok_rows s \<Longrightarrow> same_rows s (snd (commit_app s))"
    using same_rows_commit [of s "fst (commit_app s)" "snd (commit_app s)"] by simp
  then show ?thesis by (simp add: steady_def)
qed

lemma steady_same_sess:
  "sess s' = sess s \<Longrightarrow> wall s' = wall s \<Longrightarrow> (\<And>t key. wall s \<le> t \<Longrightarrow> held t (kback s') key = held t (kback s) key)
    \<Longrightarrow> steady held s s'"
  by (simp add: steady_def same_rows_sess)

lemma steady_metered [steady_intros]: "steady held s (metered f s)"
  by (simp add: steady_def same_rows_metered)

lemma sends_0: "sends 0 Q s s' \<longleftrightarrow> sent s' = sent s"
  by (auto simp: sends_def)

lemma sends_same: "sent s' = sent s \<Longrightarrow> sends n Q s s'"
  by (auto simp: sends_def)

lemma sends_trans: "sends m Q s t \<Longrightarrow> sends n Q t u \<Longrightarrow> sends (m + n) Q s u"
proof -
  assume "sends m Q s t" "sends n Q t u"
  then obtain a b where "sent t = sent s @ a" "length a \<le> m" "\<forall>x \<in> set a. Q x"
    "sent u = sent t @ b" "length b \<le> n" "\<forall>x \<in> set b. Q x"
    by (auto simp: sends_def)
  then have "sent u = sent s @ (a @ b) \<and> length (a @ b) \<le> m + n \<and> (\<forall>x \<in> set (a @ b). Q x)" by auto
  then show ?thesis unfolding sends_def by blast
qed

lemma sends_mono: "sends m Q s t \<Longrightarrow> m \<le> n \<Longrightarrow> sends n Q s t"
  unfolding sends_def using order_trans by blast

end
