(* ===== verification/Key_Pool.thy ===== *)
theory Key_Pool
  imports App_State
begin

text \<open>
  \<open>KeyPool.select\<close> of \<open>app/core/key_pool.py\<close>: the scan over a client's keys from the rotation index,
  with the daily reset, the cool-down and the quota check on the way.
\<close>

definition is_disabled :: "api_key \<Rightarrow> bool" where
  "is_disabled k \<longleftrightarrow> \<not> k_is_active k \<or> k_status k = Disabled"

definition cooldown_remaining_seconds :: "api_key \<Rightarrow> instant \<Rightarrow> int" where
  "cooldown_remaining_seconds k now =
     (case k_cooldown_until k of None \<Rightarrow> 0 | Some u \<Rightarrow> max (trunc_seconds (u - now)) 0)"

text \<open>The daily reset of lines 94 to 98.\<close>

definition roll_day :: "date \<Rightarrow> api_key \<Rightarrow> api_key" where
  "roll_day today k =
     (if k_quota_reset_at k \<noteq> Some today then
        k\<lparr>k_daily_usage := 0, k_quota_reset_at := Some today,
          k_status := (if k_status k = Quota_exceeded then Active else k_status k)\<rparr>
      else k)"

definition quota_spent :: "api_key \<Rightarrow> bool" where
  "quota_spent k = (case k_daily_quota k of None \<Rightarrow> False | Some q \<Rightarrow> q \<le> k_daily_usage k)"

record scan =
  sn_cooling_retry_after :: "int option"
  sn_quota_retry_after :: "int option"
  sn_cooling_seen :: nat
  sn_quota_seen :: nat
  sn_disabled_seen :: nat

definition scan_init :: scan where
  "scan_init = \<lparr>sn_cooling_retry_after = None, sn_quota_retry_after = None, sn_cooling_seen = 0,
     sn_quota_seen = 0, sn_disabled_seen = 0\<rparr>"

datatype scan_step = Skip scan | Raise fcam_error | Pick

definition min_opt :: "int option \<Rightarrow> int \<Rightarrow> int" where
  "min_opt x r = (case x of None \<Rightarrow> r | Some y \<Rightarrow> min y r)"

text \<open>The remaining cool-down of a cooling or failed key: the row's, and the store's for a cooling key.\<close>

definition remaining_cooldown ::
  "'b backend \<Rightarrow> instant \<Rightarrow> api_key \<Rightarrow> 'b app \<Rightarrow> (fcam_error + int) \<times> 'b app" where
  "remaining_cooldown ops now k s =
     (let remaining = cooldown_remaining_seconds k now in
      if k_status k = Cooling then
        (case be_remaining ops (clk_of s) (k_id k) (kback s) of
           (Inl e, b) \<Rightarrow> (Inl e, s\<lparr>kback := b\<rparr>)
         | (Inr None, b) \<Rightarrow> (Inr remaining, s\<lparr>kback := b\<rparr>)
         | (Inr (Some r), b) \<Rightarrow> (Inr (max remaining r), s\<lparr>kback := b\<rparr>))
      else (Inr remaining, s))"

text \<open>Lines 116 to 120, then the choice.\<close>

definition check_quota ::
  "env \<Rightarrow> app_config \<Rightarrow> instant \<Rightarrow> int \<Rightarrow> api_key \<Rightarrow> scan \<Rightarrow> 'b app \<Rightarrow> scan_step \<times> 'b app" where
  "check_quota e cfg now kid k acc s =
     (if quota_spent k then
        (Skip (acc\<lparr>sn_quota_seen := sn_quota_seen acc + 1,
                   sn_quota_retry_after :=
                     Some (seconds_until_next_midnight (en_zone e) (qt_timezone (c_quota cfg)) now)\<rparr>),
         on_key kid (\<lambda>r. r\<lparr>k_status := Quota_exceeded\<rparr>) s)
      else (Pick, s))"

text \<open>One turn of the loop over the keys (lines 86 to 120).\<close>

definition scan_key ::
  "'b backend \<Rightarrow> env \<Rightarrow> app_config \<Rightarrow> instant \<Rightarrow> date \<Rightarrow> int \<Rightarrow> scan \<Rightarrow> 'b app \<Rightarrow> scan_step \<times> 'b app" where
  "scan_key ops e cfg now today kid acc s =
     (case key_row kid s of
        None \<Rightarrow> (Skip acc, s)
      | Some k \<Rightarrow>
          if is_disabled k then (Skip (acc\<lparr>sn_disabled_seen := sn_disabled_seen acc + 1\<rparr>), s)
          else
            (let k1 = roll_day today k; s1 = on_key kid (roll_day today) s in
             if k_status k1 = Cooling \<or> k_status k1 = Failed then
               (case remaining_cooldown ops now k1 s1 of
                  (Inl err, s2) \<Rightarrow> (Raise err, s2)
                | (Inr remaining, s2) \<Rightarrow>
                    if 0 < remaining then
                      (Skip (acc\<lparr>sn_cooling_seen := sn_cooling_seen acc + 1,
                                 sn_cooling_retry_after :=
                                   Some (min_opt (sn_cooling_retry_after acc) remaining)\<rparr>), s2)
                    else
                      check_quota e cfg now kid (k1\<lparr>k_cooldown_until := None, k_status := Active\<rparr>) acc
                        (on_key kid (\<lambda>r. r\<lparr>k_cooldown_until := None, k_status := Active\<rparr>) s2))
             else check_quota e cfg now kid k1 acc s1))"

definition scope_of :: "int option \<Rightarrow> string \<Rightarrow> string" where
  "scope_of client_id provider =
     (case client_id of
        None \<Rightarrow> ''global:'' @ provider
      | Some c \<Rightarrow> ''client:'' @ show_int c @ '':'' @ provider)"

text \<open>
  The loop over \<open>range(len(keys))\<close>, given the positions still to visit. A chosen key is committed
  before the rotation index moves on (lines 122 to 135).
\<close>

fun scan_loop ::
  "'b backend \<Rightarrow> env \<Rightarrow> app_config \<Rightarrow> instant \<Rightarrow> date \<Rightarrow> string \<Rightarrow> int list \<Rightarrow> nat list \<Rightarrow> scan \<Rightarrow> 'b app
     \<Rightarrow> (fcam_error + int + scan) \<times> 'b app" where
  "scan_loop ops e cfg now today scope ids [] acc s = (Inr (Inr acc), s)"
| "scan_loop ops e cfg now today scope ids (idx # rest) acc s =
     (let kid = ids ! idx in
      case scan_key ops e cfg now today kid acc s of
        (Skip acc', s') \<Rightarrow> scan_loop ops e cfg now today scope ids rest acc' s'
      | (Raise err, s') \<Rightarrow> (Inl err, s')
      | (Pick, s') \<Rightarrow>
          (case commit_app s' of
             (False, s'') \<Rightarrow> (Inl db_unavailable, s'')
           | (True, s'') \<Rightarrow> (Inr (Inl kid), s''\<lparr>rr := (rr s'')(scope \<mapsto> idx + 1)\<rparr>)))"

text \<open>The exceptions after an unsuccessful scan (lines 137 to 159).\<close>

definition no_key_error :: "int option \<Rightarrow> nat \<Rightarrow> scan \<Rightarrow> fcam_error" where
  "no_key_error client_id n acc =
     (if sn_disabled_seen acc = n then fcam 503 ''ALL_KEYS_DISABLED'' ''All keys disabled''
      else if sn_quota_seen acc \<noteq> 0 \<and> sn_quota_seen acc + sn_disabled_seen acc = n then
        (fcam 429 ''ALL_KEYS_QUOTA_EXCEEDED'' ''All keys quota exceeded'')
          \<lparr>e_retry_after := sn_quota_retry_after acc\<rparr>
      else if sn_cooling_seen acc \<noteq> 0 \<and> sn_cooling_seen acc + sn_disabled_seen acc = n then
        (fcam 429 ''ALL_KEYS_COOLING'' ''All keys cooling'')\<lparr>e_retry_after := sn_cooling_retry_after acc\<rparr>
      else fcam 503 ''NO_KEY_AVAILABLE''
             (if client_id = None then ''No key available'' else ''No key available for client''))"

text \<open>The keys of a provider and, unless \<open>client_id\<close> is \<open>None\<close>, of a client, in the order of their ids.\<close>

definition pool_ids :: "int option \<Rightarrow> string \<Rightarrow> session \<Rightarrow> int list" where
  "pool_ids client_id provider ss =
     sort (map k_id (filter (\<lambda>k. k_provider k = provider \<and> (client_id = None \<or> k_client_id k = client_id))
       (t_keys (cur ss))))"

definition rotation :: "nat \<Rightarrow> nat \<Rightarrow> nat list" where
  "rotation start n = map (\<lambda>offset. (start + offset) mod n) [0..<n]"

definition select ::
  "'b backend \<Rightarrow> env \<Rightarrow> app_config \<Rightarrow> int option \<Rightarrow> string \<Rightarrow> 'b app \<Rightarrow> (fcam_error + int) \<times> 'b app" where
  "select ops e cfg client_id provider s =
     (let now = wall s;
          today = today_in_timezone (en_zone e) (qt_timezone (c_quota cfg)) now;
          (fault, ss) = next_fault (sess s);
          s0 = s\<lparr>sess := ss\<rparr>
      in if fault then (Inl db_unavailable, s0)
         else
           (let ids = pool_ids client_id provider ss in
            if ids = [] then
              (Inl (fcam 503 ''NO_KEY_CONFIGURED''
                 (if client_id = None then ''No key configured'' else ''No key configured for client'')), s0)
            else if \<not> (\<exists>kid \<in> set ids. case key_row kid s0 of None \<Rightarrow> False | Some k \<Rightarrow> k_is_active k) then
              (Inl (fcam 503 ''ALL_KEYS_DISABLED''
                 (if client_id = None then ''All keys disabled'' else ''All keys disabled for client'')), s0)
            else
              (let scope = scope_of client_id provider;
                   start = (case rr s0 scope of None \<Rightarrow> 0 | Some i \<Rightarrow> i) mod length ids
               in case scan_loop ops e cfg now today scope ids (rotation start (length ids)) scan_init s0 of
                    (Inl err, s1) \<Rightarrow> (Inl err, s1)
                  | (Inr (Inl kid), s1) \<Rightarrow> (Inr kid, s1)
                  | (Inr (Inr acc), s1) \<Rightarrow> (Inl (no_key_error client_id (length ids) acc), s1))))"

subsection \<open>Rows, time and leases\<close>

lemma keeps_roll_day [ident]: "keeps_ident (roll_day today)"
  by (simp add: keeps_ident_def key_ident_def roll_day_def)

lemma keeps_status [ident]:
  "keeps_ident (\<lambda>r. r\<lparr>k_status := Quota_exceeded\<rparr>)"
  "keeps_ident (\<lambda>r. r\<lparr>k_cooldown_until := None, k_status := Active\<rparr>)"
  by (simp_all add: keeps_ident_def key_ident_def)

lemma steady_fault [steady_intros]: "steady held s (s\<lparr>sess := snd (next_fault (sess s))\<rparr>)"
  by (simp add: steady_def same_rows_def)

context lease_backend begin

lemma steady_remaining: "steady held s (snd (remaining_cooldown ops now k s))"
proof (cases "be_remaining ops (clk_of s) (k_id k) (kback s)")
  case (Pair r b)
  then have "steady held s (s\<lparr>kback := b\<rparr>)"
    by (intro steady_same_sess) (auto simp: clk_of_def dest: remaining_held)
  with Pair show ?thesis
    by (auto simp: remaining_cooldown_def Let_def steady_refl split: sum.splits option.splits)
qed

lemma steady_check_quota: "steady held s (snd (check_quota e cfg now kid k acc s))"
  by (simp add: check_quota_def steady_refl steady_on_key keeps_status)

lemma steady_scan_key: "steady held s (snd (scan_key ops e cfg now today kid acc s))"
proof (cases "key_row kid s")
  case None
  then show ?thesis by (simp add: scan_key_def steady_refl)
next
  case (Some k)
  define s1 where "s1 = on_key kid (roll_day today) s"
  define r where "r = remaining_cooldown ops now (roll_day today k) s1"
  have 1: "steady held s s1" unfolding s1_def by (intro steady_on_key keeps_roll_day)
  have 2: "steady held s (snd r)"
    unfolding r_def using 1 steady_remaining by (rule steady_trans)
  have 3: "steady held s (snd (check_quota e cfg now kid k' acc s1))" for k'
    using 1 steady_check_quota by (rule steady_trans)
  have 4: "steady held s (snd (check_quota e cfg now kid k' acc
      (on_key kid (\<lambda>r. r\<lparr>k_cooldown_until := None, k_status := Active\<rparr>) (snd r))))" for k'
    using steady_trans [OF 2 steady_on_key [OF keeps_status(2)]] steady_check_quota by (rule steady_trans)
  show ?thesis
    using Some 2 3 4 by (auto simp: scan_key_def Let_def steady_refl simp flip: s1_def r_def
      split: prod.splits sum.splits)
qed

lemma steady_scan_loop: "steady held s (snd (scan_loop ops e cfg now today scope ids idxs acc s))"
proof (induction idxs arbitrary: acc s)
  case Nil
  then show ?case by (simp add: steady_refl)
next
  case (Cons idx rest)
  obtain st s' where k: "scan_key ops e cfg now today (ids ! idx) acc s = (st, s')"
    by (cases "scan_key ops e cfg now today (ids ! idx) acc s")
  have 1: "steady held s s'" using steady_scan_key [of s e cfg now today "ids ! idx" acc] k by simp
  obtain ok s'' where c: "commit_app s' = (ok, s'')" by (cases "commit_app s'")
  have 2: "steady held s s''" using steady_trans [OF 1 steady_commit] c by simp
  then have "steady held s (s''\<lparr>rr := f\<rparr>)" for f
    by (rule steady_trans) (simp add: steady_same_sess)
  with 1 2 Cons.IH [THEN steady_trans [OF 1]] show ?case
    by (auto simp: k c split: scan_step.splits bool.splits)
qed

lemma steady_select: "steady held s (snd (select ops e cfg cid p s))"
proof -
  obtain f ss where f: "next_fault (sess s) = (f, ss)" by (cases "next_fault (sess s)")
  have 1: "steady held s (s\<lparr>sess := ss\<rparr>)" using steady_fault [of held s] f by simp
  show ?thesis
    using 1 steady_trans [OF 1 steady_scan_loop]
    by (auto simp: select_def f Let_def split: prod.splits sum.splits)
      (metis snd_conv)+
qed

end

lemma silent_scan_key [silent]: "sent (snd (scan_key ops e cfg now today kid acc s)) = sent s"
  by (auto simp: scan_key_def check_quota_def remaining_cooldown_def Let_def
      split: option.splits sum.splits prod.splits)

lemma silent_scan_loop [silent]:
  "sent (snd (scan_loop ops e cfg now today scope ids idxs acc s)) = sent s"
proof (induction idxs arbitrary: acc s)
  case (Cons idx rest)
  obtain st s' where k: "scan_key ops e cfg now today (ids ! idx) acc s = (st, s')"
    by (cases "scan_key ops e cfg now today (ids ! idx) acc s")
  have "sent s' = sent s" using silent_scan_key [of ops e cfg now today "ids ! idx" acc s] k by simp
  moreover have "commit_app s' = (ok, s'') \<Longrightarrow> sent s'' = sent s'" for ok s''
    using app_frames(11) [of s'] by simp
  ultimately show ?case using Cons.IH
    by (auto simp: k split: scan_step.splits bool.splits prod.splits)
qed simp

lemma silent_select [silent]: "sent (snd (select ops e cfg cid p s)) = sent s"
proof -
  obtain f ss where f: "next_fault (sess s) = (f, ss)" by (cases "next_fault (sess s)")
  have "scan_loop ops e cfg now today scope ids idxs acc (s\<lparr>sess := ss\<rparr>) = (r, s') \<Longrightarrow> sent s' = sent s"
    for now today scope ids idxs acc r s'
    using silent_scan_loop [of ops e cfg now today scope ids idxs acc "s\<lparr>sess := ss\<rparr>"] by simp
  then show ?thesis
    by (auto simp: select_def f Let_def split: prod.splits sum.splits)
qed

subsection \<open>The key that is chosen\<close>

text \<open>A key in this state may serve a request now.\<close>

definition ready :: "date \<Rightarrow> api_key \<Rightarrow> bool" where
  "ready today k \<longleftrightarrow> \<not> is_disabled k \<and> k_status k \<noteq> Cooling \<and> k_status k \<noteq> Failed
     \<and> \<not> quota_spent k \<and> k_quota_reset_at k = Some today"

lemma roll_day_sel [simp]:
  "k_is_active (roll_day today k) = k_is_active k" "k_quota_reset_at (roll_day today k) = Some today"
  "k_id (roll_day today k) = k_id k" "is_disabled (roll_day today k) = is_disabled k"
  "k_cooldown_until (roll_day today k) = k_cooldown_until k"
  by (auto simp: roll_day_def is_disabled_def)

lemma remaining_cooldown_sess [simp]:
  "remaining_cooldown ops now k s = (r, s') \<Longrightarrow> key_row kid s' = key_row kid s"
  by (auto simp: remaining_cooldown_def Let_def split: if_splits prod.splits sum.splits option.splits)

lemma check_quota_pick:
  "check_quota e cfg now kid k acc s = (Pick, s') \<longleftrightarrow> s' = s \<and> \<not> quota_spent k"
  by (auto simp: check_quota_def)

lemma scan_key_pick:
  assumes "scan_key ops e cfg now today kid acc s = (Pick, s')"
  shows "\<exists>k. key_row kid s' = Some k \<and> ready today k"
proof -
  obtain k where k: "key_row kid s = Some k" and nd: "\<not> is_disabled k"
    using assms by (auto simp: scan_key_def split: option.splits if_splits)
  define s1 where "s1 = on_key kid (roll_day today) s"
  have k1: "key_row kid s1 = Some (roll_day today k)"
    by (simp add: s1_def key_row_on_key keeps_roll_day k)
  show ?thesis
  proof (cases "k_status (roll_day today k) = Cooling \<or> k_status (roll_day today k) = Failed")
    case False
    with assms k nd have "s' = s1" "\<not> quota_spent (roll_day today k)"
      by (auto simp: scan_key_def Let_def check_quota_pick s1_def)
    with False k1 nd show ?thesis by (simp add: ready_def)
  next
    case True
    obtain r s2 where r: "remaining_cooldown ops now (roll_day today k) s1 = (r, s2)"
      by (cases "remaining_cooldown ops now (roll_day today k) s1")
    let ?f = "\<lambda>r. r\<lparr>k_cooldown_until := None, k_status := Active\<rparr>"
    from True assms k nd r have "s' = on_key kid ?f s2" "\<not> quota_spent (?f (roll_day today k))"
      by (auto simp: scan_key_def Let_def check_quota_pick simp flip: s1_def split: sum.splits if_splits)
    moreover have "key_row kid s2 = Some (roll_day today k)" using r k1 by simp
    ultimately have "key_row kid s' = Some (?f (roll_day today k))"
      by (simp add: key_row_on_key keeps_status)
    moreover have "ready today (?f (roll_day today k))"
      using nd \<open>\<not> quota_spent (?f (roll_day today k))\<close>
      by (simp add: ready_def is_disabled_def)
    ultimately show ?thesis by blast
  qed
qed

lemma scan_loop_pick:
  assumes "scan_loop ops e cfg now today scope ids idxs acc s = (Inr (Inl kid), s')"
  shows "(\<exists>idx \<in> set idxs. kid = ids ! idx \<and> rr s' scope = Some (idx + 1)) \<and>
    (\<exists>k. key_row kid s' = Some k \<and> ready today k)"
  using assms
proof (induction idxs arbitrary: acc s)
  case (Cons idx rest)
  obtain st s1 where k: "scan_key ops e cfg now today (ids ! idx) acc s = (st, s1)"
    by (cases "scan_key ops e cfg now today (ids ! idx) acc s")
  obtain ok s2 where c: "commit_app s1 = (ok, s2)" by (cases "commit_app s1")
  show ?case
  proof (cases st)
    case (Skip acc')
    with Cons k show ?thesis by auto
  next
    case (Raise err)
    with Cons k show ?thesis by auto
  next
    case Pick
    with Cons.prems k c have ok: ok and kid: "kid = ids ! idx"
      and s': "s' = s2\<lparr>rr := (rr s2)(scope \<mapsto> idx + 1)\<rparr>"
      by (auto split: bool.splits)
    obtain k' where "key_row kid s1 = Some k'" "ready today k'"
      using scan_key_pick k Pick kid by blast
    then have "key_row kid s' = Some k'"
      using key_row_commit [of s1 s2 kid] c ok s' by simp
    with \<open>ready today k'\<close> kid s' show ?thesis by auto
  qed
qed simp

lemma rotation_range: "0 < n \<Longrightarrow> set (rotation start n) = {..<n}"
proof -
  assume n: "0 < n"
  have "i \<in> (\<lambda>offset. (start + offset) mod n) ` {..<n}" if "i < n" for i
  proof -
    let ?d = "(i + (n - start mod n)) mod n"
    have "(start + ?d) mod n = (start mod n + (i + (n - start mod n))) mod n" by (simp add: mod_simps)
    also have "start mod n + (i + (n - start mod n)) = i + n" using n mod_less_divisor [OF n, of start] by simp
    finally have "(start + ?d) mod n = i" using that by simp
    moreover have "?d < n" using n by simp
    ultimately show ?thesis by (metis imageI lessThan_iff)
  qed
  with n show ?thesis by (auto simp: rotation_def atLeast0LessThan)
qed

lemma pool_ids_iff:
  "kid \<in> set (pool_ids cid p ss) \<longleftrightarrow>
     (\<exists>k \<in> set (t_keys (cur ss)). k_id k = kid \<and> k_provider k = p \<and> (cid = None \<or> k_client_id k = cid))"
  by (auto simp: pool_ids_def)

lemma select_pick:
  assumes "select ops e cfg cid p s = (Inr kid, s')"
  shows "kid \<in> set (pool_ids cid p (sess s))"
    and "\<exists>idx < length (pool_ids cid p (sess s)). kid = pool_ids cid p (sess s) ! idx
      \<and> rr s' (scope_of cid p) = Some (idx + 1)"
    and "\<exists>k. key_row kid s' = Some k \<and> ready (today_in_timezone (en_zone e) (qt_timezone (c_quota cfg)) (wall s)) k"
proof -
  obtain f ss where f: "next_fault (sess s) = (f, ss)" by (cases "next_fault (sess s)")
  then have same: "pool_ids cid p ss = pool_ids cid p (sess s)"
    using next_fault_sel(2) [of "sess s"] by (simp add: pool_ids_def)
  let ?n = "length (pool_ids cid p ss)"
  let ?start = "(case rr s (scope_of cid p) of None \<Rightarrow> 0 | Some i \<Rightarrow> i) mod ?n"
  let ?today = "today_in_timezone (en_zone e) (qt_timezone (c_quota cfg)) (wall s)"
  have loop: "scan_loop ops e cfg (wall s) ?today (scope_of cid p) (pool_ids cid p ss) (rotation ?start ?n)
      scan_init (s\<lparr>sess := ss\<rparr>) = (Inr (Inl kid), s')" and ne: "pool_ids cid p ss \<noteq> []"
    using assms by (auto simp: select_def f Let_def split: if_splits prod.splits sum.splits)
  from scan_loop_pick [OF loop] obtain idx where idx: "idx \<in> set (rotation ?start ?n)"
    "kid = pool_ids cid p ss ! idx" "rr s' (scope_of cid p) = Some (idx + 1)" by blast
  moreover have "set (rotation ?start ?n) = {..<?n}" using ne by (intro rotation_range) simp
  ultimately have lt: "idx < ?n" by auto
  then have "kid \<in> set (pool_ids cid p ss)" using idx(2) by simp
  then show "kid \<in> set (pool_ids cid p (sess s))" by (simp only: same)
  show "\<exists>idx < length (pool_ids cid p (sess s)). kid = pool_ids cid p (sess s) ! idx
      \<and> rr s' (scope_of cid p) = Some (idx + 1)"
    using lt idx(2,3) unfolding same by blast
  from scan_loop_pick [OF loop]
  show "\<exists>k. key_row kid s' = Some k \<and> ready ?today k" by blast
qed

text \<open>The row of an id of the pool is a row of that client and provider.\<close>

lemma distinct_find_row:
  assumes "distinct (map k_id ks)" and "k \<in> set ks"
  shows "find (\<lambda>x. k_id x = k_id k) ks = Some k"
  using assms by (induction ks) (auto simp: image_iff)

lemma pool_row:
  assumes "ok_rows s" and "kid \<in> set (pool_ids cid p (sess s))"
  shows "\<exists>k. key_row kid s = Some k \<and> k \<in> set (t_keys (cur (sess s))) \<and> k_provider k = p
    \<and> (cid = None \<or> k_client_id k = cid)"
  using assms distinct_find_row by (fastforce simp: pool_ids_iff key_row_def get_key_def ok_rows_def)

subsection \<open>What selection promises\<close>

text \<open>
  The standing of a key at an instant, and selection in terms of standings: the first eligible key
  from the rotation index, else an error that says why there is none. The scan implements this when
  the cool-down store knows nothing the rows do not (\<open>quiet\<close>, as \<open>NoopCooldownStore\<close>).
\<close>

datatype standing = Out_of_service | Cooling_for int | Spent | Eligible

definition standing :: "instant \<Rightarrow> date \<Rightarrow> api_key \<Rightarrow> standing" where
  "standing now today k =
     (if is_disabled k then Out_of_service
      else if k_status k \<in> {Cooling, Failed} \<and> 0 < cooldown_remaining_seconds k now
        then Cooling_for (cooldown_remaining_seconds k now)
      else if k_quota_reset_at k = Some today \<and> quota_spent k \<or> k_quota_reset_at k \<noteq> Some today
          \<and> (case k_daily_quota k of None \<Rightarrow> False | Some q \<Rightarrow> q \<le> 0) then Spent
      else Eligible)"

definition cooling_times :: "standing list \<Rightarrow> int list" where
  "cooling_times sts = concat (map (\<lambda>st. case st of Cooling_for r \<Rightarrow> [r] | _ \<Rightarrow> []) sts)"

definition no_key_spec :: "int option \<Rightarrow> int \<Rightarrow> standing list \<Rightarrow> fcam_error" where
  "no_key_spec client_id midnight sts =
     (if \<forall>st \<in> set sts. st = Out_of_service then fcam 503 ''ALL_KEYS_DISABLED'' ''All keys disabled''
      else if cooling_times sts = [] then
        (fcam 429 ''ALL_KEYS_QUOTA_EXCEEDED'' ''All keys quota exceeded'')\<lparr>e_retry_after := Some midnight\<rparr>
      else if Spent \<notin> set sts then
        (fcam 429 ''ALL_KEYS_COOLING'' ''All keys cooling'')
          \<lparr>e_retry_after := Some (Min (set (cooling_times sts)))\<rparr>
      else fcam 503 ''NO_KEY_AVAILABLE''
             (if client_id = None then ''No key available'' else ''No key available for client''))"

definition quiet :: "'b backend \<Rightarrow> bool" where
  "quiet ops \<longleftrightarrow> (\<forall>c kid b. be_remaining ops c kid b = (Inr None, b))"

lemma quiet_memory [simp]: "quiet memory_ops"
  by (simp add: quiet_def memory_ops_def noop_remaining_seconds_def)

definition tally :: "int \<Rightarrow> scan \<Rightarrow> standing \<Rightarrow> scan" where
  "tally midnight acc st =
     (case st of
        Out_of_service \<Rightarrow> acc\<lparr>sn_disabled_seen := sn_disabled_seen acc + 1\<rparr>
      | Cooling_for r \<Rightarrow> acc\<lparr>sn_cooling_seen := sn_cooling_seen acc + 1,
          sn_cooling_retry_after := Some (min_opt (sn_cooling_retry_after acc) r)\<rparr>
      | Spent \<Rightarrow> acc\<lparr>sn_quota_seen := sn_quota_seen acc + 1, sn_quota_retry_after := Some midnight\<rparr>
      | Eligible \<Rightarrow> acc)"

text \<open>What a turn of the loop on one key leaves alone.\<close>

definition undisturbed :: "int set \<Rightarrow> 'b app \<Rightarrow> 'b app \<Rightarrow> bool" where
  "undisturbed kids s s' \<longleftrightarrow> (\<forall>kid \<in> kids. key_row kid s' = key_row kid s)
     \<and> faults (sess s') = faults (sess s) \<and> unique_ok (cur (sess s')) = unique_ok (cur (sess s))
     \<and> rr s' = rr s"

lemma undisturbed_refl [simp]: "undisturbed kids s s"
  by (simp add: undisturbed_def)

lemma undisturbed_on_key:
  assumes "keeps_ident f" and "\<And>k. k_hash (f k) = k_hash k" and "kid \<notin> kids"
  shows "undisturbed kids s (on_key kid f s)"
proof -
  have "map k_hash (upd_where P f ks) = map k_hash ks" for P ks
    using assms(2) by (intro upd_where_map_keep)
  then have "unique_ok (cur (sess (on_key kid f s))) = unique_ok (cur (sess s))"
    by (simp add: on_key_def unique_ok_def upd_key_def)
  moreover have "key_row kid' (on_key kid f s) = key_row kid' s" if "kid' \<in> kids" for kid'
    using assms(1,3) that by (auto simp: key_row_on_key)
  ultimately show ?thesis by (simp add: undisturbed_def on_key_def)
qed

lemma undisturbed_trans:
  "undisturbed kids s t \<Longrightarrow> undisturbed kids t u \<Longrightarrow> undisturbed kids s u"
  by (simp add: undisturbed_def)

lemma scan_keeps_hash [simp]:
  "k_hash (roll_day today k) = k_hash k"
  by (simp add: roll_day_def)

lemma roll_day_standing:
  "k_status (roll_day today k) \<in> {Cooling, Failed} \<longleftrightarrow> k_status k \<in> {Cooling, Failed}"
  "quota_spent (roll_day today k) \<longleftrightarrow> k_quota_reset_at k = Some today \<and> quota_spent k
     \<or> k_quota_reset_at k \<noteq> Some today \<and> (case k_daily_quota k of None \<Rightarrow> False | Some q \<Rightarrow> q \<le> 0)"
  "cooldown_remaining_seconds (roll_day today k) now = cooldown_remaining_seconds k now"
  "quota_spent (k\<lparr>k_cooldown_until := c, k_status := st\<rparr>) = quota_spent k"
  by (auto simp: roll_day_def quota_spent_def cooldown_remaining_seconds_def split: option.splits)

lemma remaining_cooldown_quiet:
  assumes "quiet ops"
  shows "remaining_cooldown ops now k s = (Inr (cooldown_remaining_seconds k now), s)"
  using assms by (cases "clk_of s") (simp add: remaining_cooldown_def quiet_def Let_def)

abbreviation midnight :: "env \<Rightarrow> app_config \<Rightarrow> instant \<Rightarrow> int" where
  "midnight e cfg now \<equiv> seconds_until_next_midnight (en_zone e) (qt_timezone (c_quota cfg)) now"

lemma standing_rolled:
  assumes "\<not> is_disabled k"
  shows "standing now today k =
    (if k_status (roll_day today k) \<in> {Cooling, Failed} \<and> 0 < cooldown_remaining_seconds k now
     then Cooling_for (cooldown_remaining_seconds k now)
     else if quota_spent (roll_day today k) then Spent else Eligible)"
  using assms unfolding standing_def roll_day_standing by simp

lemma scan_key_standing:
  assumes "quiet ops" and k: "key_row kid s = Some k" and "kid \<notin> kids"
  shows "fst (scan_key ops e cfg now today kid acc s) =
      (if standing now today k = Eligible then Pick
       else Skip (tally (midnight e cfg now) acc (standing now today k)))"
    and "undisturbed kids s (snd (scan_key ops e cfg now today kid acc s))"
proof -
  let ?f = "\<lambda>r. r\<lparr>k_cooldown_until := None, k_status := Active\<rparr>"
  let ?q = "\<lambda>r. r\<lparr>k_status := Quota_exceeded\<rparr>"
  note rq = remaining_cooldown_quiet [OF assms(1)]
  show "fst (scan_key ops e cfg now today kid acc s) =
      (if standing now today k = Eligible then Pick
       else Skip (tally (midnight e cfg now) acc (standing now today k)))"
  proof (cases "is_disabled k")
    case True
    then show ?thesis by (simp add: scan_key_def k standing_def tally_def)
  next
    case False
    then show ?thesis
      by (simp add: scan_key_def k standing_rolled Let_def rq roll_day_standing(3,4) check_quota_def tally_def)
  qed
  have u: "undisturbed kids t (on_key kid (roll_day today) t)" "undisturbed kids t (on_key kid ?f t)"
    "undisturbed kids t (on_key kid ?q t)" for t :: "'a app"
    using \<open>kid \<notin> kids\<close> keeps_roll_day keeps_status by (auto intro!: undisturbed_on_key)
  have cq: "undisturbed kids t (snd (check_quota e cfg now kid k' acc t))" for k' and t :: "'a app"
    using u by (simp add: check_quota_def)
  have cq': "undisturbed kids s (snd (check_quota e cfg now kid k' acc (on_key kid (roll_day today) s)))"
    "undisturbed kids s (snd (check_quota e cfg now kid k' acc (on_key kid ?f (on_key kid (roll_day today) s))))"
    for k'
    by (rule undisturbed_trans [OF u(1) cq], rule undisturbed_trans [OF u(1) undisturbed_trans [OF u(2) cq]])
  show "undisturbed kids s (snd (scan_key ops e cfg now today kid acc s))"
    using u cq' by (simp add: scan_key_def k Let_def rq)
qed

lemma keeps_unique: "undisturbed kids s s' \<Longrightarrow> kids' \<subseteq> kids \<Longrightarrow> undisturbed kids' s s'"
  by (auto simp: undisturbed_def)

lemma commit_app_quiet:
  assumes "faults (sess s) = []" and "unique_ok (cur (sess s))"
  shows "\<exists>s'. commit_app s = (True, s')"
  using assms by (simp add: commit_app_def commit_or_rollback_def commit_no_faults)

lemma scan_loop_standing:
  assumes "quiet ops" and "\<forall>i \<in> set idxs. key_row (ids ! i) s = Some (row i)"
    and "distinct (map ((!) ids) idxs)" and "faults (sess s) = []" and "unique_ok (cur (sess s))"
  shows "fst (scan_loop ops e cfg now today scope ids idxs acc s) =
    (case find (\<lambda>i. standing now today (row i) = Eligible) idxs of
       Some i \<Rightarrow> Inr (Inl (ids ! i))
     | None \<Rightarrow> Inr (Inr (foldl (tally (midnight e cfg now)) acc (map (\<lambda>i. standing now today (row i)) idxs))))"
  using assms(2-)
proof (induction idxs arbitrary: acc s)
  case Nil
  then show ?case by simp
next
  case (Cons i idxs)
  let ?kids = "set (map ((!) ids) idxs)"
  obtain st s' where sk: "scan_key ops e cfg now today (ids ! i) acc s = (st, s')"
    by (cases "scan_key ops e cfg now today (ids ! i) acc s")
  have row: "key_row (ids ! i) s = Some (row i)" and nin: "ids ! i \<notin> ?kids"
    using Cons.prems by auto
  have st: "st = (if standing now today (row i) = Eligible then Pick
       else Skip (tally (midnight e cfg now) acc (standing now today (row i))))"
    and u: "undisturbed ?kids s s'"
    using scan_key_standing [OF assms(1) row nin, of e cfg now today acc] sk by auto
  have f: "faults (sess s') = []" "unique_ok (cur (sess s'))"
    using u Cons.prems by (simp_all add: undisturbed_def)
  show ?case
  proof (cases "standing now today (row i) = Eligible")
    case True
    obtain s'' where "commit_app s' = (True, s'')" using commit_app_quiet [OF f] by blast
    with True show ?thesis by (simp add: sk st)
  next
    case False
    have "\<forall>j \<in> set idxs. key_row (ids ! j) s' = Some (row j)"
      using u Cons.prems(1) by (auto simp: undisturbed_def)
    with Cons.IH [of s'] f Cons.prems(2) have
      "fst (scan_loop ops e cfg now today scope ids idxs acc' s') =
        (case find (\<lambda>i. standing now today (row i) = Eligible) idxs of
           Some i \<Rightarrow> Inr (Inl (ids ! i))
         | None \<Rightarrow> Inr (Inr (foldl (tally (midnight e cfg now)) acc' (map (\<lambda>i. standing now today (row i)) idxs))))"
      for acc' by simp
    with False show ?thesis by (simp add: sk st split: option.split)
  qed
qed

text \<open>What the counters say after a scan without an eligible key.\<close>

lemma tally_simps:
  "tally m acc Out_of_service = acc\<lparr>sn_disabled_seen := sn_disabled_seen acc + 1\<rparr>"
  "tally m acc (Cooling_for r) = acc\<lparr>sn_cooling_seen := sn_cooling_seen acc + 1,
     sn_cooling_retry_after := Some (min_opt (sn_cooling_retry_after acc) r)\<rparr>"
  "tally m acc Spent = acc\<lparr>sn_quota_seen := sn_quota_seen acc + 1, sn_quota_retry_after := Some m\<rparr>"
  "tally m acc Eligible = acc"
  "cooling_times [] = []"
  "cooling_times (st # sts) = (case st of Cooling_for r \<Rightarrow> r # cooling_times sts | _ \<Rightarrow> cooling_times sts)"
  by (simp_all add: tally_def cooling_times_def split: standing.split)

lemma foldl_tally:
  shows "sn_disabled_seen (foldl (tally m) acc sts) =
      sn_disabled_seen acc + length (filter (\<lambda>st. st = Out_of_service) sts)"
    and "sn_quota_seen (foldl (tally m) acc sts) =
      sn_quota_seen acc + length (filter (\<lambda>st. st = Spent) sts)"
    and "sn_cooling_seen (foldl (tally m) acc sts) = sn_cooling_seen acc + length (cooling_times sts)"
  by (induction sts arbitrary: acc, simp_all add: tally_simps)
     (case_tac a, simp_all add: tally_simps)+

lemma foldl_tally_quota:
  "sn_quota_retry_after (foldl (tally m) acc sts) =
     (if Spent \<in> set sts then Some m else sn_quota_retry_after acc)"
proof (induction sts arbitrary: acc)
  case (Cons st sts)
  then show ?case by (cases st) (auto simp: tally_simps)
qed simp

lemma foldl_tally_cooling:
  "sn_cooling_retry_after (foldl (tally m) acc sts) =
     (case cooling_times sts of [] \<Rightarrow> sn_cooling_retry_after acc
      | rs \<Rightarrow> Some (case sn_cooling_retry_after acc of None \<Rightarrow> Min (set rs) | Some r \<Rightarrow> min r (Min (set rs))))"
proof (induction sts arbitrary: acc)
  case (Cons st sts)
  show ?case
  proof (cases st)
    case (Cooling_for r)
    show ?thesis
      by (cases "cooling_times sts"; cases "sn_cooling_retry_after acc")
         (simp_all add: Cooling_for tally_simps min_opt_def Cons min.assoc)
  qed (use Cons in \<open>simp_all add: tally_simps cong: list.case_cong option.case_cong\<close>)
qed (simp add: tally_simps)

lemma length_standings:
  "Eligible \<notin> set sts \<Longrightarrow> length sts = length (filter (\<lambda>st. st = Out_of_service) sts)
     + length (filter (\<lambda>st. st = Spent) sts) + length (cooling_times sts)"
proof (induction sts)
  case (Cons st sts)
  then show ?case by (cases st) (simp_all add: tally_simps)
qed (simp add: tally_simps)

lemma length_filter_full: "length (filter P xs) = length xs \<longleftrightarrow> (\<forall>x \<in> set xs. P x)"
proof (induction xs)
  case (Cons x xs)
  show ?case
  proof (cases "P x")
    case False
    then have "length (filter P (x # xs)) \<le> length xs" by simp
    then have "length (filter P (x # xs)) \<noteq> length (x # xs)" by (metis Suc_n_not_le_n length_Cons)
    with False show ?thesis by simp
  qed (use Cons in simp)
qed simp

lemma no_key_error_spec:
  assumes "Eligible \<notin> set sts" and "sts \<noteq> []"
  shows "no_key_error cid (length sts) (foldl (tally m) scan_init sts) = no_key_spec cid m sts"
proof -
  let ?d = "length (filter (\<lambda>st. st = Out_of_service) sts)"
  let ?q = "length (filter (\<lambda>st. st = Spent) sts)"
  have len: "length sts = ?d + ?q + length (cooling_times sts)"
    using assms(1) by (rule length_standings)
  have all: "?d = length sts \<longleftrightarrow> (\<forall>st \<in> set sts. st = Out_of_service)"
    by (rule length_filter_full)
  have q: "?q = 0 \<longleftrightarrow> Spent \<notin> set sts" by (auto simp: filter_empty_conv)
  show ?thesis
  proof (cases "?d = length sts")
    case True
    with all show ?thesis by (simp add: no_key_error_def no_key_spec_def foldl_tally scan_init_def)
  next
    case False
    then have some: "?q + length (cooling_times sts) \<noteq> 0" using len by linarith
    note simps = no_key_error_def no_key_spec_def foldl_tally foldl_tally_quota foldl_tally_cooling scan_init_def
    show ?thesis
    proof (cases "cooling_times sts")
      case Nil
      with some q have "Spent \<in> set sts" by auto
      with False all Nil len show ?thesis by (simp add: simps)
    next
      case (Cons r rs)
      with False all len q show ?thesis by (cases "Spent \<in> set sts") (auto simp: simps)
    qed
  qed
qed

text \<open>
  \<open>select\<close> implements the choice by standings: \<open>pool_rows\<close> are the rows of the pool in the order of
  their ids, \<open>rr_start\<close> the position of the rotation index.
\<close>

definition rr_start :: "int option \<Rightarrow> string \<Rightarrow> 'b app \<Rightarrow> nat" where
  "rr_start cid p s =
     (case rr s (scope_of cid p) of None \<Rightarrow> 0 | Some i \<Rightarrow> i) mod length (pool_ids cid p (sess s))"

definition pool_standings :: "env \<Rightarrow> app_config \<Rightarrow> int option \<Rightarrow> string \<Rightarrow> 'b app \<Rightarrow> standing list" where
  "pool_standings e cfg cid p s =
     map (\<lambda>kid. case key_row kid s of
         None \<Rightarrow> Out_of_service
       | Some k \<Rightarrow> standing (wall s) (today_in_timezone (en_zone e) (qt_timezone (c_quota cfg)) (wall s)) k)
       (pool_ids cid p (sess s))"

definition select_spec :: "env \<Rightarrow> app_config \<Rightarrow> int option \<Rightarrow> string \<Rightarrow> 'b app \<Rightarrow> fcam_error + int" where
  "select_spec e cfg cid p s =
     (let ids = pool_ids cid p (sess s); sts = pool_standings e cfg cid p s in
      if ids = [] then
        Inl (fcam 503 ''NO_KEY_CONFIGURED''
          (if cid = None then ''No key configured'' else ''No key configured for client''))
      else if \<forall>kid \<in> set ids. case key_row kid s of None \<Rightarrow> True | Some k \<Rightarrow> \<not> k_is_active k then
        Inl (fcam 503 ''ALL_KEYS_DISABLED''
          (if cid = None then ''All keys disabled'' else ''All keys disabled for client''))
      else (case find (\<lambda>i. sts ! i = Eligible) (rotation (rr_start cid p s) (length ids)) of
              Some i \<Rightarrow> Inr (ids ! i)
            | None \<Rightarrow> Inl (no_key_spec cid (midnight e cfg (wall s)) sts)))"

lemma find_cong_set: "(\<And>x. x \<in> set xs \<Longrightarrow> P x = Q x) \<Longrightarrow> find P xs = find Q xs"
  by (induction xs) auto

lemma no_key_spec_set: "set xs = set ys \<Longrightarrow> no_key_spec cid m xs = no_key_spec cid m ys"
proof -
  assume eq: "set xs = set ys"
  have "set (cooling_times xs) = set (cooling_times ys)"
    using eq by (simp add: cooling_times_def)
  moreover from this have "cooling_times xs = [] \<longleftrightarrow> cooling_times ys = []" by (metis set_empty)
  ultimately show ?thesis by (simp add: no_key_spec_def eq)
qed

lemma pool_ids_distinct: "ok_rows s \<Longrightarrow> distinct (pool_ids cid p (sess s))"
  unfolding pool_ids_def ok_rows_def distinct_sort by (simp add: distinct_map_filter)

lemma select_standing:
  assumes "quiet ops" and "ok_rows s" and "faults (sess s) = []" and "unique_ok (cur (sess s))"
  shows "fst (select ops e cfg cid p s) = select_spec e cfg cid p s"
proof -
  let ?ids = "pool_ids cid p (sess s)"
  let ?n = "length ?ids"
  let ?today = "today_in_timezone (en_zone e) (qt_timezone (c_quota cfg)) (wall s)"
  let ?sts = "pool_standings e cfg cid p s"
  let ?rot = "rotation (rr_start cid p s) ?n"
  have f: "next_fault (sess s) = (False, sess s)" using assms(3) by (simp add: next_fault_def)
  have rows: "\<exists>k. key_row kid s = Some k" if "kid \<in> set ?ids" for kid
    using pool_row [OF assms(2) that] by blast
  show ?thesis
  proof (cases "?ids = [] \<or> (\<forall>kid \<in> set ?ids. case key_row kid s of None \<Rightarrow> True | Some k \<Rightarrow> \<not> k_is_active k)")
    case True
    have "(\<exists>kid \<in> set ?ids. case key_row kid s of None \<Rightarrow> False | Some k \<Rightarrow> k_is_active k)
        \<longleftrightarrow> \<not> (\<forall>kid \<in> set ?ids. case key_row kid s of None \<Rightarrow> True | Some k \<Rightarrow> \<not> k_is_active k)"
      by (auto split: option.splits)
    with True show ?thesis
      by (cases "?ids = []") (auto simp: select_def f select_spec_def Let_def simp del: split_paired_Ex)
  next
    case False
    then have ne: "?ids \<noteq> []" and act: "\<exists>kid \<in> set ?ids. case key_row kid s of None \<Rightarrow> False | Some k \<Rightarrow> k_is_active k"
      by (auto split: option.splits)
    define row where "row i = the (key_row (?ids ! i) s)" for i
    have rng: "set ?rot = {..<?n}" using ne by (intro rotation_range) simp
    have len: "length ?rot = ?n" by (simp add: rotation_def)
    have dist: "distinct ?rot" using rng len by (metis card_lessThan distinct_card card_distinct)
    have dids: "distinct (map ((!) ?ids) ?rot)"
      using dist rng pool_ids_distinct [OF assms(2), of cid p]
      by (auto simp: distinct_map inj_on_def nth_eq_iff_index_eq)
    have row: "\<forall>i \<in> set ?rot. key_row (?ids ! i) s = Some (row i)"
      using rows rng by (fastforce simp: row_def)
    have st: "?sts ! i = standing (wall s) ?today (row i)" if "i \<in> set ?rot" for i
      using that row rng by (simp add: pool_standings_def)
    define loop where "loop = scan_loop ops e cfg (wall s) ?today (scope_of cid p) ?ids ?rot scan_init s"
    have loop: "fst loop = (case find (\<lambda>i. standing (wall s) ?today (row i) = Eligible) ?rot of
       Some i \<Rightarrow> Inr (Inl (?ids ! i))
     | None \<Rightarrow> Inr (Inr (foldl (tally (midnight e cfg (wall s))) scan_init (map (\<lambda>i. standing (wall s) ?today (row i)) ?rot))))"
      unfolding loop_def using assms(1) row dids assms(3,4) by (rule scan_loop_standing)
    have fnd: "find (\<lambda>i. standing (wall s) ?today (row i) = Eligible) ?rot
        = find (\<lambda>i. ?sts ! i = Eligible) ?rot"
      using st by (intro find_cong_set) simp
    have sel: "fst (select ops e cfg cid p s) = (case fst loop of
        Inl err \<Rightarrow> Inl err | Inr (Inl kid) \<Rightarrow> Inr kid
      | Inr (Inr acc) \<Rightarrow> Inl (no_key_error cid ?n acc))"
    proof -
      have "select ops e cfg cid p s = (case loop of
          (Inl err, s1) \<Rightarrow> (Inl err, s1) | (Inr (Inl kid), s1) \<Rightarrow> (Inr kid, s1)
        | (Inr (Inr acc), s1) \<Rightarrow> (Inl (no_key_error cid ?n acc), s1))"
        using ne act by (simp add: select_def f rr_start_def loop_def Let_def)
      then show ?thesis by (simp split: prod.split sum.split)
    qed
    show ?thesis
    proof (cases "find (\<lambda>i. ?sts ! i = Eligible) ?rot")
      case (Some i)
      with ne False show ?thesis
        by (auto simp: sel loop fnd select_spec_def Let_def split: option.splits)
    next
      case None
      let ?l = "map (\<lambda>i. standing (wall s) ?today (row i)) ?rot"
      have "Eligible \<notin> set ?l" using None st by (auto simp: find_None_all)
      moreover have "set ?l = set ?sts"
      proof -
        have "set ?l = (\<lambda>i. ?sts ! i) ` set ?rot" using st by (simp cong: image_cong)
        also have "\<dots> = (\<lambda>i. ?sts ! i) ` {..<length ?sts}" by (simp add: rng pool_standings_def)
        also have "\<dots> = set ?sts" by (auto simp: set_conv_nth)
        finally show ?thesis .
      qed
      moreover have "?l \<noteq> []" using len ne by auto
      ultimately have "no_key_error cid ?n (foldl (tally (midnight e cfg (wall s))) scan_init ?l)
          = no_key_spec cid (midnight e cfg (wall s)) ?sts"
        using no_key_error_spec [of ?l cid "midnight e cfg (wall s)"]
          no_key_spec_set [of ?l ?sts cid "midnight e cfg (wall s)"] len by simp
      with None ne False show ?thesis
        by (auto simp: sel loop fnd select_spec_def Let_def split: option.splits)
    qed
  qed
qed

subsection \<open>Fairness of the rotation\<close>

text \<open>How many positions the scan visits before position \<open>i\<close>.\<close>

definition gap :: "nat \<Rightarrow> nat \<Rightarrow> nat \<Rightarrow> nat" where
  "gap n start i = (i + (n - start mod n)) mod n"

lemma gap_less: "0 < n \<Longrightarrow> gap n start i < n"
  by (simp add: gap_def)

lemma gap_offset: "i < n \<Longrightarrow> (start + gap n start i) mod n = i"
proof -
  assume i: "i < n"
  then have "start mod n < n" by simp
  then have sum: "start mod n + (i + (n - start mod n)) = i + n" by linarith
  have "(start + gap n start i) mod n = (start mod n + (i + (n - start mod n))) mod n"
    by (simp add: gap_def mod_simps)
  then show ?thesis using i sum by simp
qed

lemma offset_inj:
  fixes a b :: nat
  assumes "(start + a) mod n = (start + b) mod n" and "a < n" and "b < n"
  shows "a = b"
proof -
  have le: "x = y" if "(start + x) mod n = (start + y) mod n" "x < n" "y \<le> x" for x y
  proof -
    have "n dvd start + x - (start + y)"
      using that(1,3) by (metis add_le_cancel_left mod_eq_dvd_iff_nat)
    then have "n dvd x - y" by simp
    moreover have "x - y < n" using that(2) by linarith
    ultimately have "x - y = 0" using nat_dvd_not_less by blast
    with that(3) show ?thesis by simp
  qed
  show ?thesis
  proof (cases "b \<le> a")
    case True
    with assms(1,2) show ?thesis by (rule le)
  next
    case False
    then have "b = a" using assms le [of b a] by simp
    then show ?thesis by simp
  qed
qed

lemma find_rotation_gap:
  assumes "find P (rotation start n) = Some j" and "P i" and "i < n"
  shows "j < n \<and> gap n start j \<le> gap n start i"
proof -
  have n: "0 < n" using assms(3) by simp
  obtain d where d: "d < n" "(start + d) mod n = j" "\<forall>m < d. \<not> P ((start + m) mod n)"
    using assms(1) by (auto simp: find_Some_iff rotation_def)
  have j: "j < n" using d(2) n by auto
  have "\<not> gap n start i < d"
    using d(3) gap_offset [OF assms(3), of start] assms(2) by auto
  moreover have "gap n start j = d"
  proof (rule offset_inj)
    show "(start + gap n start j) mod n = (start + d) mod n"
      using gap_offset [OF j, of start] d(2) by simp
  qed (use gap_less [OF n] d(1) in simp_all)
  ultimately show ?thesis using j by simp
qed

text \<open>Serving position \<open>j\<close> before \<open>i\<close> brings \<open>i\<close> nearer.\<close>

lemma gap_closer:
  assumes "j < n" and "i < n" and "gap n start j \<le> gap n start i" and "i \<noteq> j"
  shows "gap n (j + 1) i < gap n start i"
proof -
  let ?a = "gap n start j" and ?b = "gap n start i"
  have n: "0 < n" using assms(1) by simp
  have "?a \<noteq> ?b" using assms(4) gap_offset [OF assms(1), of start] gap_offset [OF assms(2), of start] by auto
  then have lt: "?a < ?b" using assms(3) by simp
  let ?c = "?b - ?a - 1"
  have "(j + 1 + ?c) mod n = ((start + ?a) mod n + (1 + ?c)) mod n"
    using gap_offset [OF assms(1), of start] by simp
  also have "\<dots> = (start + ?a + (1 + ?c)) mod n" by (rule mod_add_left_eq)
  also have "\<dots> = (start + ?b) mod n" using lt by simp
  also have "\<dots> = i" by (rule gap_offset [OF assms(2)])
  finally have "(j + 1 + ?c) mod n = (j + 1 + gap n (j + 1) i) mod n"
    using gap_offset [OF assms(2), of "j + 1"] by simp
  moreover have "?c < n" using gap_less [OF n, of start i] by linarith
  ultimately have "?c = gap n (j + 1) i"
    using gap_less [OF n, of "j + 1" i] by (rule offset_inj)
  then show ?thesis using lt by linarith
qed

text \<open>
  A series of selections for one scope, \<open>S j\<close> the state before the \<open>j\<close>-th: while position \<open>i\<close> stays
  eligible, it is served after at most as many selections as there are keys.
\<close>

definition selection_series ::
  "'b backend \<Rightarrow> env \<Rightarrow> app_config \<Rightarrow> int option \<Rightarrow> string \<Rightarrow> int list \<Rightarrow> nat \<Rightarrow> (nat \<Rightarrow> 'b app) \<Rightarrow> bool" where
  "selection_series ops e cfg cid p ids i S \<longleftrightarrow>
     (\<forall>j. ok_rows (S j) \<and> faults (sess (S j)) = [] \<and> unique_ok (cur (sess (S j)))
       \<and> pool_ids cid p (sess (S j)) = ids
       \<and> pool_standings e cfg cid p (S j) ! i = Eligible
       \<and> rr (S (Suc j)) (scope_of cid p) = rr (snd (select ops e cfg cid p (S j))) (scope_of cid p))"

lemma series_step:
  assumes "quiet ops" and "selection_series ops e cfg cid p ids i S" and i: "i < length ids"
    and ne: "fst (select ops e cfg cid p (S j)) \<noteq> Inr (ids ! i)"
  shows "gap (length ids) (rr_start cid p (S (Suc j))) i < gap (length ids) (rr_start cid p (S j)) i"
proof -
  let ?n = "length ids" and ?start = "rr_start cid p (S j)"
  have S: "ok_rows (S j)" "faults (sess (S j)) = []" "unique_ok (cur (sess (S j)))"
    "pool_ids cid p (sess (S j)) = ids" "pool_ids cid p (sess (S (Suc j))) = ids"
    and el: "pool_standings e cfg cid p (S j) ! i = Eligible"
    and rrS: "rr (S (Suc j)) (scope_of cid p) = rr (snd (select ops e cfg cid p (S j))) (scope_of cid p)"
    using assms(2) unfolding selection_series_def by blast+
  obtain r s' where sel: "select ops e cfg cid p (S j) = (r, s')" by (cases "select ops e cfg cid p (S j)")
  let ?fnd = "find (\<lambda>i. pool_standings e cfg cid p (S j) ! i = Eligible) (rotation ?start ?n)"
  have "0 < ?n" using i by (rule le_less_trans [OF le0])
  then have "i \<in> set (rotation ?start ?n)" using rotation_range [of ?n ?start] i by auto
  then obtain k where k: "?fnd = Some k" using el by (cases ?fnd) (auto simp: find_None_all)
  have spec: "r = select_spec e cfg cid p (S j)"
    using select_standing [OF assms(1) S(1-3), of e cfg cid p] sel by simp
  have act: "\<exists>kid \<in> set ids. case key_row kid (S j) of None \<Rightarrow> False | Some k \<Rightarrow> k_is_active k"
    using el i S(4) by (intro bexI [of _ "ids ! i"])
      (auto simp: pool_standings_def standing_def is_disabled_def split: option.splits if_splits)
  then have "\<not> (\<forall>kid \<in> set ids. case key_row kid (S j) of None \<Rightarrow> True | Some k \<Rightarrow> \<not> k_is_active k)"
    by (auto split: option.splits)
  moreover have "ids \<noteq> []" using i by auto
  ultimately have r: "r = Inr (ids ! k)"
    using spec k by (simp add: select_spec_def S(4) Let_def)
  then have "select ops e cfg cid p (S j) = (Inr (ids ! k), s')" using sel by simp
  from select_pick(2) [OF this] obtain idx where idx: "idx < ?n" "ids ! k = ids ! idx"
    "rr s' (scope_of cid p) = Some (idx + 1)" by (auto simp: S(4))
  have kk: "k < ?n \<and> gap ?n ?start k \<le> gap ?n ?start i"
    using find_rotation_gap [OF k] el i by simp
  have "k = idx"
    using idx(1,2) kk pool_ids_distinct [OF S(1), of cid p] S(4) by (simp add: nth_eq_iff_index_eq)
  then have "rr (S (Suc j)) (scope_of cid p) = Some (k + 1)" using rrS idx(3) sel by simp
  then have start': "rr_start cid p (S (Suc j)) = (k + 1) mod ?n" by (simp add: rr_start_def S(5))
  have "i \<noteq> k" using ne r sel by auto
  then have "gap ?n (k + 1) i < gap ?n ?start i" using gap_closer kk i by blast
  then show ?thesis unfolding start' by (simp add: gap_def)
qed

lemma series_served:
  assumes "quiet ops" and "selection_series ops e cfg cid p ids i S" and "i < length ids"
  shows "\<exists>j < length ids. fst (select ops e cfg cid p (S j)) = Inr (ids ! i)"
proof (rule ccontr)
  let ?g = "\<lambda>j. gap (length ids) (rr_start cid p (S j)) i"
  assume "\<not> ?thesis"
  then have step: "?g (Suc j) < ?g j" if "j < length ids" for j
    using series_step [OF assms] that by blast
  have "?g j + j \<le> ?g 0" if "j \<le> length ids" for j
    using that
  proof (induction j)
    case (Suc j)
    with step [of j] show ?case by simp
  qed simp
  from this [of "length ids"] have "length ids \<le> ?g 0" by simp
  moreover have "0 < length ids" using assms(3) by (rule le_less_trans [OF le0])
  ultimately show False using gap_less [of "length ids" "rr_start cid p (S 0)" i] by simp
qed

end
