(* ===== verification/Http_Util.thy ===== *)
theory Http_Util
  imports App_State
begin

text \<open>
  What \<open>app/core/forwarder.py\<close> does with headers and URLs before and after an exchange. A header
  list is an association list; \<open>header_get\<close> and \<open>header_items\<close> are \<open>httpx.Headers.get\<close> and
  \<open>httpx.Headers.items\<close>: names compare in lower case, repeated values are joined by a comma.
\<close>

type_synonym headers = "(string \<times> string) list"

definition header_values :: "headers \<Rightarrow> string \<Rightarrow> string list" where
  "header_values hs name = map snd (filter (\<lambda>(k, v). lower k = lower name) hs)"

definition header_get :: "headers \<Rightarrow> string \<Rightarrow> string option" where
  "header_get hs name =
     (case header_values hs name of [] \<Rightarrow> None | vs \<Rightarrow> Some (join '', '' vs))"

definition header_items :: "headers \<Rightarrow> headers" where
  "header_items hs =
     map (\<lambda>k. (k, join '', '' (header_values hs k))) (remdups (map (lower \<circ> fst) hs))"

text \<open>\<open>if value:\<close> for an optional string.\<close>

definition given :: "string option \<Rightarrow> string option" where
  "given x = (case x of None \<Rightarrow> None | Some s \<Rightarrow> or_none s)"

definition drop_request_headers :: "string list" where
  "drop_request_headers =
     [''authorization'', ''x-api-key'', ''host'', ''connection'', ''keep-alive'', ''proxy-authenticate'',
      ''proxy-authorization'', ''te'', ''trailers'', ''transfer-encoding'', ''upgrade'', ''x-forwarded-for'',
      ''x-forwarded-proto'', ''x-forwarded-host'', ''x-real-ip'']"

definition drop_response_headers :: "string list" where
  "drop_response_headers =
     [''connection'', ''keep-alive'', ''content-encoding'', ''content-length'', ''proxy-authenticate'',
      ''proxy-authorization'', ''te'', ''trailers'', ''transfer-encoding'', ''upgrade'', ''set-cookie'']"

definition copy_header :: "string \<Rightarrow> headers \<Rightarrow> headers \<Rightarrow> headers" where
  "copy_header name in_headers hs =
     (case given (header_get in_headers name) of None \<Rightarrow> hs | Some v \<Rightarrow> dict_set name v hs)"

definition sanitized_request_headers :: "headers \<Rightarrow> string \<Rightarrow> headers" where
  "sanitized_request_headers in_headers request_id =
     copy_header ''user-agent'' in_headers
       (copy_header ''content-type'' in_headers
         (copy_header ''accept'' in_headers [(''x-request-id'', request_id)]))"

text \<open>
  The headers of an upstream request: the sanitised ones, the provider's authentication, and not the
  hop-by-hop ones (the loop over \<open>upstream_headers.keys()\<close>).
\<close>

definition upstream_headers :: "headers \<Rightarrow> headers \<Rightarrow> headers" where
  "upstream_headers safe_headers auth =
     filter (\<lambda>(k, v). \<not> (lower k \<in> set drop_request_headers \<and> lower k \<notin> {''authorization'', ''x-api-key''}))
       (dict_update safe_headers auth)"

definition to_fastapi_response :: "http_response \<Rightarrow> http_response" where
  "to_fastapi_response upstream =
     upstream\<lparr>hr_headers :=
       foldl (\<lambda>hs (k, v). if lower k \<in> set drop_response_headers then hs else dict_set k v hs) []
         (header_items (hr_headers upstream))\<rparr>"

text \<open>\<open>_parse_retry_after\<close>, and the \<open>or\<close> that follows its calls: a zero counts as absent.\<close>

definition parse_retry_after :: "headers \<Rightarrow> int option" where
  "parse_retry_after hs =
     (case given (header_get hs ''retry-after'') of
        None \<Rightarrow> None
      | Some raw \<Rightarrow> (case py_int (strip raw) of None \<Rightarrow> None | Some n \<Rightarrow> Some (max n 0)))"

definition cooldown_for :: "headers \<Rightarrow> int \<Rightarrow> int" where
  "cooldown_for hs fallback =
     (case parse_retry_after hs of None \<Rightarrow> fallback | Some n \<Rightarrow> if n = 0 then fallback else n)"

subsection \<open>The version suffix of the upstream URL\<close>

text \<open>
  \<open>urllib.parse.urlsplit\<close> up to the query: leading control characters and spaces and all tabs and
  line breaks go, a scheme ends at the first colon, an authority follows two slashes. A network
  location with one kind of bracket only is a \<open>ValueError\<close> (\<open>None\<close>).
\<close>

definition is_alpha :: "char \<Rightarrow> bool" where
  "is_alpha c = (let n = (of_char c :: nat) in (65 \<le> n \<and> n \<le> 90) \<or> (97 \<le> n \<and> n \<le> 122))"

definition scheme_char :: "char \<Rightarrow> bool" where
  "scheme_char c \<longleftrightarrow> is_alpha c \<or> is_digit c \<or> c = CHR ''+'' \<or> c = CHR ''-'' \<or> c = CHR ''.''"

definition split_scheme :: "string \<Rightarrow> string \<times> string" where
  "split_scheme url =
     (case split_once (CHR '':'') url of
        (pre, Some rest) \<Rightarrow>
          (if pre \<noteq> [] \<and> is_alpha (hd pre) \<and> (\<forall>c \<in> set pre. scheme_char c) then (lower pre, rest)
           else ([], url))
      | (_, None) \<Rightarrow> ([], url))"

record url_parts =
  up_scheme :: string
  up_netloc :: string
  up_path :: string

definition urlsplit :: "string \<Rightarrow> url_parts option" where
  "urlsplit url =
     (let url0 = filter (\<lambda>c. c \<noteq> CHR 0x09 \<and> c \<noteq> CHR 0x0A \<and> c \<noteq> CHR 0x0D)
                   (lstrip (\<lambda>c. (of_char c :: nat) \<le> 32) url);
          (scheme, rest) = split_scheme url0;
          has_netloc = startswith rest ''//'';
          after = (if has_netloc then drop 2 rest else rest);
          stop = (\<lambda>c. c = CHR ''/'' \<or> c = CHR ''?'' \<or> c = CHR ''#'');
          netloc = (if has_netloc then takeWhile (\<lambda>c. \<not> stop c) after else []);
          rest1 = (if has_netloc then dropWhile (\<lambda>c. \<not> stop c) after else rest);
          path = fst (split_once (CHR ''?'') (fst (split_once (CHR ''#'') rest1)))
      in if (CHR ''['' \<in> set netloc) \<noteq> (CHR '']'' \<in> set netloc) then None
         else Some \<lparr>up_scheme = scheme, up_netloc = netloc, up_path = path\<rparr>)"

text \<open>\<open>urlunsplit((scheme, netloc, path, "", ""))\<close> for a network location that is not empty.\<close>

definition urlunsplit :: "url_parts \<Rightarrow> string" where
  "urlunsplit u =
     (let path = (if up_path u \<noteq> [] \<and> \<not> startswith (up_path u) ''/'' then CHR ''/'' # up_path u else up_path u)
      in up_scheme u @ ''://'' @ up_netloc u @ path)"

abbreviation rstrip_slash :: "string \<Rightarrow> string" where
  "rstrip_slash \<equiv> rstrip (\<lambda>c. c = CHR ''/'')"

definition strip_firecrawl_version_suffix :: "string \<Rightarrow> (string \<times> string option) option" where
  "strip_firecrawl_version_suffix base_url =
     (let normalized = rstrip_slash base_url in
      case urlsplit normalized of
        None \<Rightarrow> None
      | Some parts \<Rightarrow>
          if up_scheme parts = [] \<or> up_netloc parts = [] then Some (normalized, None)
          else
            (let path = rstrip_slash (up_path parts);
                 version = (if endswith path ''/v1'' then Some ''v1''
                            else if endswith path ''/v2'' then Some ''v2'' else None);
                 path1 = (if version = None then path else take (length path - 3) path);
                 stripped = urlunsplit (parts\<lparr>up_path := path1\<rparr>)
             in Some (rstrip_slash stripped, version)))"

subsection \<open>Facts\<close>

lemma given_Some: "given x = Some v \<longleftrightarrow> x = Some v \<and> v \<noteq> []"
  by (auto simp: given_def or_none_def split: option.splits)

lemma parse_retry_after_nonneg: "parse_retry_after hs = Some n \<Longrightarrow> 0 \<le> n"
  by (auto simp: parse_retry_after_def split: option.splits)

lemma cooldown_for_positive: "0 < fallback \<Longrightarrow> 0 < cooldown_for hs fallback"
  by (auto simp: cooldown_for_def split: option.splits dest: parse_retry_after_nonneg)

lemma copy_header_keys: "fst ` set (copy_header name inh hs) \<subseteq> insert name (fst ` set hs)"
  by (auto simp: copy_header_def fst_dict_set split: option.splits)

lemma copy_header_distinct: "distinct (map fst hs) \<Longrightarrow> distinct (map fst (copy_header name inh hs))"
  by (auto simp: copy_header_def distinct_dict_set split: option.splits)

lemma sanitized_keys:
  "fst ` set (sanitized_request_headers inh rid)
     \<subseteq> {''x-request-id'', ''accept'', ''content-type'', ''user-agent''}"
proof -
  let ?a = "copy_header ''accept'' inh [(''x-request-id'', rid)]"
  have "fst ` set ?a \<subseteq> {''accept'', ''x-request-id''}"
    using copy_header_keys [of "''accept''" inh "[(''x-request-id'', rid)]"] by simp
  then have "fst ` set (copy_header ''content-type'' inh ?a) \<subseteq> {''content-type'', ''accept'', ''x-request-id''}"
    using copy_header_keys [of "''content-type''" inh ?a] by blast
  then show ?thesis
    using copy_header_keys [of "''user-agent''" inh "copy_header ''content-type'' inh ?a"]
    unfolding sanitized_request_headers_def by blast
qed

lemma sanitized_distinct: "distinct (map fst (sanitized_request_headers inh rid))"
  by (simp add: sanitized_request_headers_def copy_header_distinct)

lemma copy_header_other: "n \<noteq> name \<Longrightarrow> map_of (copy_header name inh hs) n = map_of hs n"
  by (auto simp: copy_header_def map_of_dict_set split: option.splits)

lemma sanitized_request_id:
  "map_of (sanitized_request_headers inh rid) ''x-request-id'' = Some rid"
  by (simp add: sanitized_request_headers_def copy_header_other)

text \<open>
  With an authentication header whose name is not among the sanitised ones, an upstream request has
  that header, once, and no other credential.
\<close>

lemma upstream_headers_auth:
  assumes "a \<in> {''authorization'', ''x-api-key''}"
  shows "filter (\<lambda>(k, v). lower k \<in> {''authorization'', ''x-api-key''})
    (upstream_headers (sanitized_request_headers inh rid) [(a, v)]) = [(a, v)]"
proof -
  let ?s = "sanitized_request_headers inh rid"
  have low: "lower a = a" using assms by (auto simp: lower_def lower_char_def Let_def)
  have keys: "lower k \<notin> {''authorization'', ''x-api-key''}" if "(k, w) \<in> set ?s" for k w
  proof -
    have "k \<in> {''x-request-id'', ''accept'', ''content-type'', ''user-agent''}"
      using sanitized_keys [of inh rid] that by force
    then show ?thesis by (auto simp: lower_def lower_char_def Let_def)
  qed
  then have "a \<notin> fst ` set ?s" using assms low by force
  then have "dict_update ?s [(a, v)] = ?s @ [(a, v)]" by (simp add: dict_update_def dict_set_new)
  moreover have "filter (\<lambda>(k, v). lower k \<in> {''authorization'', ''x-api-key''}) (filter Q ?s) = []" for Q
    using keys by (auto simp: filter_empty_conv)
  ultimately show ?thesis using assms low by (auto simp: upstream_headers_def)
qed

end
