(* ===== verification/Credit_Estimator.thy ===== *)
theory Credit_Estimator
  imports Http_Util
begin

text \<open>
  \<open>app/core/credit_estimator.py\<close>: what a request is estimated to cost, and the local update of a
  key's cached credits. An exception inside the estimate is \<open>None\<close>.
\<close>

definition credit_cost_map :: "(string \<times> int) list" where
  "credit_cost_map =
     [(''/v1/scrape'', 1), (''/v1/crawl'', 5), (''/v1/search'', 1), (''/v1/map'', 1),
      (''/v2/scrape'', 1), (''/v2/crawl'', 5), (''/v2/map'', 1), (''/v2/extract'', 2),
      (''/v2/batch/scrape'', 1)]"

text \<open>
  \<open>int(x)\<close> for a JSON value. A float literal is cut off at the decimal point; one that overflows a
  double, like a string that is no integer and a value of another type, raises.
\<close>

definition float_trunc :: "string \<Rightarrow> int option" where
  "float_trunc lit =
     (let neg = (take 1 lit = ''-'');
          body = (if neg then drop 1 lit else lit);
          mant = takeWhile (\<lambda>c. c \<noteq> CHR ''e'' \<and> c \<noteq> CHR ''E'') body;
          ex = (case drop (length mant) body of [] \<Rightarrow> 0 | _ # e \<Rightarrow> (case py_int e of None \<Rightarrow> 0 | Some n \<Rightarrow> n));
          (whole, frac0) = split_once (CHR ''.'') mant;
          frac = (case frac0 of None \<Rightarrow> [] | Some f \<Rightarrow> f);
          digits = int (read_digits (whole @ frac));
          shift = ex - int (length frac);
          magnitude = (if 0 \<le> shift then digits * 10 ^ nat (min shift 400) else digits div 10 ^ nat (- shift))
      in if 2 ^ 1024 - 2 ^ 970 \<le> magnitude then None
         else Some (if neg then - magnitude else magnitude))"

definition json_int :: "json \<Rightarrow> int option" where
  "json_int v =
     (case v of
        JInt i \<Rightarrow> Some i
      | JBool b \<Rightarrow> Some (if b then 1 else 0)
      | JFloat lit \<Rightarrow> float_trunc lit
      | JStr t \<Rightarrow> py_int t
      | _ \<Rightarrow> None)"

text \<open>\<open>response_data.get("data", {}).get(field, 1)\<close>; \<open>None\<close> is the \<open>AttributeError\<close> of a value without \<open>get\<close>.\<close>

definition json_get :: "json \<Rightarrow> string \<Rightarrow> json \<Rightarrow> json option" where
  "json_get j k dflt =
     (case j of JObj d \<Rightarrow> Some (case map_of d k of None \<Rightarrow> dflt | Some v \<Rightarrow> v) | _ \<Rightarrow> None)"

definition data_field :: "json \<Rightarrow> string \<Rightarrow> json option" where
  "data_field response_data field =
     (case json_get response_data ''data'' (JObj []) of
        None \<Rightarrow> None
      | Some d \<Rightarrow> json_get d field (JInt 1))"

definition base_cost :: "string \<Rightarrow> int" where
  "base_cost endpoint = (case map_of credit_cost_map endpoint of None \<Rightarrow> 1 | Some c \<Rightarrow> c)"

definition count_or_one :: "json \<Rightarrow> int" where
  "count_or_one v = max (case json_int v of None \<Rightarrow> 1 | Some n \<Rightarrow> n) 1"

definition estimate_credit_cost :: "string \<Rightarrow> json option \<Rightarrow> int option" where
  "estimate_credit_cost endpoint response_data =
     (case response_data of
        Some rd \<Rightarrow>
          if substr ''/crawl'' endpoint \<and> truthy rd then
            (case data_field rd ''total'' of
               None \<Rightarrow> None
             | Some pages \<Rightarrow> Some (max (base_cost endpoint) (count_or_one pages)))
          else if substr ''/batch/'' endpoint \<and> truthy rd then
            (case data_field rd ''count'' of
               None \<Rightarrow> None
             | Some c \<Rightarrow> Some (max (base_cost endpoint * count_or_one c) 1))
          else Some (base_cost endpoint)
      | None \<Rightarrow> Some (base_cost endpoint))"

definition normalize_endpoint :: "string \<Rightarrow> string" where
  "normalize_endpoint path =
     (if path = [] then path
      else
        (let path_no_query = fst (split_once (CHR ''?'') path) in
         if path_no_query = [] \<or> path_no_query = ''/'' then path_no_query
         else
           (let parts = split_on (CHR ''/'') path_no_query in
            if 4 \<le> length parts \<and> parts ! 2 = ''crawl'' then join ''/'' (take 3 parts)
            else if 5 \<le> length parts \<and> parts ! 2 = ''batch'' then join ''/'' (take 4 parts)
            else path_no_query)))"

definition update_local_credits :: "int \<Rightarrow> int \<Rightarrow> 'b app \<Rightarrow> 'b app" where
  "update_local_credits kid delta s =
     (case key_row kid s of
        None \<Rightarrow> s
      | Some k \<Rightarrow>
          (case k_cached_remaining k of
             None \<Rightarrow> s
           | Some old \<Rightarrow>
               (let new = max 0 (old + delta) in
                if new = old then s
                else snd (commit_app (on_key kid (\<lambda>r. r\<lparr>k_cached_remaining := Some new\<rparr>) s)))))"

subsection \<open>Facts\<close>

lemma base_cost_pos: "1 \<le> base_cost endpoint"
  by (auto simp: base_cost_def credit_cost_map_def split: option.splits if_splits)

lemma estimate_at_least_base:
  assumes "estimate_credit_cost endpoint rd = Some c"
  shows "base_cost endpoint \<le> c"
proof -
  have "base_cost endpoint \<le> base_cost endpoint * count_or_one v" for v
    using base_cost_pos [of endpoint] by (simp add: count_or_one_def mult_le_cancel_left1)
  then show ?thesis
    using assms by (auto simp: estimate_credit_cost_def max_def split: option.splits if_splits)
       (meson order_trans)+
qed

lemma estimate_pos: "estimate_credit_cost endpoint rd = Some c \<Longrightarrow> 1 \<le> c"
  using estimate_at_least_base base_cost_pos order_trans by blast

lemma keeps_credits [ident]: "keeps_ident (\<lambda>r. r\<lparr>k_cached_remaining := c\<rparr>)"
  by (simp add: keeps_ident_def key_ident_def)

lemma steady_update_local_credits [steady_intros]: "steady held s (update_local_credits kid delta s)"
  by (auto simp: update_local_credits_def Let_def steady_refl split: option.splits
      intro: steady_trans [OF steady_on_key [OF keeps_credits] steady_commit])

text \<open>Paths of a crawl or batch job are priced as the call that started it.\<close>

lemma split_on_no_sep: "c \<notin> set xs \<Longrightarrow> split_on c xs = [xs]"
  by (induction xs) auto

lemma split_on_append: "split_on c (xs @ c # ys) = split_on c xs @ split_on c ys"
proof (induction xs)
  case (Cons x xs)
  have "split_on c xs \<noteq> []" by (induction xs) (auto split: list.splits)
  with Cons show ?case by (auto split: list.splits)
qed simp

lemma normalize_job_path:
  assumes "job \<noteq> []" and "set job \<inter> {CHR ''/'', CHR ''?''} = {}"
  shows "normalize_endpoint (''/v2/crawl/'' @ job) = ''/v2/crawl''"
    and "normalize_endpoint (''/v2/batch/scrape/'' @ job) = ''/v2/batch/scrape''"
proof -
  have q: "takeWhile (\<lambda>x. x \<noteq> CHR ''?'') job = job" "dropWhile (\<lambda>x. x \<noteq> CHR ''?'') job = []"
    using assms(2) by (auto simp: takeWhile_eq_all_conv dropWhile_eq_Nil_conv)
  have s: "split_on (CHR ''/'') job = [job]" using assms(2) by (intro split_on_no_sep) auto
  show "normalize_endpoint (''/v2/crawl/'' @ job) = ''/v2/crawl''"
    by (simp add: normalize_endpoint_def split_once_def q s Let_def)
  show "normalize_endpoint (''/v2/batch/scrape/'' @ job) = ''/v2/batch/scrape''"
    by (simp add: normalize_endpoint_def split_once_def q s Let_def)
qed

end
