(* ===== verification/Forwarder.thy ===== *)
theory Forwarder
  imports Key_Pool Credit_Estimator
begin

text \<open>
  \<open>Forwarder\<close> of \<open>app/core/forwarder.py\<close>: the choice of the upstream service, the marking of keys
  after an answer, the forwarding loop over the key pool, the pinned variant and the key test.
\<close>

subsection \<open>The forwarder object\<close>

record forwarder =
  fw_config :: app_config
  fw_upstream_base_url :: string
  fw_upstream_version :: "string option"
  fw_master_key :: "bytes option"

definition make_forwarder :: "crypto \<Rightarrow> app_config \<Rightarrow> secrets \<Rightarrow> forwarder option" where
  "make_forwarder cr cfg secrets =
     map_option (\<lambda>(url, version).
         \<lparr>fw_config = cfg, fw_upstream_base_url = url, fw_upstream_version = version,
          fw_master_key = map_option (derive_master_key_bytes cr) (set_secret (sec_master_key secrets))\<rparr>)
       (strip_firecrawl_version_suffix (fc_base_url (c_firecrawl cfg)))"

text \<open>\<open>getattr(self._config.providers, provider, None)\<close>.\<close>

definition provider_of :: "app_config \<Rightarrow> string \<Rightarrow> provider_config option" where
  "provider_of cfg provider = (if provider = ''exa'' then Some (c_exa cfg) else None)"

definition provider_base_url :: "forwarder \<Rightarrow> string \<Rightarrow> fcam_error + string" where
  "provider_base_url fw provider =
     (if provider = ''firecrawl'' then Inr (fw_upstream_base_url fw)
      else
        (let not_configured = Inl (fcam 400 ''PROVIDER_NOT_CONFIGURED''
               (''Provider '' @ [CHR 0x27] @ provider @ [CHR 0x27] @ '' is not configured or enabled'')) in
         case provider_of (fw_config fw) provider of
           None \<Rightarrow> not_configured
         | Some pc \<Rightarrow> if pv_enabled pc then Inr (rstrip_slash (pv_base_url pc)) else not_configured))"

definition provider_timeout :: "forwarder \<Rightarrow> string \<Rightarrow> int" where
  "provider_timeout fw provider =
     (if provider = ''firecrawl'' then fc_timeout (c_firecrawl (fw_config fw))
      else (case provider_of (fw_config fw) provider of
              Some pc \<Rightarrow> pv_timeout pc | None \<Rightarrow> fc_timeout (c_firecrawl (fw_config fw))))"

definition provider_max_retries :: "forwarder \<Rightarrow> string \<Rightarrow> int" where
  "provider_max_retries fw provider =
     (if provider = ''firecrawl'' then fc_max_retries (c_firecrawl (fw_config fw))
      else (case provider_of (fw_config fw) provider of
              Some pc \<Rightarrow> pv_max_retries pc | None \<Rightarrow> fc_max_retries (c_firecrawl (fw_config fw))))"

definition provider_auth_header :: "forwarder \<Rightarrow> string \<Rightarrow> string \<Rightarrow> headers" where
  "provider_auth_header fw provider plaintext_key =
     (if provider = ''firecrawl'' then [(''authorization'', ''Bearer '' @ plaintext_key)]
      else (case provider_of (fw_config fw) provider of
              Some pc \<Rightarrow> if pv_auth_mode pc = ''x-api-key'' then [(''x-api-key'', plaintext_key)]
                         else [(''authorization'', ''Bearer '' @ plaintext_key)]
            | None \<Rightarrow> [(''authorization'', ''Bearer '' @ plaintext_key)]))"

subsection \<open>Marking a key\<close>

text \<open>The guard \<open>not key.is_active or key.status == "disabled"\<close> is \<open>is_disabled\<close>.\<close>

definition disable_key_decrypt_failed :: "int \<Rightarrow> 'b app \<Rightarrow> 'b app" where
  "disable_key_decrypt_failed kid s =
     snd (commit_app (on_key kid (\<lambda>k. k\<lparr>k_status := Decrypt_failed, k_is_active := False\<rparr>) s))"

definition mark_active :: "int \<Rightarrow> 'b app \<Rightarrow> 'b app" where
  "mark_active kid s =
     (case key_row kid s of
        None \<Rightarrow> s
      | Some k \<Rightarrow>
          if is_disabled k then s
          else snd (commit_app (on_key kid (\<lambda>k. k\<lparr>k_status := Active, k_cooldown_until := None\<rparr>) s)))"

definition mark_cooling :: "'b backend \<Rightarrow> int \<Rightarrow> int \<Rightarrow> 'b app \<Rightarrow> 'b app" where
  "mark_cooling ops kid cooldown s =
     (case key_row kid s of
        None \<Rightarrow> s
      | Some k \<Rightarrow>
          if is_disabled k then s
          else
            (case commit_app (on_key kid
                (\<lambda>k. k\<lparr>k_status := Cooling, k_cooldown_until := Some (wall s + seconds cooldown)\<rparr>) s) of
               (False, s1) \<Rightarrow> s1
             | (True, s1) \<Rightarrow>
                 (let s2 = metered (record_key_cooldown kid) s1
                  in s2\<lparr>kback := snd (be_set_cooldown ops (clk_of s2) kid cooldown (kback s2))\<rparr>)))"

definition disable_key :: "int \<Rightarrow> 'b app \<Rightarrow> 'b app" where
  "disable_key kid s =
     snd (commit_app (on_key kid (\<lambda>k. k\<lparr>k_status := Disabled, k_is_active := False\<rparr>) s))"

definition bump_failures :: "app_config \<Rightarrow> int \<Rightarrow> 'b app \<Rightarrow> int \<times> 'b app" where
  "bump_failures cfg kid s =
     (let now = wall s;
          (count, first_at) = (case failures s kid of None \<Rightarrow> (0, now) | Some p \<Rightarrow> p);
          (count1, first1) =
            (if seconds (fc_failure_window_seconds (c_firecrawl cfg)) < now - first_at then (0, now)
             else (count, first_at))
      in (count1 + 1, s\<lparr>failures := (failures s)(kid \<mapsto> (count1 + 1, first1))\<rparr>))"

definition record_failure :: "app_config \<Rightarrow> int \<Rightarrow> 'b app \<Rightarrow> 'b app" where
  "record_failure cfg kid s =
     (case key_row kid s of
        None \<Rightarrow> s
      | Some k \<Rightarrow>
          if is_disabled k then s
          else
            (let (count, s1) = bump_failures cfg kid s in
             if count < fc_failure_threshold (c_firecrawl cfg) then s1
             else
               (let cooldown = max (fc_failed_cooldown_seconds (c_firecrawl cfg)) 1
                in snd (commit_app (on_key kid
                     (\<lambda>k. k\<lparr>k_status := Failed, k_cooldown_until := Some (wall s + seconds cooldown)\<rparr>) s1)))))"

text \<open>\<open>_consume_quota_on_success\<close>: the client's and the key's counters and one commit for both.\<close>

definition use_client :: "instant \<Rightarrow> client \<Rightarrow> client" where
  "use_client now c =
     c\<lparr>c_daily_usage := (if c_daily_quota c \<noteq> None then c_daily_usage c + 1 else c_daily_usage c),
       c_last_used_at := Some now\<rparr>"

definition use_key :: "instant \<Rightarrow> api_key \<Rightarrow> api_key" where
  "use_key now k =
     (let k1 = k\<lparr>k_daily_usage := k_daily_usage k + 1, k_total_requests := k_total_requests k + 1,
                 k_last_used_at := Some now\<rparr>
      in if quota_spent k1 then k1\<lparr>k_status := Quota_exceeded\<rparr> else k1)"

definition quota_gauges :: "int \<Rightarrow> int \<Rightarrow> 'b app \<Rightarrow> 'b app" where
  "quota_gauges cid kid s =
     (let s1 = (case get_client cid (sess s) of
                  Some c \<Rightarrow> (case c_daily_quota c of
                     Some q \<Rightarrow> metered (set_quota_remaining ''client'' cid (max (q - c_daily_usage c) 0)) s
                   | None \<Rightarrow> s)
                | None \<Rightarrow> s)
      in case key_row kid s1 of
           Some k \<Rightarrow> (case k_daily_quota k of
              Some q \<Rightarrow> metered (set_quota_remaining ''key'' kid (max (q - k_daily_usage k) 0)) s1
            | None \<Rightarrow> s1)
         | None \<Rightarrow> s1)"

definition consume_quota_on_success :: "int \<Rightarrow> int \<Rightarrow> 'b app \<Rightarrow> (fcam_error + unit) \<times> 'b app" where
  "consume_quota_on_success cid kid s =
     (case commit_app (on_key kid (use_key (wall s)) (on_client cid (use_client (wall s)) s)) of
        (True, s1) \<Rightarrow> (Inr (), quota_gauges cid kid s1)
      | (False, s1) \<Rightarrow> (Inl db_unavailable, s1))"

subsection \<open>One attempt\<close>

text \<open>The arguments of \<open>forward\<close>, and its result.\<close>

record fwd_call =
  fa_request_id :: string
  fa_client_id :: int
  fa_method :: string
  fa_path :: string
  fa_body :: "json option"
  fa_headers :: headers
  fa_pinned :: "int option"
  fa_provider :: string

record forward_result =
  fr_response :: http_response
  fr_upstream_status :: "int option"
  fr_api_key_id :: "int option"
  fr_retry_count :: int

definition total_attempts :: "forwarder \<Rightarrow> string \<Rightarrow> nat" where
  "total_attempts fw provider = nat (max (provider_max_retries fw provider) 0) + 1"

definition details_of :: "(string \<times> json) list \<Rightarrow> fcam_error \<Rightarrow> fcam_error" where
  "details_of d e = e\<lparr>e_details := Some (JObj d)\<rparr>"

definition base_url_detail :: "forwarder \<Rightarrow> string \<times> json" where
  "base_url_detail fw = (''base_url'', JStr (fc_base_url (c_firecrawl (fw_config fw))))"

definition call_details :: "forwarder \<Rightarrow> fwd_call \<Rightarrow> (string \<times> json) list" where
  "call_details fw call =
     [(''attempts'', JInt (int (total_attempts fw (fa_provider call)))),
      (''method'', JStr (fa_method call)), (''upstream_path'', JStr (fa_path call))]"

definition timeout_error :: "forwarder \<Rightarrow> fwd_call \<Rightarrow> fcam_error" where
  "timeout_error fw call =
     details_of ([base_url_detail fw, (''timeout_s'', JInt (fc_timeout (c_firecrawl (fw_config fw))))]
         @ call_details fw call)
       (fcam 504 ''UPSTREAM_TIMEOUT'' ''Upstream timeout'')"

definition unavailable_error :: "forwarder \<Rightarrow> fwd_call \<Rightarrow> string \<Rightarrow> fcam_error" where
  "unavailable_error fw call exc =
     details_of (base_url_detail fw # call_details fw call @ [(''error'', JStr exc)])
       (fcam 503 ''UPSTREAM_UNAVAILABLE'' ''Upstream unavailable'')"

definition busy_error :: "forwarder \<Rightarrow> fwd_call \<Rightarrow> int option \<Rightarrow> fcam_error" where
  "busy_error fw call kid =
     details_of ((''client_id'', JInt (fa_client_id call)) #
         (case kid of None \<Rightarrow> [] | Some i \<Rightarrow> [(''api_key_id'', JInt i)])
         @ base_url_detail fw # call_details fw call)
       (fcam 503 ''ALL_KEYS_BUSY'' ''All keys busy or rate-limited'')"

definition decrypt_failed_error :: fcam_error where
  "decrypt_failed_error =
     fcam 503 ''KEY_DECRYPT_FAILED'' ''Failed to decrypt API key; check FCAM_MASTER_KEY''"

text \<open>
  The \<open>try\<close> block around the exchange (lines 322 to 404 and 535 to 608): decrypt, send, mark the
  key on a failure; \<open>finally\<close> gives the lease back.
\<close>

datatype exchange = Undecryptable | Answered http_response | Timeout | Http_error string

definition upstream_request ::
  "forwarder \<Rightarrow> fwd_call \<Rightarrow> string \<Rightarrow> string \<Rightarrow> up_request" where
  "upstream_request fw call base_url plaintext =
     \<lparr>rq_method = fa_method call, rq_base_url = base_url, rq_path = fa_path call,
      rq_headers = upstream_headers (sanitized_request_headers (fa_headers call) (fa_request_id call))
                     (provider_auth_header fw (fa_provider call) plaintext),
      rq_body = fa_body call, rq_timeout = provider_timeout fw (fa_provider call)\<rparr>"

definition release_lease :: "'b backend \<Rightarrow> lease \<Rightarrow> 'b app \<Rightarrow> 'b app" where
  "release_lease ops l s = s\<lparr>kback := be_release ops (clk_of s) l (kback s)\<rparr>"

definition exchange_body ::
  "env \<Rightarrow> forwarder \<Rightarrow> fwd_call \<Rightarrow> bytes \<Rightarrow> string \<Rightarrow> api_key \<Rightarrow> 'b app \<Rightarrow> exchange \<times> 'b app" where
  "exchange_body e fw call master_key base_url k s =
     (case decrypt_api_key (en_crypto e) master_key (k_ciphertext k) of
        None \<Rightarrow> (Undecryptable, disable_key_decrypt_failed (k_id k) s)
      | Some plaintext \<Rightarrow>
          (case send_upstream e (upstream_request fw call base_url plaintext) s of
             (Reply resp, s1) \<Rightarrow> (Answered resp, s1)
           | (Timed_out, s1) \<Rightarrow> (Timeout, record_failure (fw_config fw) (k_id k) s1)
           | (Http_failed exc, s1) \<Rightarrow> (Http_error exc, record_failure (fw_config fw) (k_id k) s1)))"

definition run_exchange ::
  "'b backend \<Rightarrow> env \<Rightarrow> forwarder \<Rightarrow> fwd_call \<Rightarrow> bytes \<Rightarrow> string \<Rightarrow> api_key \<Rightarrow> lease \<Rightarrow> 'b app
     \<Rightarrow> exchange \<times> 'b app" where
  "run_exchange ops e fw call master_key base_url k l s =
     (let (r, s1) = exchange_body e fw call master_key base_url k s in (r, release_lease ops l s1))"

subsection \<open>After an answer\<close>

text \<open>The local credit estimation of lines 436 to 478 and 647 to 689, and whether it changed the row.\<close>

definition response_data :: "http_response \<Rightarrow> json option" where
  "response_data resp =
     (if startswith (lower (case header_get (hr_headers resp) ''content-type'' of None \<Rightarrow> [] | Some v \<Rightarrow> v))
           ''application/json''
      then loads (hr_body resp) else None)"

definition estimation_on :: "app_config \<Rightarrow> string \<Rightarrow> bool" where
  "estimation_on cfg method \<longleftrightarrow>
     cm_enabled (c_credit_monitoring cfg) \<and> le_enabled (cm_local_estimation (c_credit_monitoring cfg))
     \<and> le_sync_on_request (cm_local_estimation (c_credit_monitoring cfg)) \<and> upper method \<noteq> ''GET''"

definition estimate_credits ::
  "app_config \<Rightarrow> fwd_call \<Rightarrow> http_response \<Rightarrow> int \<Rightarrow> 'b app \<Rightarrow> bool \<times> 'b app" where
  "estimate_credits cfg call resp kid s =
     (let endpoint = normalize_endpoint (fa_path call);
          cached = (case key_row kid s of None \<Rightarrow> None | Some k \<Rightarrow> k_cached_remaining k)
      in if \<not> estimation_on cfg (fa_method call) \<or> map_of credit_cost_map endpoint = None then (False, s)
         else
           (case cached of
              None \<Rightarrow> (False, s)
            | Some old \<Rightarrow>
                (case estimate_credit_cost endpoint (response_data resp) of
                   None \<Rightarrow> (False, s)
                 | Some cost \<Rightarrow>
                     (let new = max 0 (old - cost) in
                      if new = old then (False, s)
                      else (True, on_key kid (\<lambda>r. r\<lparr>k_cached_remaining := Some new\<rparr>) s)))))"

definition is_success :: "http_response \<Rightarrow> bool" where
  "is_success resp \<longleftrightarrow> 200 \<le> hr_status resp \<and> hr_status resp < 300"

text \<open>Lines 436 to 490 and 647 to 701: what a final answer does to the state.\<close>

definition account_success ::
  "app_config \<Rightarrow> fwd_call \<Rightarrow> http_response \<Rightarrow> int \<Rightarrow> 'b app \<Rightarrow> (fcam_error + unit) \<times> 'b app" where
  "account_success cfg call resp kid s =
     (if is_success resp then
        (let (credit_changed, s1) = estimate_credits cfg call resp kid s in
         if qt_count_mode (c_quota cfg) = ''success'' then
           consume_quota_on_success (fa_client_id call) kid s1
         else if credit_changed then (Inr (), snd (commit_app s1))
         else (Inr (), s1))
      else (Inr (), s))"

text \<open>The class of an answer, and what lines 406 to 426 and 610 to 636 do to the key for it.\<close>

datatype answer_class = Too_many | Unauthorized | Server_error | Final

definition classify :: "http_response \<Rightarrow> answer_class" where
  "classify resp =
     (if hr_status resp = 429 then Too_many
      else if hr_status resp = 401 \<or> hr_status resp = 403 then Unauthorized
      else if 500 \<le> hr_status resp then Server_error
      else Final)"

definition mark_answer ::
  "'b backend \<Rightarrow> app_config \<Rightarrow> http_response \<Rightarrow> int \<Rightarrow> 'b app \<Rightarrow> 'b app" where
  "mark_answer ops cfg resp kid s =
     (case classify resp of
        Too_many \<Rightarrow> mark_cooling ops kid (cooldown_for (hr_headers resp) (c_cooldown_seconds cfg)) s
      | Unauthorized \<Rightarrow> disable_key kid s
      | Server_error \<Rightarrow> record_failure cfg kid s
      | Final \<Rightarrow> s)"

definition result_of :: "http_response \<Rightarrow> int \<Rightarrow> int \<Rightarrow> forward_result" where
  "result_of resp kid retry_count =
     \<lparr>fr_response = to_fastapi_response resp, fr_upstream_status = Some (hr_status resp),
      fr_api_key_id = Some kid, fr_retry_count = retry_count\<rparr>"

text \<open>\<open>db.credit ... self._consume_quota\<close> then the result: the end of a final answer.\<close>

definition finish ::
  "app_config \<Rightarrow> fwd_call \<Rightarrow> http_response \<Rightarrow> int \<Rightarrow> int \<Rightarrow> 'b app
     \<Rightarrow> (fcam_error + forward_result) \<times> 'b app" where
  "finish cfg call resp kid retry_count s =
     (case account_success cfg call resp kid s of
        (Inl err, s1) \<Rightarrow> (Inl err, s1)
      | (Inr _, s1) \<Rightarrow> (Inr (result_of resp kid retry_count), s1))"

subsection \<open>The gates of a key\<close>

text \<open>The rate limit, then a slot (lines 287 to 320 and 525 to 533).\<close>

datatype gate = Gate_error fcam_error | Rate_limited int | No_slot | Admitted lease

definition admit :: "'b backend \<Rightarrow> api_key \<Rightarrow> 'b app \<Rightarrow> gate \<times> 'b app" where
  "admit ops k s =
     (case be_allow ops (clk_of s) (show_int (k_id k)) (k_rate_limit_per_min k) (kback s) of
        (Inl err, b) \<Rightarrow> (Gate_error err, s\<lparr>kback := b\<rparr>)
      | (Inr (allowed, retry_after), b) \<Rightarrow>
          if \<not> allowed then (Rate_limited retry_after, s\<lparr>kback := b\<rparr>)
          else
            (case be_acquire ops (clk_of s) (show_int (k_id k)) (k_max_concurrent k) b of
               (Inl err, b') \<Rightarrow> (Gate_error err, s\<lparr>kback := b'\<rparr>)
             | (Inr None, b') \<Rightarrow> (No_slot, s\<lparr>kback := b'\<rparr>)
             | (Inr (Some l), b') \<Rightarrow> (Admitted l, s\<lparr>kback := b'\<rparr>)))"

subsection \<open>The pinned key\<close>

definition pinned_lookup :: "int \<Rightarrow> int \<Rightarrow> 'b app \<Rightarrow> (fcam_error + api_key option) \<times> 'b app" where
  "pinned_lookup client_id pinned s =
     (let (fault, ss) = next_fault (sess s); s0 = s\<lparr>sess := ss\<rparr> in
      if fault then (Inl db_unavailable, s0)
      else (Inr (find (\<lambda>k. k_id k = pinned \<and> k_client_id k = Some client_id) (t_keys (cur ss))), s0))"

definition pinned_usable :: "string \<Rightarrow> api_key \<Rightarrow> bool" where
  "pinned_usable provider k \<longleftrightarrow> \<not> is_disabled k \<and> k_provider k = provider"

subsection \<open>The key pool\<close>

record pool_state =
  ps_attempts :: nat
  ps_tries :: nat
  ps_retries :: nat
  ps_decrypt_failed :: bool
  ps_last_status :: "int option"
  ps_last_key :: "int option"

definition pool_init :: pool_state where
  "pool_init = \<lparr>ps_attempts = 0, ps_tries = 0, ps_retries = 0, ps_decrypt_failed = False,
     ps_last_status = None, ps_last_key = None\<rparr>"

text \<open>What follows the gates in one turn of the loop (lines 535 to 708). \<open>None\<close> is \<open>continue\<close>.\<close>

definition pool_exchange ::
  "'b backend \<Rightarrow> env \<Rightarrow> forwarder \<Rightarrow> fwd_call \<Rightarrow> bytes \<Rightarrow> string \<Rightarrow> api_key \<Rightarrow> lease \<Rightarrow> pool_state \<Rightarrow> 'b app
     \<Rightarrow> (fcam_error + forward_result) option \<times> pool_state \<times> 'b app" where
  "pool_exchange ops e fw call mk url k l ps s =
     (let total = total_attempts fw (fa_provider call) in
      case run_exchange ops e fw call mk url k l s of
        (Undecryptable, s1) \<Rightarrow>
          (None, ps\<lparr>ps_decrypt_failed := True, ps_retries := ps_retries ps + 1\<rparr>, s1)
      | (Timeout, s1) \<Rightarrow>
          (let ps1 = ps\<lparr>ps_retries := ps_retries ps + 1, ps_attempts := ps_attempts ps + 1\<rparr>
           in (if total \<le> ps_attempts ps1 then Some (Inl (timeout_error fw call)) else None, ps1, s1))
      | (Http_error exc, s1) \<Rightarrow>
          (let ps1 = ps\<lparr>ps_retries := ps_retries ps + 1, ps_attempts := ps_attempts ps + 1\<rparr>
           in (if total \<le> ps_attempts ps1 then Some (Inl (unavailable_error fw call exc)) else None, ps1, s1))
      | (Answered resp, s1) \<Rightarrow>
          (let ps1 = ps\<lparr>ps_last_status := Some (hr_status resp), ps_attempts := ps_attempts ps + 1\<rparr>;
               s2 = mark_answer ops (fw_config fw) resp (k_id k) s1
           in if classify resp = Final then
                (let (r, s3) = finish (fw_config fw) call resp (k_id k) (int (ps_retries ps1)) s2
                 in (Some r, ps1, s3))
              else
                (let ps2 = ps1\<lparr>ps_retries := ps_retries ps1 + 1\<rparr>
                 in (if total \<le> ps_attempts ps2
                     then Some (Inr (result_of resp (k_id k) (int (ps_retries ps2) - 1))) else None, ps2, s2))))"

definition no_key_codes :: "string list" where
  "no_key_codes = [''NO_KEY_CONFIGURED'', ''ALL_KEYS_DISABLED'', ''NO_KEY_AVAILABLE'']"

text \<open>A selected row that is gone is SQLAlchemy's \<open>ObjectDeletedError\<close>; \<open>pool_turn_row\<close> shows it never is.\<close>

definition pool_turn ::
  "'b backend \<Rightarrow> env \<Rightarrow> forwarder \<Rightarrow> fwd_call \<Rightarrow> bytes \<Rightarrow> string \<Rightarrow> pool_state \<Rightarrow> 'b app
     \<Rightarrow> (fcam_error + forward_result) option \<times> pool_state \<times> 'b app" where
  "pool_turn ops e fw call mk url ps s =
     (case select ops e (fw_config fw) (Some (fa_client_id call)) (fa_provider call) s of
        (Inl err, s1) \<Rightarrow>
          (Some (Inl (if ps_decrypt_failed ps \<and> e_code err \<in> set no_key_codes then decrypt_failed_error else err)),
           ps, s1)
      | (Inr kid, s1) \<Rightarrow>
          (case key_row kid s1 of
             None \<Rightarrow> (Some (Inl (fcam 500 ''INTERNAL_ERROR'' ''Internal error'')), ps, s1)
           | Some k \<Rightarrow>
               (let ps1 = ps\<lparr>ps_last_key := Some kid\<rparr>; s2 = metered (record_key_selected kid) s1 in
                case admit ops k s2 of
                  (Gate_error err, s3) \<Rightarrow> (Some (Inl err), ps1, s3)
                | (Rate_limited _, s3) \<Rightarrow> (None, ps1\<lparr>ps_retries := ps_retries ps1 + 1\<rparr>, s3)
                | (No_slot, s3) \<Rightarrow> (None, ps1\<lparr>ps_retries := ps_retries ps1 + 1\<rparr>, s3)
                | (Admitted l, s3) \<Rightarrow> pool_exchange ops e fw call mk url k l ps1 s3)))"

definition exhausted_error :: "forwarder \<Rightarrow> fwd_call \<Rightarrow> pool_state \<Rightarrow> fcam_error" where
  "exhausted_error fw call ps =
     (if ps_attempts ps = 0 then busy_error fw call None
      else
        details_of ((''client_id'', JInt (fa_client_id call)) # base_url_detail fw # call_details fw call
            @ [(''last_upstream_status_code'', int_opt (ps_last_status ps)),
               (''last_api_key_id'', int_opt (ps_last_key ps))])
          (fcam 503 ''UPSTREAM_UNAVAILABLE'' ''Upstream unavailable''))"

definition max_selection_tries :: "forwarder \<Rightarrow> string \<Rightarrow> nat" where
  "max_selection_tries fw provider = max (total_attempts fw provider * 20) 50"

lemma pool_exchange_state:
  assumes "pool_exchange ops e fw call mk url k l ps s = (r, ps', s')"
  shows "ps_tries ps' = ps_tries ps" and "ps_attempts ps' \<le> ps_attempts ps + 1"
    and "r = None \<Longrightarrow> ps_retries ps' = ps_retries ps + 1"
  using assms
  by (auto simp: pool_exchange_def Let_def split: prod.splits exchange.splits if_splits)

lemma pool_turn_state:
  assumes "pool_turn ops e fw call mk url ps s = (r, ps', s')"
  shows "ps_tries ps' = ps_tries ps" and "ps_attempts ps' \<le> ps_attempts ps + 1"
    and "r = None \<Longrightarrow> ps_retries ps' = ps_retries ps + 1"
  using assms
  by (auto simp: pool_turn_def Let_def split: prod.splits sum.splits option.splits gate.splits if_splits
      dest: pool_exchange_state)

function pool_loop ::
  "'b backend \<Rightarrow> env \<Rightarrow> forwarder \<Rightarrow> fwd_call \<Rightarrow> bytes \<Rightarrow> string \<Rightarrow> pool_state \<Rightarrow> 'b app
     \<Rightarrow> (fcam_error + forward_result) \<times> 'b app" where
  "pool_loop ops e fw call mk url ps s =
     (if ps_attempts ps < total_attempts fw (fa_provider call)
         \<and> ps_tries ps < max_selection_tries fw (fa_provider call)
      then
        (case pool_turn ops e fw call mk url (ps\<lparr>ps_tries := ps_tries ps + 1\<rparr>) s of
           (Some r, _, s') \<Rightarrow> (r, s')
         | (None, ps', s') \<Rightarrow> pool_loop ops e fw call mk url ps' s')
      else (Inl (exhausted_error fw call ps), s))"
  by pat_completeness auto
termination
proof (relation "measure (\<lambda>(ops, e, fw, call, mk, url, ps, s).
    max_selection_tries fw (fa_provider call) - ps_tries ps)", goal_cases)
  case 1
  then show ?case by simp
next
  case prems: 2
  show ?case using prems by (auto dest: pool_turn_state(1) [OF sym])
qed

declare pool_loop.simps [simp del]

text \<open>
  One turn of the loop of lines 286 to 497; \<open>ps_retries\<close> and \<open>ps_last_status\<close> are the variables
  \<open>retry_count\<close> and \<open>last_upstream_status\<close>. A loop that ran out would go on to the key pool.
\<close>

definition pinned_turn ::
  "'b backend \<Rightarrow> env \<Rightarrow> forwarder \<Rightarrow> fwd_call \<Rightarrow> bytes \<Rightarrow> string \<Rightarrow> api_key \<Rightarrow> nat \<Rightarrow> pool_state \<Rightarrow> 'b app
     \<Rightarrow> (fcam_error + forward_result) option \<times> pool_state \<times> 'b app" where
  "pinned_turn ops e fw call mk url k attempt ps s =
     (let is_last = (total_attempts fw (fa_provider call) - 1 \<le> attempt) in
      case admit ops k s of
        (Gate_error err, s1) \<Rightarrow> (Some (Inl err), ps, s1)
      | (Rate_limited ra, s1) \<Rightarrow>
          (Some (Inl ((busy_error fw call (Some (k_id k)))\<lparr>e_retry_after := Some ra\<rparr>)), ps, s1)
      | (No_slot, s1) \<Rightarrow> (Some (Inl (busy_error fw call (Some (k_id k)))), ps, s1)
      | (Admitted l, s1) \<Rightarrow>
          (case run_exchange ops e fw call mk url k l s1 of
             (Undecryptable, s2) \<Rightarrow> (Some (Inl decrypt_failed_error), ps, s2)
           | (Timeout, s2) \<Rightarrow> (if is_last then Some (Inl (timeout_error fw call)) else None, ps, s2)
           | (Http_error exc, s2) \<Rightarrow>
               (if is_last then Some (Inl (unavailable_error fw call exc)) else None, ps, s2)
           | (Answered resp, s2) \<Rightarrow>
               (let ps1 = ps\<lparr>ps_last_status := Some (hr_status resp),
                            ps_retries := (if 0 < attempt then attempt else ps_retries ps)\<rparr>;
                    s3 = mark_answer ops (fw_config fw) resp (k_id k) s2;
                    res = result_of resp (k_id k) (int (ps_retries ps1))
                in case classify resp of
                     Final \<Rightarrow>
                       (let (r, s4) = finish (fw_config fw) call resp (k_id k) (int (ps_retries ps1)) s3
                        in (Some r, ps1, s4))
                   | Server_error \<Rightarrow> (if is_last then Some (Inr res) else None, ps1, s3)
                   | _ \<Rightarrow> (Some (Inr res), ps1, s3))))"

fun pinned_loop ::
  "'b backend \<Rightarrow> env \<Rightarrow> forwarder \<Rightarrow> fwd_call \<Rightarrow> bytes \<Rightarrow> string \<Rightarrow> api_key \<Rightarrow> nat list \<Rightarrow> pool_state \<Rightarrow> 'b app
     \<Rightarrow> (fcam_error + forward_result) \<times> 'b app" where
  "pinned_loop ops e fw call mk url k [] ps s = pool_loop ops e fw call mk url ps s"
| "pinned_loop ops e fw call mk url k (attempt # rest) ps s =
     (case pinned_turn ops e fw call mk url k attempt ps s of
        (Some r, _, s') \<Rightarrow> (r, s')
      | (None, ps', s') \<Rightarrow> pinned_loop ops e fw call mk url k rest ps' s')"

definition forward ::
  "'b backend \<Rightarrow> env \<Rightarrow> forwarder \<Rightarrow> fwd_call \<Rightarrow> 'b app \<Rightarrow> (fcam_error + forward_result) \<times> 'b app" where
  "forward ops e fw call s =
     (case fw_master_key fw of
        None \<Rightarrow> (Inl (fcam 503 ''NOT_READY'' ''Master key not configured''), s)
      | Some mk \<Rightarrow>
          (case provider_base_url fw (fa_provider call) of
             Inl err \<Rightarrow> (Inl err, s)
           | Inr url \<Rightarrow>
               (case fa_pinned call of
                  None \<Rightarrow> pool_loop ops e fw call mk url pool_init s
                | Some pinned \<Rightarrow>
                    (case pinned_lookup (fa_client_id call) pinned s of
                       (Inl err, s1) \<Rightarrow> (Inl err, s1)
                     | (Inr None, s1) \<Rightarrow> pool_loop ops e fw call mk url pool_init s1
                     | (Inr (Some k), s1) \<Rightarrow>
                         if pinned_usable (fa_provider call) k then
                           pinned_loop ops e fw call mk url k [0..<total_attempts fw (fa_provider call)]
                             (pool_init\<lparr>ps_last_key := Some (k_id k)\<rparr>)
                             (metered (record_key_selected (k_id k)) s1)
                         else pool_loop ops e fw call mk url pool_init s1))))"

text \<open>The four ways a turn of the pool loop can go.\<close>

lemma pool_turn_cases:
  assumes "pool_turn ops e fw call mk url ps s = (r, ps', s')"
  obtains (no_key) err where
      "select ops e (fw_config fw) (Some (fa_client_id call)) (fa_provider call) s = (Inl err, s')"
      "r = Some (Inl (if ps_decrypt_failed ps \<and> e_code err \<in> set no_key_codes then decrypt_failed_error else err))"
      "ps' = ps"
  | (gone) kid where
      "select ops e (fw_config fw) (Some (fa_client_id call)) (fa_provider call) s = (Inr kid, s')"
      "key_row kid s' = None" "r = Some (Inl (fcam 500 ''INTERNAL_ERROR'' ''Internal error''))" "ps' = ps"
  | (refused) kid k s1 g where
      "select ops e (fw_config fw) (Some (fa_client_id call)) (fa_provider call) s = (Inr kid, s1)"
      "key_row kid s1 = Some k" "admit ops k (metered (record_key_selected kid) s1) = (g, s')"
      "\<forall>l. g \<noteq> Admitted l" "r = (case g of Gate_error err \<Rightarrow> Some (Inl err) | _ \<Rightarrow> None)"
      "ps' = (case g of Gate_error err \<Rightarrow> ps\<lparr>ps_last_key := Some kid\<rparr>
              | _ \<Rightarrow> ps\<lparr>ps_last_key := Some kid, ps_retries := ps_retries ps + 1\<rparr>)"
  | (exchanged) kid k s1 l s3 where
      "select ops e (fw_config fw) (Some (fa_client_id call)) (fa_provider call) s = (Inr kid, s1)"
      "key_row kid s1 = Some k" "admit ops k (metered (record_key_selected kid) s1) = (Admitted l, s3)"
      "pool_exchange ops e fw call mk url k l (ps\<lparr>ps_last_key := Some kid\<rparr>) s3 = (r, ps', s')"
proof -
  obtain x s1 where sel: "select ops e (fw_config fw) (Some (fa_client_id call)) (fa_provider call) s = (x, s1)"
    by (cases "select ops e (fw_config fw) (Some (fa_client_id call)) (fa_provider call) s")
  show thesis
  proof (cases x)
    case (Inl err)
    show thesis using assms sel Inl by (intro no_key [of err]) (auto simp: pool_turn_def)
  next
    case (Inr kid)
    show thesis
    proof (cases "key_row kid s1")
      case None
      then show thesis using assms sel Inr by (intro gone [of kid]) (simp_all add: pool_turn_def)
    next
      case (Some k)
      obtain g s3 where g: "admit ops k (metered (record_key_selected kid) s1) = (g, s3)"
        by (cases "admit ops k (metered (record_key_selected kid) s1)")
      show thesis
      proof (cases "\<exists>l. g = Admitted l")
        case True
        then obtain l where "g = Admitted l" by blast
        then show thesis using assms sel Inr Some g
          by (intro exchanged [of kid s1 k l s3]) (simp_all add: pool_turn_def Let_def)
      next
        case False
        have "s3 = s'" using assms sel Inr Some g False by (auto simp: pool_turn_def Let_def split: gate.splits)
        then show thesis using assms sel Inr Some g False
          by (intro refused [of kid s1 k g]; cases g; simp add: pool_turn_def Let_def)
      qed
    qed
  qed
qed

text \<open>Reasoning about the loops: an invariant of the turns.\<close>

lemma pool_loop_invariant:
  assumes "pool_loop ops e fw call mk url ps s = (r, s')" and "I ps s"
    and "\<And>ps s ps' s'. I ps s \<Longrightarrow> ps_attempts ps < total_attempts fw (fa_provider call) \<Longrightarrow>
      ps_tries ps < max_selection_tries fw (fa_provider call) \<Longrightarrow>
      pool_turn ops e fw call mk url (ps\<lparr>ps_tries := ps_tries ps + 1\<rparr>) s = (None, ps', s') \<Longrightarrow> I ps' s'"
    and "\<And>ps s r ps' s'. I ps s \<Longrightarrow> ps_attempts ps < total_attempts fw (fa_provider call) \<Longrightarrow>
      ps_tries ps < max_selection_tries fw (fa_provider call) \<Longrightarrow>
      pool_turn ops e fw call mk url (ps\<lparr>ps_tries := ps_tries ps + 1\<rparr>) s = (Some r, ps', s') \<Longrightarrow> P r s'"
    and "\<And>ps s. I ps s \<Longrightarrow> \<not> (ps_attempts ps < total_attempts fw (fa_provider call)
      \<and> ps_tries ps < max_selection_tries fw (fa_provider call)) \<Longrightarrow> P (Inl (exhausted_error fw call ps)) s"
  shows "P r s'"
  using assms
proof (induction ops e fw call mk url ps s rule: pool_loop.induct)
  case (1 ops e fw call mk url ps s)
  show ?case
  proof (cases "ps_attempts ps < total_attempts fw (fa_provider call)
      \<and> ps_tries ps < max_selection_tries fw (fa_provider call)")
    case False
    with "1.prems"(1) have "r = Inl (exhausted_error fw call ps)" "s' = s"
      by (simp_all add: pool_loop.simps [of ops e fw call mk url ps s])
    then show ?thesis using "1.prems"(5) [OF "1.prems"(2) False] by simp
  next
    case True
    obtain t ps1 s1 where t: "pool_turn ops e fw call mk url (ps\<lparr>ps_tries := ps_tries ps + 1\<rparr>) s = (t, ps1, s1)"
      by (cases "pool_turn ops e fw call mk url (ps\<lparr>ps_tries := ps_tries ps + 1\<rparr>) s")
    show ?thesis
    proof (cases t)
      case None
      then have l: "pool_loop ops e fw call mk url ps1 s1 = (r, s')"
        using "1.prems"(1) True t by (simp add: pool_loop.simps [of ops e fw call mk url ps s])
      have i: "I ps1 s1" using "1.prems"(2,3) True t None by blast
      show ?thesis
        using "1.IH" [OF True t [symmetric] None refl l i] "1.prems"(3-5) by blast
    next
      case (Some x)
      then have "r = x" "s' = s1"
        using "1.prems"(1) True t by (auto simp add: pool_loop.simps [of ops e fw call mk url ps s])
      then show ?thesis using "1.prems"(2,4) True t Some by blast
    qed
  qed
qed

subsection \<open>Rows, time, leases and requests\<close>

lemma keeps_marks [ident]:
  "keeps_ident (\<lambda>k. k\<lparr>k_status := st, k_is_active := a\<rparr>)"
  "keeps_ident (\<lambda>k. k\<lparr>k_status := st, k_cooldown_until := c\<rparr>)"
  "keeps_ident (use_key now)"
  by (simp_all add: keeps_ident_def key_ident_def use_key_def Let_def)

lemma steady_on_key_commit:
  "keeps_ident f \<Longrightarrow> steady held s (snd (commit_app (on_key kid f s)))"
  by (rule steady_trans [OF steady_on_key steady_commit])

lemma steady_commit': "commit_app s = (ok, s') \<Longrightarrow> steady held s s'"
  using steady_commit [of held s] by simp

lemma silent_commit: "commit_app s = (ok, s') \<Longrightarrow> sent s' = sent s"
  using app_frames(11) [of s] by simp

lemma steady_disable_key [steady_intros]: "steady held s (disable_key kid s)"
  unfolding disable_key_def by (rule steady_on_key_commit [OF keeps_marks(1)])

lemma steady_disable_decrypt [steady_intros]: "steady held s (disable_key_decrypt_failed kid s)"
  unfolding disable_key_decrypt_failed_def by (rule steady_on_key_commit [OF keeps_marks(1)])

lemma steady_mark_active [steady_intros]: "steady held s (mark_active kid s)"
  by (auto simp: mark_active_def steady_refl steady_on_key_commit keeps_marks split: option.splits)

lemma steady_bump: "bump_failures cfg kid s = (n, s') \<Longrightarrow> steady held s s'"
  by (auto simp: bump_failures_def Let_def steady_same_sess split: prod.splits)

lemma steady_record_failure [steady_intros]: "steady held s (record_failure cfg kid s)"
  by (auto simp: record_failure_def Let_def steady_refl steady_bump split: option.splits prod.splits
      intro!: steady_trans [OF steady_bump steady_on_key_commit [OF keeps_marks(2)]])

lemma silent_marks [silent, simp]:
  "sent (disable_key kid s) = sent s" "sent (disable_key_decrypt_failed kid s) = sent s"
  "sent (mark_active kid s) = sent s" "sent (record_failure cfg kid s) = sent s"
  by (auto simp: disable_key_def disable_key_decrypt_failed_def mark_active_def record_failure_def
      bump_failures_def Let_def split: option.splits prod.splits)

lemma silent_mark_cooling [silent, simp]: "sent (mark_cooling ops kid c s) = sent s"
  by (auto simp: mark_cooling_def Let_def silent_commit split: option.splits prod.splits bool.splits)

lemma silent_mark_answer [silent, simp]: "sent (mark_answer ops cfg resp kid s) = sent s"
  by (simp add: mark_answer_def split: answer_class.split)

lemma sends_send: "send_upstream e rq s = (r, s') \<Longrightarrow> sends 1 Q s s' \<longleftrightarrow> Q rq"
  by (auto simp: send_upstream_def sends_def Let_def)

lemma kback_marks [simp]:
  "kback (disable_key_decrypt_failed kid s) = kback s" "kback (record_failure cfg kid s) = kback s"
  by (auto simp: disable_key_decrypt_failed_def record_failure_def bump_failures_def Let_def
      split: option.splits prod.splits)

lemma kback_exchange: "exchange_body e fw call mk url k s = (r, s') \<Longrightarrow> kback s' = kback s"
  by (auto simp: exchange_body_def send_upstream_def Let_def split: option.splits prod.splits up_outcome.splits)

lemma steady_send: "send_upstream e rq s = (r, s') \<Longrightarrow> steady held s s'"
  by (auto simp: send_upstream_def steady_def same_rows_def Let_def)

lemma steady_exchange_body:
  "exchange_body e fw call mk url k s = (r, s') \<Longrightarrow> steady held s s'"
  by (auto simp: exchange_body_def split: option.splits prod.splits up_outcome.splits
      intro: steady_disable_decrypt steady_send steady_trans [OF steady_send steady_record_failure])

lemma silent_account [silent]:
  "account_success cfg call resp kid s = (r, s') \<Longrightarrow> sent s' = sent s"
proof -
  have est: "estimate_credits cfg call resp kid s = (c, t) \<Longrightarrow> sent t = sent s" for c t
    by (auto simp: estimate_credits_def Let_def split: if_splits option.splits)
  have con: "consume_quota_on_success cid kid t = (x, u) \<Longrightarrow> sent u = sent t" for cid t x u
    by (auto simp: consume_quota_on_success_def quota_gauges_def Let_def split: prod.splits bool.splits option.splits
        dest!: silent_commit)
  assume "account_success cfg call resp kid s = (r, s')"
  then show ?thesis
    by (auto simp: account_success_def split: if_splits prod.splits dest!: est con silent_commit)
qed

lemma silent_finish [silent]: "finish cfg call resp kid n s = (r, s') \<Longrightarrow> sent s' = sent s"
  by (auto simp: finish_def split: prod.splits sum.splits dest: silent_account)

lemma steady_consume: "consume_quota_on_success cid kid s = (r, s') \<Longrightarrow> steady held s s'"
proof -
  assume c: "consume_quota_on_success cid kid s = (r, s')"
  let ?s1 = "on_key kid (use_key (wall s)) (on_client cid (use_client (wall s)) s)"
  have 1: "steady held s ?s1"
    by (rule steady_trans [OF steady_on_client steady_on_key [OF keeps_marks(3)]])
  obtain ok s2 where com: "commit_app ?s1 = (ok, s2)" by (cases "commit_app ?s1")
  have 2: "steady held s s2" by (rule steady_trans [OF 1 steady_commit' [OF com]])
  have "steady held s2 (quota_gauges cid kid s2)"
    by (auto simp: quota_gauges_def Let_def steady_refl steady_metered split: option.splits
        intro: steady_trans [OF steady_metered steady_metered])
  with c com 2 show ?thesis
    by (auto simp: consume_quota_on_success_def split: bool.splits intro: steady_trans)
qed

lemma steady_estimate: "estimate_credits cfg call resp kid s = (c, s') \<Longrightarrow> steady held s s'"
  by (auto simp: estimate_credits_def Let_def steady_refl split: if_splits option.splits
      intro!: steady_on_key keeps_credits)

lemma steady_account: "account_success cfg call resp kid s = (r, s') \<Longrightarrow> steady held s s'"
  by (auto simp: account_success_def steady_refl split: if_splits prod.splits
      intro: steady_estimate steady_trans [OF steady_estimate steady_consume]
        steady_trans [OF steady_estimate steady_commit])

lemma steady_finish: "finish cfg call resp kid n s = (r, s') \<Longrightarrow> steady held s s'"
  by (auto simp: finish_def split: prod.splits sum.splits intro: steady_account)

subsection \<open>Which requests are sent\<close>

text \<open>
  A request that may leave for a call: authenticated with the plaintext of a key of the calling client
  and of the provider, and built from nothing else but the call and the configuration.
\<close>

definition tenant_request :: "env \<Rightarrow> forwarder \<Rightarrow> fwd_call \<Rightarrow> 'b app \<Rightarrow> up_request \<Rightarrow> bool" where
  "tenant_request e fw call s rq \<longleftrightarrow>
     (\<exists>k \<in> set (t_keys (cur (sess s))). \<exists>mk url plaintext.
        k_client_id k = Some (fa_client_id call) \<and> k_provider k = fa_provider call \<and>
        fw_master_key fw = Some mk \<and> provider_base_url fw (fa_provider call) = Inr url \<and>
        decrypt_api_key (en_crypto e) mk (k_ciphertext k) = Some plaintext \<and>
        rq = upstream_request fw call url plaintext)"

lemma exchange_cases:
  assumes "run_exchange ops e fw call mk url k l s = (r, s')"
  obtains "r = Undecryptable" "decrypt_api_key (en_crypto e) mk (k_ciphertext k) = None" "sent s' = sent s"
  | p where "r \<noteq> Undecryptable" "decrypt_api_key (en_crypto e) mk (k_ciphertext k) = Some p"
      "sent s' = sent s @ [upstream_request fw call url p]"
proof (cases "decrypt_api_key (en_crypto e) mk (k_ciphertext k)")
  case None
  with assms have "r = Undecryptable" "sent s' = sent s"
    by (auto simp: run_exchange_def exchange_body_def release_lease_def)
  with None that(1) show thesis by blast
next
  case (Some p)
  with assms have "r \<noteq> Undecryptable" "sent s' = sent s @ [upstream_request fw call url p]"
    by (auto simp: run_exchange_def exchange_body_def release_lease_def send_upstream_def Let_def
        split: prod.splits up_outcome.splits)
  with Some that(2) show thesis by blast
qed

lemma silent_admit [silent]: "admit ops k s = (g, s') \<Longrightarrow> sent s' = sent s"
  by (auto simp: admit_def split: sum.splits prod.splits if_splits option.splits)

lemma pool_exchange_sent:
  assumes "pool_exchange ops e fw call mk url k l ps s = (r, ps', s')"
  shows "(sent s' = sent s \<and> ps_attempts ps' = ps_attempts ps \<and> r = None) \<or>
    (\<exists>p. decrypt_api_key (en_crypto e) mk (k_ciphertext k) = Some p
       \<and> sent s' = sent s @ [upstream_request fw call url p] \<and> ps_attempts ps' = ps_attempts ps + 1)"
proof -
  obtain y s1 where ex: "run_exchange ops e fw call mk url k l s = (y, s1)"
    by (cases "run_exchange ops e fw call mk url k l s")
  from ex show ?thesis
  proof (cases rule: exchange_cases)
    case 1
    with assms ex show ?thesis by (auto simp: pool_exchange_def)
  next
    case (2 p)
    with assms ex show ?thesis
      by (auto simp: pool_exchange_def Let_def split: exchange.splits prod.splits if_splits
          dest!: silent_finish)
  qed
qed

lemma pinned_turn_sent:
  assumes "pinned_turn ops e fw call mk url k attempt ps s = (r, ps', s')"
  shows "sent s' = sent s \<or>
    (\<exists>p. decrypt_api_key (en_crypto e) mk (k_ciphertext k) = Some p
       \<and> sent s' = sent s @ [upstream_request fw call url p])"
proof -
  obtain g s1 where g: "admit ops k s = (g, s1)" by (cases "admit ops k s")
  have s1: "sent s1 = sent s" by (rule silent_admit [OF g])
  show ?thesis
  proof (cases g)
    case (Admitted l)
    obtain y s2 where ex: "run_exchange ops e fw call mk url k l s1 = (y, s2)"
      by (cases "run_exchange ops e fw call mk url k l s1")
    have "sent s' = sent s2"
      using assms g Admitted ex
      by (auto simp: pinned_turn_def Let_def split: exchange.splits prod.splits if_splits answer_class.splits
          dest: silent_finish)
    with ex s1 show ?thesis by (cases rule: exchange_cases) auto
  qed (use assms g s1 in \<open>auto simp: pinned_turn_def\<close>)
qed

context lease_backend begin

lemma steady_kback:
  "(\<And>t. wall s \<le> t \<Longrightarrow> held t b = held t (kback s)) \<Longrightarrow> steady held s (s\<lparr>kback := b\<rparr>)"
  by (intro steady_same_sess) simp_all

lemma steady_mark_cooling: "steady held s (mark_cooling ops kid c s)"
proof (cases "key_row kid s")
  case (Some k)
  let ?f = "\<lambda>k. k\<lparr>k_status := Cooling, k_cooldown_until := Some (wall s + seconds c)\<rparr>"
  obtain ok s1 where com: "commit_app (on_key kid ?f s) = (ok, s1)" by (cases "commit_app (on_key kid ?f s)")
  have 1: "steady held s s1"
    using steady_on_key_commit [OF keeps_marks(2)] com by (metis snd_conv)
  let ?s2 = "metered (record_key_cooldown kid) s1"
  have "steady held ?s2 (?s2\<lparr>kback := snd (be_set_cooldown ops (clk_of ?s2) kid c (kback ?s2))\<rparr>)"
    by (cases "be_set_cooldown ops (clk_of ?s2) kid c (kback ?s2)")
      (auto intro!: steady_kback dest: set_cooldown_held simp: clk_of_def)
  then have "steady held s (?s2\<lparr>kback := snd (be_set_cooldown ops (clk_of ?s2) kid c (kback ?s2))\<rparr>)"
    by (rule steady_trans [OF steady_trans [OF 1 steady_metered]])
  with 1 com Some show ?thesis
    by (simp add: mark_cooling_def steady_refl Let_def split: bool.split)
qed (simp add: mark_cooling_def steady_refl)

lemma steady_mark_answer: "steady held s (mark_answer ops cfg resp kid s)"
  by (simp add: mark_answer_def steady_mark_cooling steady_disable_key steady_record_failure steady_refl
      split: answer_class.split)

lemma steady_admit:
  assumes "admit ops k s = (g, s')" and "\<forall>l. g \<noteq> Admitted l"
  shows "steady held s s'"
proof -
  obtain a b where al: "be_allow ops (clk_of s) (show_int (k_id k)) (k_rate_limit_per_min k) (kback s) = (a, b)"
    by (cases "be_allow ops (clk_of s) (show_int (k_id k)) (k_rate_limit_per_min k) (kback s)")
  have 1: "held t b = held t (kback s)" if "wall s \<le> t" for t
    using allow_held [OF al] that by (simp add: clk_of_def)
  obtain q b' where ac: "be_acquire ops (clk_of s) (show_int (k_id k)) (k_max_concurrent k) b = (q, b')"
    by (cases "be_acquire ops (clk_of s) (show_int (k_id k)) (k_max_concurrent k) b")
  have 2: "held t b' = held t (kback s)" if "wall s \<le> t" "q = Inr None \<or> (\<exists>e. q = Inl e)" for t
    using that ac 1 acquire_refused [of "clk_of s" _ _ b b' t] acquire_error [of "clk_of s" _ _ b _ b' t]
    by (auto simp: clk_of_def)
  from assms al ac show ?thesis
    by (auto simp: admit_def split: sum.splits if_splits option.splits intro!: steady_kback 1 2)
qed

lemma steady_admitted:
  assumes "admit ops k s = (Admitted l, s1)" and "run_exchange ops e fw call mk url k' l s1 = (r, s2)"
  shows "steady held s s2"
proof -
  obtain a b where al: "be_allow ops (clk_of s) (show_int (k_id k)) (k_rate_limit_per_min k) (kback s) = (a, b)"
    by (cases "be_allow ops (clk_of s) (show_int (k_id k)) (k_rate_limit_per_min k) (kback s)")
  obtain b' where ac: "be_acquire ops (clk_of s) (show_int (k_id k)) (k_max_concurrent k) b = (Inr (Some l), b')"
    and s1: "s1 = s\<lparr>kback := b'\<rparr>"
    using assms(1) al by (auto simp: admit_def split: sum.splits if_splits option.splits prod.splits)
  obtain s1' where ex: "exchange_body e fw call mk url k' s1 = (r, s1')" and s2: "s2 = release_lease ops l s1'"
    using assms(2) by (auto simp: run_exchange_def split: prod.splits)
  have st: "steady held s1 s1'" by (rule steady_exchange_body [OF ex])
  have kb: "kback s1' = b'" using kback_exchange [OF ex] s1 by simp
  have "held t (kback s2) = held t (kback s)" if "wall s \<le> t" for t
  proof -
    have "held t (kback s2) = held t b"
      unfolding s2 release_lease_def using acquire_release [OF ac] that by (simp add: kb clk_of_def)
    also have "\<dots> = held t (kback s)" using allow_held [OF al] that by (simp add: clk_of_def)
    finally show ?thesis .
  qed
  moreover have "wall s \<le> wall s2" using st s1 by (simp add: steady_def s2 release_lease_def)
  moreover have "ok_rows s \<longrightarrow> same_rows s s2"
    using st s1 by (simp add: steady_def ok_rows_def same_rows_def s2 release_lease_def)
  ultimately show ?thesis by (simp add: steady_def)
qed

lemma steady_pool_turn:
  assumes "pool_turn ops e fw call mk url ps s = (r, ps', s')"
  shows "steady held s s'"
  using assms
proof (rule pool_turn_cases)
  fix err
  assume "select ops e (fw_config fw) (Some (fa_client_id call)) (fa_provider call) s = (Inl err, s')"
  then show ?thesis using steady_select by (metis snd_conv)
next
  fix kid
  assume "select ops e (fw_config fw) (Some (fa_client_id call)) (fa_provider call) s = (Inr kid, s')"
  then show ?thesis using steady_select by (metis snd_conv)
next
  fix kid k s1 g
  assume sel: "select ops e (fw_config fw) (Some (fa_client_id call)) (fa_provider call) s = (Inr kid, s1)"
    and g: "admit ops k (metered (record_key_selected kid) s1) = (g, s')" "\<forall>l. g \<noteq> Admitted l"
  have "steady held s s1" using steady_select sel by (metis snd_conv)
  then show ?thesis by (rule steady_trans [OF steady_trans [OF _ steady_metered] steady_admit [OF g]])
next
  fix kid k s1 l s3
  assume sel: "select ops e (fw_config fw) (Some (fa_client_id call)) (fa_provider call) s = (Inr kid, s1)"
    and g: "admit ops k (metered (record_key_selected kid) s1) = (Admitted l, s3)"
    and px: "pool_exchange ops e fw call mk url k l (ps\<lparr>ps_last_key := Some kid\<rparr>) s3 = (r, ps', s')"
  have 1: "steady held s s1" using steady_select sel by (metis snd_conv)
  obtain y s4 where ex: "run_exchange ops e fw call mk url k l s3 = (y, s4)"
    by (cases "run_exchange ops e fw call mk url k l s3")
  have 4: "steady held s s4"
    by (rule steady_trans [OF steady_trans [OF 1 steady_metered] steady_admitted [OF g ex]])
  note 5 = steady_trans [OF 4 steady_mark_answer]
  from px 4 show ?thesis
    by (auto simp: pool_exchange_def Let_def ex split: exchange.splits prod.splits if_splits
        intro: 5 steady_trans [OF 5 steady_finish])
qed

lemma steady_pinned_turn:
  assumes "pinned_turn ops e fw call mk url k attempt ps s = (r, ps', s')"
  shows "steady held s s'"
proof -
  obtain g s1 where g: "admit ops k s = (g, s1)" by (cases "admit ops k s")
  show ?thesis
  proof (cases g)
    case (Admitted l)
    obtain x s2 where ex: "run_exchange ops e fw call mk url k l s1 = (x, s2)"
      by (cases "run_exchange ops e fw call mk url k l s1")
    have 1: "steady held s s2" using g ex unfolding Admitted by (rule steady_admitted)
    note 2 = steady_trans [OF 1 steady_mark_answer]
    from assms 1 show ?thesis
      by (auto simp: pinned_turn_def g Admitted ex Let_def
          split: exchange.splits answer_class.splits prod.splits
          intro: 2 steady_trans [OF 2 steady_finish])
  qed (use assms g steady_admit [OF g] in \<open>auto simp: pinned_turn_def Let_def\<close>)
qed

lemma steady_pool_loop:
  "pool_loop ops e fw call mk url ps s = (r, s') \<Longrightarrow> steady held s s'"
  by (rule pool_loop_invariant [where I = "\<lambda>ps t. steady held s t" and P = "\<lambda>r t. steady held s t"])
     (auto intro: steady_refl steady_trans steady_pool_turn)

lemma steady_pinned_loop:
  "pinned_loop ops e fw call mk url k atts ps s = (r, s') \<Longrightarrow> steady held s s'"
proof (induction atts arbitrary: ps s)
  case (Cons a atts)
  then show ?case
    by (auto split: prod.splits option.splits intro: steady_pinned_turn steady_trans [OF steady_pinned_turn])
qed (simp add: steady_pool_loop)

lemma steady_pinned_lookup: "pinned_lookup cid pinned s = (r, s') \<Longrightarrow> steady held s s'"
  using steady_fault [of held s] by (auto simp: pinned_lookup_def Let_def split: prod.splits if_splits)

lemma steady_forward: "forward ops e fw call s = (r, s') \<Longrightarrow> steady held s s'"
  by (auto simp: forward_def steady_refl split: option.splits sum.splits prod.splits if_splits
      intro: steady_pool_loop steady_pinned_lookup steady_trans [OF steady_pinned_lookup steady_pool_loop]
        steady_trans [OF steady_trans [OF steady_pinned_lookup steady_metered] steady_pinned_loop])

lemma selected_row:
  assumes "select ops e cfg (Some cid) p s = (Inr kid, s')" and "ok_rows s"
  shows "\<exists>k \<in> set (t_keys (cur (sess s))). \<exists>k'. key_row kid s' = Some k' \<and> key_ident k' = key_ident k
    \<and> k_client_id k = Some cid \<and> k_provider k = p"
proof -
  obtain k where k: "key_row kid s = Some k" "k \<in> set (t_keys (cur (sess s)))" "k_provider k = p"
    "k_client_id k = Some cid"
    using pool_row [OF assms(2) select_pick(1) [OF assms(1)]] by auto
  have "same_rows s s'" using steady_select [of s e cfg "Some cid" p] assms by (simp add: steady_def)
  from key_row_ident [OF this, of kid] k(1) obtain k' where "key_row kid s' = Some k'" "key_ident k' = key_ident k"
    by auto
  with k show ?thesis by blast
qed

lemma pool_turn_sent:
  assumes "pool_turn ops e fw call mk url ps s = (r, ps', s')" and "ok_rows s"
    and "fw_master_key fw = Some mk" and "provider_base_url fw (fa_provider call) = Inr url"
  shows "(sent s' = sent s \<and> ps_attempts ps' = ps_attempts ps) \<or>
    (\<exists>rq. tenant_request e fw call s rq \<and> sent s' = sent s @ [rq] \<and> ps_attempts ps' = ps_attempts ps + 1)"
proof -
  have sel_sent: "sent s1 = sent s"
    if "select ops e (fw_config fw) (Some (fa_client_id call)) (fa_provider call) s = (x, s1)" for x s1
    using silent_select [of ops e "fw_config fw" "Some (fa_client_id call)" "fa_provider call" s] that by simp
  from assms(1) show ?thesis
  proof (cases rule: pool_turn_cases)
    case (no_key err)
    then show ?thesis using sel_sent by auto
  next
    case (gone kid)
    then show ?thesis using sel_sent by auto
  next
    case (refused kid k s1 g)
    then show ?thesis using sel_sent silent_admit [OF refused(3)] by (auto split: gate.splits)
  next
    case (exchanged kid k s1 l s3)
    have s3: "sent s3 = sent s" using sel_sent [OF exchanged(1)] silent_admit [OF exchanged(3)] by simp
    obtain k0 where k0: "k0 \<in> set (t_keys (cur (sess s)))" "key_ident k = key_ident k0"
      "k_client_id k0 = Some (fa_client_id call)" "k_provider k0 = fa_provider call"
      using selected_row [OF exchanged(1) assms(2)] exchanged(2) by auto
    then have ct: "k_ciphertext k = k_ciphertext k0" by (simp add: key_ident_def)
    have "tenant_request e fw call s (upstream_request fw call url p)"
      if "decrypt_api_key (en_crypto e) mk (k_ciphertext k) = Some p" for p
      unfolding tenant_request_def using k0 ct that assms(3,4) by (intro bexI [OF _ k0(1)]) auto
    with pool_exchange_sent [OF exchanged(4)] s3 show ?thesis by auto
  qed
qed

lemma tenant_request_rows:
  assumes "same_rows s t" and "tenant_request e fw call t rq"
  shows "tenant_request e fw call s rq"
proof -
  have "set (map key_ident (t_keys (cur (sess t)))) = set (map key_ident (t_keys (cur (sess s))))"
    using assms(1) by (simp only: same_rows_def)
  then have "\<exists>k0 \<in> set (t_keys (cur (sess s))). key_ident k0 = key_ident k"
    if "k \<in> set (t_keys (cur (sess t)))" for k
    using that by (metis (no_types, lifting) imageE image_eqI image_set)
  with assms(2) show ?thesis
    unfolding tenant_request_def key_ident_def by (metis Pair_inject)
qed

lemma pool_loop_sent:
  assumes "pool_loop ops e fw call mk url ps s = (r, s')" and "ok_rows s" and "ps_attempts ps = 0"
    and "fw_master_key fw = Some mk" and "provider_base_url fw (fa_provider call) = Inr url"
  shows "sends (total_attempts fw (fa_provider call)) (tenant_request e fw call s) s s'"
proof -
  let ?n = "total_attempts fw (fa_provider call)" and ?Q = "tenant_request e fw call s"
  have step: "ps_attempts qs' \<le> ?n \<and> sends (ps_attempts qs') ?Q s t'"
    if I: "steady held s t" "sends (ps_attempts qs) ?Q s t" and lt: "ps_attempts qs < ?n"
      and turn: "pool_turn ops e fw call mk url (qs\<lparr>ps_tries := ps_tries qs + 1\<rparr>) t = (x, qs', t')"
    for qs :: pool_state and t x qs' t'
  proof -
    have rows: "same_rows s t" "ok_rows t" using steady_rows [OF I(1) assms(2)] by simp_all
    have "(ps_attempts qs' = ps_attempts qs \<and> sends 0 ?Q t t')
        \<or> (ps_attempts qs' = ps_attempts qs + 1 \<and> sends 1 ?Q t t')"
      using pool_turn_sent [OF turn rows(2) assms(4,5)] tenant_request_rows [OF rows(1)]
      by (auto simp: sends_def)
    then show ?thesis
    proof (elim disjE conjE)
      assume "ps_attempts qs' = ps_attempts qs" and "sends 0 ?Q t t'"
      with sends_trans [OF I(2), of 0 t'] lt show ?thesis by simp
    next
      assume "ps_attempts qs' = ps_attempts qs + 1" and "sends 1 ?Q t t'"
      with sends_trans [OF I(2), of 1 t'] lt show ?thesis by simp
    qed
  qed
  let ?I = "\<lambda>qs t. steady held s t \<and> ps_attempts qs \<le> ?n \<and> sends (ps_attempts qs) ?Q s t"
  show ?thesis
    using assms(1)
  proof (rule pool_loop_invariant [where I = ?I and P = "\<lambda>r t. sends ?n ?Q s t"])
    show "?I ps s" by (simp add: assms(3) steady_refl sends_0)
  next
    fix qs :: pool_state and t qs' t'
    assume "?I qs t" and lt: "ps_attempts qs < ?n"
      and turn: "pool_turn ops e fw call mk url (qs\<lparr>ps_tries := ps_tries qs + 1\<rparr>) t = (None, qs', t')"
    then show "?I qs' t'" using step [OF _ _ lt turn] steady_trans steady_pool_turn [OF turn] by blast
  next
    fix qs :: pool_state and t x qs' t'
    assume "?I qs t" and lt: "ps_attempts qs < ?n"
      and turn: "pool_turn ops e fw call mk url (qs\<lparr>ps_tries := ps_tries qs + 1\<rparr>) t = (Some x, qs', t')"
    then show "sends ?n ?Q s t'" using step [OF _ _ lt turn] sends_mono by blast
  next
    fix qs :: pool_state and t
    assume "?I qs t"
    then show "sends ?n ?Q s t" using sends_mono by blast
  qed
qed

lemma pinned_loop_sent:
  assumes "pinned_loop ops e fw call mk url k atts ps s = (r, s')"
    and "\<And>plaintext. decrypt_api_key (en_crypto e) mk (k_ciphertext k) = Some plaintext \<Longrightarrow>
      Q (upstream_request fw call url plaintext)"
    and "total_attempts fw (fa_provider call) - 1 \<in> set atts"
  shows "sends (length atts) Q s s'"
  using assms(1,3)
proof (induction atts arbitrary: ps s)
  case Nil
  then show ?case by simp
next
  case (Cons a atts)
  obtain x ps1 s1 where t: "pinned_turn ops e fw call mk url k a ps s = (x, ps1, s1)"
    by (cases "pinned_turn ops e fw call mk url k a ps s")
  have 1: "sends 1 Q s s1" using pinned_turn_sent [OF t] assms(2) by (auto simp: sends_def)
  show ?case
  proof (cases x)
    case None
    have "a \<noteq> total_attempts fw (fa_provider call) - 1"
      using t None by (auto simp: pinned_turn_def Let_def split: gate.splits prod.splits exchange.splits
          answer_class.splits if_splits)
    with Cons t None have "sends (length atts) Q s1 s'" by simp
    from sends_trans [OF 1 this] show ?thesis by simp
  next
    case (Some y)
    with Cons.prems(1) t have "s1 = s'" by simp
    then show ?thesis using sends_mono [OF 1] by simp
  qed
qed

lemma forward_sent:
  assumes "forward ops e fw call s = (r, s')" and "ok_rows s"
  shows "sends (total_attempts fw (fa_provider call)) (tenant_request e fw call s) s s'"
proof (cases "fw_master_key fw")
  case None
  with assms show ?thesis by (simp add: forward_def sends_same)
next
  case (Some mk)
  show ?thesis
  proof (cases "provider_base_url fw (fa_provider call)")
    case (Inl err)
    with assms Some show ?thesis by (simp add: forward_def sends_same)
  next
    case (Inr url)
    note pool = pool_loop_sent [OF _ _ _ Some Inr]
    show ?thesis
    proof (cases "fa_pinned call")
      case None
      with assms Some Inr show ?thesis by (auto simp: forward_def pool_init_def intro!: pool)
    next
      case (Some pinned)
      obtain x s1 where lk: "pinned_lookup (fa_client_id call) pinned s = (x, s1)"
        by (cases "pinned_lookup (fa_client_id call) pinned s")
      have st: "same_rows s s1 \<and> ok_rows s1" using steady_pinned_lookup [OF lk] assms(2) by (rule steady_rows)
      have sent: "sends 0 (tenant_request e fw call s) s s1"
        using lk by (auto simp: pinned_lookup_def sends_0 Let_def split: prod.splits if_splits)
      have pool1: "sends (total_attempts fw (fa_provider call)) (tenant_request e fw call s) s s'"
        if "pool_loop ops e fw call mk url pool_init s1 = (r, s')"
      proof -
        have "sends (total_attempts fw (fa_provider call)) (tenant_request e fw call s1) s1 s'"
          using that st by (intro pool) (auto simp: pool_init_def)
        moreover have "sent s1 = sent s" using sent by (simp add: sends_0)
        ultimately show ?thesis using tenant_request_rows [of s s1] st by (auto simp: sends_def)
      qed
      show ?thesis
      proof (cases "\<exists>k. x = Inr (Some k) \<and> pinned_usable (fa_provider call) k")
        case False
        with assms(1) lk pool1 sent \<open>fw_master_key fw = Some mk\<close> Inr Some show ?thesis
          by (auto simp: forward_def split: sum.splits option.splits if_splits intro: sends_mono)
      next
        case True
        then obtain k where k: "x = Inr (Some k)" "pinned_usable (fa_provider call) k" by blast
        have row: "k \<in> set (t_keys (cur (sess s)))" "k_client_id k = Some (fa_client_id call)"
          using lk k(1)
          by (auto simp: pinned_lookup_def Let_def split: prod.splits if_splits
              dest!: find_Some_mem next_fault_views)
        have loop: "pinned_loop ops e fw call mk url k [0..<total_attempts fw (fa_provider call)]
            (pool_init\<lparr>ps_last_key := Some (k_id k)\<rparr>) (metered (record_key_selected (k_id k)) s1) = (r, s')"
          using assms(1) lk k \<open>fw_master_key fw = Some mk\<close> Inr Some by (simp add: forward_def)
        have "sends (length [0..<total_attempts fw (fa_provider call)]) (tenant_request e fw call s)
            (metered (record_key_selected (k_id k)) s1) s'"
          using loop
        proof (rule pinned_loop_sent)
          show "tenant_request e fw call s (upstream_request fw call url plaintext)"
            if "decrypt_api_key (en_crypto e) mk (k_ciphertext k) = Some plaintext" for plaintext
            unfolding tenant_request_def
            using row k(2) that \<open>fw_master_key fw = Some mk\<close> Inr
            by (intro bexI [OF _ row(1)]) (auto simp: pinned_usable_def)
        qed (simp add: total_attempts_def)
        with sent show ?thesis by (simp add: sends_def)
      qed
    qed
  qed
qed

end

end
