(* ===== verification/Forward_Facts.thy ===== *)
theory Forward_Facts
  imports Forwarder
begin

text \<open>
  What forwarding leaves in the tables. \<open>quiet_relation\<close> collects what a relation between states must
  be closed under to hold across every step that only marks keys; it is interpreted for the ledger
  (the usage counters of keys and clients) and for the tables the data plane does not write here.
\<close>

definition marks :: "(api_key \<Rightarrow> api_key) \<Rightarrow> bool" where
  "marks f \<longleftrightarrow> keeps_ident f \<and> (\<forall>k. k_total_requests (f k) = k_total_requests k \<and> k_hash (f k) = k_hash k \<and>
     (k_is_active (f k) \<longrightarrow> k_is_active k))"

locale quiet_relation =
  fixes R :: "'b app \<Rightarrow> 'b app \<Rightarrow> bool"
  assumes R_trans: "R s t \<Longrightarrow> R t u \<Longrightarrow> R s u"
    and R_mark: "marks f \<Longrightarrow> R s (on_key kid f s)"
    and R_commit: "R s (snd (commit_app s))"
    and R_same: "cur (sess s') = cur (sess s) \<Longrightarrow> db (sess s') = db (sess s) \<Longrightarrow>
      (faults (sess s) = [] \<longrightarrow> faults (sess s') = []) \<Longrightarrow> R s s'"
begin

lemma R_refl: "R s s"
  by (simp add: R_same)

lemma R_commit': "commit_app s = (ok, s') \<Longrightarrow> R s s'"
  using R_commit [of s] by simp

lemma R_mark_commit: "marks f \<Longrightarrow> R s (snd (commit_app (on_key kid f s)))"
  by (rule R_trans [OF R_mark R_commit])

end

lemma marks_fields:
  "marks (roll_day today)" "marks (\<lambda>r. r\<lparr>k_status := st\<rparr>)"
  "marks (\<lambda>r. r\<lparr>k_cooldown_until := c, k_status := st\<rparr>)"
  "marks (\<lambda>k. k\<lparr>k_status := st, k_is_active := False\<rparr>)" "marks (\<lambda>k. k\<lparr>k_status := st, k_cooldown_until := c\<rparr>)"
  "marks (\<lambda>r. r\<lparr>k_cached_remaining := m\<rparr>)"
  by (simp_all add: marks_def keeps_ident_def key_ident_def roll_day_def)

context quiet_relation begin

lemma R_remaining: "remaining_cooldown ops now k s = (r, s') \<Longrightarrow> R s s'"
  by (auto simp: remaining_cooldown_def Let_def R_refl R_same split: if_splits prod.splits sum.splits option.splits)

lemma R_check_quota: "R s (snd (check_quota e cfg now kid k acc s))"
  by (simp add: check_quota_def R_refl R_mark marks_fields)

lemma R_scan_key: "R s (snd (scan_key ops e cfg now today kid acc s))"
proof (cases "key_row kid s")
  case None
  then show ?thesis by (simp add: scan_key_def R_refl)
next
  case (Some k)
  define s1 where "s1 = on_key kid (roll_day today) s"
  obtain r s2 where r: "remaining_cooldown ops now (roll_day today k) s1 = (r, s2)"
    by (cases "remaining_cooldown ops now (roll_day today k) s1")
  have 1: "R s s1" unfolding s1_def by (intro R_mark marks_fields)
  have 2: "R s s2" by (rule R_trans [OF 1 R_remaining [OF r]])
  note 3 = R_trans [OF 1 R_check_quota]
  note 4 = R_trans [OF R_trans [OF 2 R_mark [OF marks_fields(3)]] R_check_quota]
  show ?thesis
    using Some 2 3 4 r by (auto simp: scan_key_def Let_def R_refl simp flip: s1_def
      split: prod.splits sum.splits)
qed

lemma R_scan_loop: "R s (snd (scan_loop ops e cfg now today scope ids idxs acc s))"
proof (induction idxs arbitrary: acc s)
  case (Cons idx rest)
  obtain st s' where k: "scan_key ops e cfg now today (ids ! idx) acc s = (st, s')"
    by (cases "scan_key ops e cfg now today (ids ! idx) acc s")
  have 1: "R s s'" using R_scan_key [of s ops e cfg now today "ids ! idx" acc] k by simp
  obtain ok s'' where c: "commit_app s' = (ok, s'')" by (cases "commit_app s'")
  have 2: "R s s''" by (rule R_trans [OF 1 R_commit' [OF c]])
  then have "R s (s''\<lparr>rr := f\<rparr>)" for f by (rule R_trans) (simp add: R_same)
  with 1 2 R_trans [OF 1 Cons.IH] show ?case
    by (auto simp: k c split: scan_step.splits bool.splits)
qed (simp add: R_refl)

lemma R_fault: "R s (s\<lparr>sess := snd (next_fault (sess s))\<rparr>)"
  by (rule R_same) (simp_all, simp add: next_fault_def)

lemma R_select: "select ops e cfg cid p s = (r, s') \<Longrightarrow> R s s'"
proof -
  assume sel: "select ops e cfg cid p s = (r, s')"
  obtain f ss where f: "next_fault (sess s) = (f, ss)" by (cases "next_fault (sess s)")
  have 1: "R s (s\<lparr>sess := ss\<rparr>)" using R_fault [of s] f by simp
  have 2: "scan_loop ops e cfg now today scope ids idxs acc (s\<lparr>sess := ss\<rparr>) = (x, u) \<Longrightarrow> R s u"
    for now today scope ids idxs acc x u
    using R_trans [OF 1 R_scan_loop [of _ ops e cfg now today scope ids idxs acc]] by simp
  show ?thesis
    using sel 1 2 by (auto simp: select_def f Let_def split: if_splits prod.splits sum.splits)
qed

lemma R_marking:
  "R s (disable_key kid s)" "R s (disable_key_decrypt_failed kid s)" "R s (mark_active kid s)"
  by (auto simp: disable_key_def disable_key_decrypt_failed_def mark_active_def R_refl R_mark_commit
      marks_fields split: option.splits)

lemma R_record_failure: "R s (record_failure cfg kid s)"
proof -
  obtain n s1 where b: "bump_failures cfg kid s = (n, s1)" by (cases "bump_failures cfg kid s")
  have "R s s1" using b by (auto simp: bump_failures_def Let_def R_same split: prod.splits)
  then show ?thesis
    by (auto simp: record_failure_def b Let_def R_refl split: option.splits
        intro: R_trans [OF _ R_mark_commit [OF marks_fields(5)]])
qed

lemma R_commit_mark:
  "commit_app (on_key kid f s) = (ok, s') \<Longrightarrow> marks f \<Longrightarrow> R s s'"
  using R_mark_commit [of f s kid] by simp

lemma R_mark_cooling: "R s (mark_cooling ops kid c s)"
proof (cases "key_row kid s")
  case (Some k)
  let ?f = "\<lambda>k. k\<lparr>k_status := Cooling, k_cooldown_until := Some (wall s + seconds c)\<rparr>"
  obtain ok s1 where com: "commit_app (on_key kid ?f s) = (ok, s1)" by (cases "commit_app (on_key kid ?f s)")
  have 1: "R s s1" using com marks_fields(5) by (rule R_commit_mark)
  then have "R s (metered f s1\<lparr>kback := x\<rparr>)" for f x
    by (rule R_trans) (simp add: R_same)
  with 1 com Some show ?thesis by (simp add: mark_cooling_def R_refl Let_def split: bool.split)
qed (simp add: mark_cooling_def R_refl)

lemma R_mark_answer: "R s (mark_answer ops cfg resp kid s)"
  by (simp add: mark_answer_def R_mark_cooling R_marking R_record_failure R_refl split: answer_class.split)

lemma R_admit: "admit ops k s = (g, s') \<Longrightarrow> R s s'"
  by (auto simp: admit_def R_same split: sum.splits if_splits option.splits prod.splits)

lemma R_send: "send_upstream e rq s = (r, s') \<Longrightarrow> R s s'"
  by (auto simp: send_upstream_def Let_def R_same)

lemma R_exchange: "run_exchange ops e fw call mk url k l s = (r, s') \<Longrightarrow> R s s'"
proof -
  assume ex: "run_exchange ops e fw call mk url k l s = (r, s')"
  then obtain s1 where b: "exchange_body e fw call mk url k s = (r, s1)" and s': "s' = release_lease ops l s1"
    by (auto simp: run_exchange_def split: prod.splits)
  have "R s s1"
    using b by (auto simp: exchange_body_def split: option.splits prod.splits up_outcome.splits
        intro: R_marking R_send R_trans [OF R_send R_record_failure])
  then show ?thesis unfolding s' by (rule R_trans) (simp add: release_lease_def R_same)
qed

lemma R_estimate: "estimate_credits cfg call resp kid s = (c, s') \<Longrightarrow> R s s'"
  by (auto simp: estimate_credits_def Let_def R_refl split: if_splits option.splits
      intro!: R_mark marks_fields)

text \<open>
  How \<open>forward\<close> ends: with an exception or a retryable answer and nothing but marks on the way, or
  with the accounting of one final answer as its last step.
\<close>

definition ends :: "app_config \<Rightarrow> fwd_call \<Rightarrow> 'b app \<Rightarrow> fcam_error + forward_result \<Rightarrow> 'b app \<Rightarrow> bool" where
  "ends cfg call s r s' \<longleftrightarrow>
     R s s' \<and> (\<exists>err. r = Inl err)
     \<or> R s s' \<and> (\<exists>resp kid n. r = Inr (result_of resp kid n) \<and> classify resp \<noteq> Final)
     \<or> (\<exists>resp kid n t. classify resp = Final \<and> R s t \<and> finish cfg call resp kid n t = (r, s'))"

lemma ends_trans: "R s t \<Longrightarrow> ends cfg call t r s' \<Longrightarrow> ends cfg call s r s'"
  unfolding ends_def using R_trans by blast

lemma ends_error: "R s s' \<Longrightarrow> ends cfg call s (Inl err) s'"
  by (simp add: ends_def)

lemma ends_answer: "R s s' \<Longrightarrow> classify resp \<noteq> Final \<Longrightarrow> ends cfg call s (Inr (result_of resp kid n)) s'"
  unfolding ends_def by blast

lemma ends_retryable:
  assumes "R s s'"
  shows "classify resp = Too_many \<Longrightarrow> ends cfg call s (Inr (result_of resp kid n)) s'"
    and "classify resp = Unauthorized \<Longrightarrow> ends cfg call s (Inr (result_of resp kid n)) s'"
    and "classify resp = Server_error \<Longrightarrow> ends cfg call s (Inr (result_of resp kid n)) s'"
  using assms by (simp_all add: ends_answer)

lemma ends_final:
  "classify resp = Final \<Longrightarrow> R s t \<Longrightarrow> finish cfg call resp kid n t = (r, s') \<Longrightarrow> ends cfg call s r s'"
  unfolding ends_def by blast

lemma R_pool_exchange:
  assumes "pool_exchange ops e fw call mk url k l ps s = (r, ps', s')"
  shows "case r of None \<Rightarrow> R s s' | Some x \<Rightarrow> ends (fw_config fw) call s x s'"
proof -
  obtain y s1 where ex: "run_exchange ops e fw call mk url k l s = (y, s1)"
    by (cases "run_exchange ops e fw call mk url k l s")
  have 1: "R s s1" by (rule R_exchange [OF ex])
  note 2 = R_trans [OF 1 R_mark_answer]
  from assms 1 show ?thesis
    by (auto simp: pool_exchange_def Let_def ex split: exchange.splits prod.splits if_splits
        intro: 2 ends_error ends_answer [OF 2] ends_final [OF _ 2])
qed

lemma R_pool_turn:
  assumes "pool_turn ops e fw call mk url ps s = (r, ps', s')"
  shows "case r of None \<Rightarrow> R s s' | Some x \<Rightarrow> ends (fw_config fw) call s x s'"
  using assms
proof (cases rule: pool_turn_cases)
  case (no_key err)
  then show ?thesis by (simp add: ends_error R_select)
next
  case (gone kid)
  then show ?thesis by (simp add: ends_error R_select)
next
  case (refused kid k s1 g)
  have "R s (metered (record_key_selected kid) s1)"
    by (rule R_trans [OF R_select [OF refused(1)]]) (simp add: R_same)
  then have "R s s'" using R_admit [OF refused(3)] by (rule R_trans)
  with refused(5) show ?thesis by (simp add: ends_error split: gate.split)
next
  case (exchanged kid k s1 l s3)
  have "R s (metered (record_key_selected kid) s1)"
    by (rule R_trans [OF R_select [OF exchanged(1)]]) (simp add: R_same)
  then have 3: "R s s3" using R_admit [OF exchanged(3)] by (rule R_trans)
  from R_pool_exchange [OF exchanged(4)] 3 show ?thesis
    by (auto split: option.splits intro: R_trans ends_trans)
qed

lemma R_pinned_turn:
  assumes "pinned_turn ops e fw call mk url k attempt ps s = (r, ps', s')"
  shows "case r of None \<Rightarrow> R s s' | Some x \<Rightarrow> ends (fw_config fw) call s x s'"
proof -
  obtain g s1 where g: "admit ops k s = (g, s1)" by (cases "admit ops k s")
  have 0: "R s s1" by (rule R_admit [OF g])
  show ?thesis
  proof (cases g)
    case (Admitted l)
    obtain x s2 where ex: "run_exchange ops e fw call mk url k l s1 = (x, s2)"
      by (cases "run_exchange ops e fw call mk url k l s1")
    have 1: "R s s2" by (rule R_trans [OF 0 R_exchange [OF ex]])
    note 2 = R_trans [OF 1 R_mark_answer]
    from assms 1 show ?thesis
      by (auto simp: pinned_turn_def g Admitted ex Let_def
          split: exchange.splits answer_class.splits prod.splits if_splits
          intro: 2 ends_error ends_retryable [OF 2] ends_final [OF _ 2])
  qed (use assms g 0 in \<open>auto simp: pinned_turn_def Let_def ends_error\<close>)
qed

lemma ends_pool_loop:
  "pool_loop ops e fw call mk url ps s = (r, s') \<Longrightarrow> ends (fw_config fw) call s r s'"
  by (rule pool_loop_invariant [where I = "\<lambda>ps t. R s t" and P = "\<lambda>r t. ends (fw_config fw) call s r t"])
     (auto dest!: R_pool_turn intro: R_refl R_trans ends_trans ends_error)

lemma ends_pinned_loop:
  "pinned_loop ops e fw call mk url k atts ps s = (r, s') \<Longrightarrow> ends (fw_config fw) call s r s'"
proof (induction atts arbitrary: ps s)
  case (Cons a atts)
  then show ?case
    by (auto split: prod.splits option.splits dest!: R_pinned_turn intro: ends_trans)
qed (simp add: ends_pool_loop)

lemma R_pinned_lookup: "pinned_lookup cid pinned s = (r, s') \<Longrightarrow> R s s'"
  using R_fault [of s] by (auto simp: pinned_lookup_def Let_def split: prod.splits if_splits)

lemma ends_forward: "forward ops e fw call s = (r, s') \<Longrightarrow> ends (fw_config fw) call s r s'"
proof -
  assume f: "forward ops e fw call s = (r, s')"
  have m: "R t (metered g t)" for t g by (simp add: R_same)
  show ?thesis
    using f by (auto simp: forward_def R_refl ends_error split: option.splits sum.splits prod.splits if_splits
      intro: ends_pool_loop ends_error R_pinned_lookup ends_trans [OF R_pinned_lookup ends_pool_loop]
        ends_trans [OF R_trans [OF R_pinned_lookup m] ends_pinned_loop])
qed

end

subsection \<open>The ledger\<close>

text \<open>
  The counters the program bills by, total requests per key and daily usage per client. They are
  \<open>settled\<close> when the session has no uncommitted change to them.
\<close>

definition ledger :: "tables \<Rightarrow> (int \<times> int) list \<times> (int \<times> int \<times> int option) list" where
  "ledger t = (map (\<lambda>k. (k_id k, k_total_requests k)) (t_keys t),
               map (\<lambda>c. (c_id c, c_daily_usage c, c_daily_quota c)) (t_clients t))"

definition settled :: "'b app \<Rightarrow> bool" where
  "settled s \<longleftrightarrow> ledger (cur (sess s)) = ledger (db (sess s))"

definition same_ledger :: "'b app \<Rightarrow> 'b app \<Rightarrow> bool" where
  "same_ledger s s' \<longleftrightarrow> (settled s \<longrightarrow> settled s' \<and> ledger (cur (sess s')) = ledger (cur (sess s)))"

lemma ledger_on_key:
  assumes "\<And>k. (k_id (f k), k_total_requests (f k)) = (k_id k, k_total_requests k)"
  shows "ledger (cur (sess (on_key kid f s))) = ledger (cur (sess s))"
    and "db (sess (on_key kid f s)) = db (sess s)"
proof -
  have "map (\<lambda>k. (k_id k, k_total_requests k)) (upd_where P f ks) = map (\<lambda>k. (k_id k, k_total_requests k)) ks"
    for P ks using assms by (intro upd_where_map_keep)
  then show "ledger (cur (sess (on_key kid f s))) = ledger (cur (sess s))"
    by (simp add: ledger_def on_key_def upd_key_def)
qed (simp add: on_key_def)

lemma marks_ledger: "marks f \<Longrightarrow> (k_id (f k), k_total_requests (f k)) = (k_id k, k_total_requests k)"
  by (auto simp: marks_def keeps_ident_def key_ident_def)

interpretation led: quiet_relation same_ledger
proof
  show "same_ledger s u" if "same_ledger s t" "same_ledger t u" for s t u :: "'b app"
    using that by (simp add: same_ledger_def)
  show "same_ledger s (on_key kid f s)" if "marks f" for f kid and s :: "'b app"
    using ledger_on_key [where f = f and kid = kid and s = s, OF marks_ledger [OF that]]
    by (simp add: same_ledger_def settled_def)
  show "same_ledger s (snd (commit_app s))" for s :: "'b app"
  proof -
    obtain ok s' where c: "commit_app s = (ok, s')" by (cases "commit_app s")
    from c show ?thesis
      by (cases rule: commit_app_cases) (use c in \<open>simp_all add: same_ledger_def settled_def\<close>)
  qed
qed (simp add: same_ledger_def settled_def)

text \<open>The ledger with one more request of a key and, where it has a quota, of a client.\<close>

definition charge :: "int \<Rightarrow> int \<Rightarrow> (int \<times> int) list \<times> (int \<times> int \<times> int option) list
    \<Rightarrow> (int \<times> int) list \<times> (int \<times> int \<times> int option) list" where
  "charge kid cid l =
     (map (\<lambda>(i, n). (i, if i = kid then n + 1 else n)) (fst l),
      map (\<lambda>(i, n, q). (i, if i = cid \<and> q \<noteq> None then n + 1 else n, q)) (snd l))"

lemma ledger_use:
  "ledger (cur (sess (on_key kid (use_key now) (on_client cid (use_client now) s)))) =
     charge kid cid (ledger (cur (sess s)))"
  "db (sess (on_key kid (use_key now) (on_client cid (use_client now) s))) = db (sess s)"
  by (auto simp: ledger_def charge_def on_key_def on_client_def upd_key_def upd_client_def upd_where_def
      use_key_def use_client_def Let_def)

definition counted :: "app_config \<Rightarrow> fcam_error + forward_result \<Rightarrow> bool" where
  "counted cfg r \<longleftrightarrow> qt_count_mode (c_quota cfg) = ''success'' \<and>
     (case r of Inl _ \<Rightarrow> False | Inr res \<Rightarrow> is_success (fr_response res))"

lemma is_success_result [simp]: "is_success (fr_response (result_of resp kid n)) = is_success resp"
  by (simp add: result_of_def to_fastapi_response_def is_success_def)

lemma consume_ledger:
  assumes "consume_quota_on_success cid kid s = (r, s')" and "settled s"
  shows "settled s' \<and> ledger (cur (sess s')) =
    (case r of Inr _ \<Rightarrow> charge kid cid (ledger (cur (sess s))) | Inl _ \<Rightarrow> ledger (cur (sess s)))"
proof -
  let ?s1 = "on_key kid (use_key (wall s)) (on_client cid (use_client (wall s)) s)"
  obtain ok s2 where com: "commit_app ?s1 = (ok, s2)" by (cases "commit_app ?s1")
  have g: "sess (quota_gauges cid kid s2) = sess s2"
    by (simp add: quota_gauges_def Let_def split: option.splits)
  from com show ?thesis
  proof (cases rule: commit_app_cases)
    case 1
    with assms com g show ?thesis
      by (auto simp: consume_quota_on_success_def settled_def ledger_use)
  next
    case 2
    with assms com show ?thesis
      by (auto simp: consume_quota_on_success_def settled_def ledger_use)
  qed
qed

lemma finish_ledger:
  assumes "finish cfg call resp kid n s = (r, s')" and "settled s"
  shows "settled s' \<and> ledger (cur (sess s')) =
    (if counted cfg r then charge kid (fa_client_id call) (ledger (cur (sess s))) else ledger (cur (sess s)))"
proof -
  obtain x s1 where acc: "account_success cfg call resp kid s = (x, s1)"
    by (cases "account_success cfg call resp kid s")
  have r: "s' = s1" "r = (case x of Inl err \<Rightarrow> Inl err | Inr _ \<Rightarrow> Inr (result_of resp kid n))"
    using assms(1) acc by (auto simp: finish_def split: sum.splits)
  show ?thesis
  proof (cases "is_success resp")
    case False
    then have "s1 = s" using acc by (simp add: account_success_def)
    with False r assms(2) show ?thesis by (auto simp: counted_def split: sum.splits)
  next
    case True
    obtain c s2 where est: "estimate_credits cfg call resp kid s = (c, s2)"
      by (cases "estimate_credits cfg call resp kid s")
    have 2: "settled s2" "ledger (cur (sess s2)) = ledger (cur (sess s))"
      using led.R_estimate [OF est] assms(2) by (simp_all add: same_ledger_def)
    show ?thesis
    proof (cases "qt_count_mode (c_quota cfg) = ''success''")
      case mode: True
      then have "consume_quota_on_success (fa_client_id call) kid s2 = (x, s1)"
        using acc est True by (simp add: account_success_def)
      from consume_ledger [OF this 2(1)] show ?thesis
        using r True mode 2 by (auto simp: counted_def split: sum.splits)
    next
      case False
      have "same_ledger s2 s1"
        using acc est True False led.R_commit led.R_refl by (auto simp: account_success_def split: if_splits)
      with 2 r False show ?thesis by (simp add: same_ledger_def counted_def)
    qed
  qed
qed

lemma classify_success: "is_success resp \<Longrightarrow> classify resp = Final"
  by (auto simp: is_success_def classify_def)

lemma forward_ledger:
  assumes "forward ops e fw call s = (r, s')" and "settled s"
  shows "settled s' \<and>
    (if counted (fw_config fw) r
     then \<exists>kid. (\<forall>res. r = Inr res \<longrightarrow> fr_api_key_id res = Some kid) \<and>
        ledger (cur (sess s')) = charge kid (fa_client_id call) (ledger (cur (sess s)))
     else ledger (cur (sess s')) = ledger (cur (sess s)))"
proof -
  from led.ends_forward [OF assms(1)] consider
    (err) "same_ledger s s'" "\<exists>err. r = Inl err"
    | (retryable) resp kid n where "same_ledger s s'" "r = Inr (result_of resp kid n)" "classify resp \<noteq> Final"
    | (final) resp kid n t where "same_ledger s t" "finish (fw_config fw) call resp kid n t = (r, s')"
    unfolding led.ends_def by blast
  then show ?thesis
  proof cases
    case err
    with assms(2) show ?thesis by (auto simp: same_ledger_def counted_def)
  next
    case retryable
    with assms(2) classify_success show ?thesis by (auto simp: same_ledger_def counted_def)
  next
    case final
    have t: "settled t" "ledger (cur (sess t)) = ledger (cur (sess s))"
      using final(1) assms(2) by (simp_all add: same_ledger_def)
    have "\<forall>res. r = Inr res \<longrightarrow> fr_api_key_id res = Some kid"
      using final(2) by (auto simp: finish_def result_of_def split: prod.splits sum.splits)
    with finish_ledger [OF final(2) t(1)] t(2) show ?thesis by auto
  qed
qed

subsection \<open>The other tables\<close>

definition other_tables :: "tables \<Rightarrow> tables" where
  "other_tables t = t\<lparr>t_keys := [], t_clients := []\<rparr>"

definition same_others :: "'b app \<Rightarrow> 'b app \<Rightarrow> bool" where
  "same_others s s' \<longleftrightarrow> (other_tables (cur (sess s)) = other_tables (db (sess s)) \<longrightarrow>
     other_tables (cur (sess s')) = other_tables (cur (sess s)) \<and>
     other_tables (db (sess s')) = other_tables (db (sess s)))"

lemma others_on_key [simp]:
  "other_tables (cur (sess (on_key kid f s))) = other_tables (cur (sess s))"
  "other_tables (cur (sess (on_client cid g s))) = other_tables (cur (sess s))"
  "db (sess (on_key kid f s)) = db (sess s)" "db (sess (on_client cid g s)) = db (sess s)"
  by (simp_all add: other_tables_def on_key_def upd_key_def on_client_def upd_client_def)

lemma same_others_commit: "commit_app s = (ok, s') \<Longrightarrow> same_others s s'"
  by (erule commit_app_cases) (simp_all add: same_others_def)

interpretation oth: quiet_relation same_others
proof
  show "same_others s u" if "same_others s t" "same_others t u" for s t u :: "'b app"
    using that by (simp add: same_others_def)
  show "same_others s (snd (commit_app s))" for s :: "'b app"
    by (cases "commit_app s") (simp add: same_others_commit)
qed (simp_all add: same_others_def)

lemma forward_others:
  assumes "forward ops e fw call s = (r, s')"
  shows "same_others s s'"
proof -
  have use: "consume_quota_on_success cid kid t = (x, u) \<Longrightarrow> same_others t u" for cid kid t x u
  proof -
    assume c: "consume_quota_on_success cid kid t = (x, u)"
    let ?t1 = "on_key kid (use_key (wall t)) (on_client cid (use_client (wall t)) t)"
    obtain ok t2 where com: "commit_app ?t1 = (ok, t2)" by (cases "commit_app ?t1")
    have "same_others t ?t1" by (simp add: same_others_def)
    then have 2: "same_others t t2" using same_others_commit [OF com] by (rule oth.R_trans)
    have "same_others t2 (quota_gauges cid kid t2)"
      by (rule oth.R_same) (simp_all add: quota_gauges_def Let_def split: option.splits)
    then have "same_others t (quota_gauges cid kid t2)" by (rule oth.R_trans [OF 2])
    with c com 2 show ?thesis by (auto simp: consume_quota_on_success_def split: bool.splits)
  qed
  have fin: "finish cfg call resp kid n t = (x, u) \<Longrightarrow> same_others t u" for cfg resp kid n t x u
    by (auto simp: finish_def account_success_def oth.R_refl split: prod.splits sum.splits if_splits
        intro: oth.R_estimate oth.R_trans [OF oth.R_estimate use] oth.R_trans [OF oth.R_estimate oth.R_commit])
  from oth.ends_forward [OF assms] show ?thesis
    unfolding oth.ends_def using fin oth.R_trans by blast
qed

subsection \<open>Errors, retries and exhaustion\<close>

text \<open>The codes a backend's own exceptions have.\<close>

definition backend_codes :: "'b backend \<Rightarrow> string set \<Rightarrow> bool" where
  "backend_codes ops C \<longleftrightarrow>
     (\<forall>c k n b err b'. be_allow ops c k n b = (Inl err, b') \<longrightarrow> e_code err \<in> C) \<and>
     (\<forall>c k n b err b'. be_acquire ops c k n b = (Inl err, b') \<longrightarrow> e_code err \<in> C) \<and>
     (\<forall>c k b err b'. be_remaining ops c k b = (Inl err, b') \<longrightarrow> e_code err \<in> C)"

lemma backend_codesD:
  assumes "backend_codes ops C"
  shows "be_allow ops c k n b = (Inl err, b') \<Longrightarrow> e_code err \<in> C"
    and "be_acquire ops c k m b = (Inl err, b') \<Longrightarrow> e_code err \<in> C"
    and "be_remaining ops c kid b = (Inl err, b') \<Longrightarrow> e_code err \<in> C"
  using assms unfolding backend_codes_def by blast+

lemma memory_codes: "backend_codes memory_ops {}"
  by (auto simp: backend_codes_def memory_ops_def split: prod.splits)

definition pool_codes :: "string set" where
  "pool_codes = {''DB_UNAVAILABLE'', ''NO_KEY_CONFIGURED'', ''ALL_KEYS_DISABLED'', ''NO_KEY_AVAILABLE'',
     ''ALL_KEYS_QUOTA_EXCEEDED'', ''ALL_KEYS_COOLING''}"

definition forward_codes :: "string set" where
  "forward_codes = pool_codes \<union> {''NOT_READY'', ''PROVIDER_NOT_CONFIGURED'', ''KEY_DECRYPT_FAILED'',
     ''ALL_KEYS_BUSY'', ''UPSTREAM_TIMEOUT'', ''UPSTREAM_UNAVAILABLE''}"

lemma no_key_error_code: "e_code (no_key_error cid n acc) \<in> pool_codes"
  by (simp add: no_key_error_def pool_codes_def)

lemma scan_key_raise:
  assumes "backend_codes ops C" and "scan_key ops e cfg now today kid acc s = (Raise err, s')"
  shows "e_code err \<in> C"
proof -
  have "remaining_cooldown ops now k t = (Inl err, t') \<Longrightarrow> e_code err \<in> C" for k t t'
    by (auto simp: remaining_cooldown_def Let_def split: if_splits prod.splits sum.splits option.splits
        dest: backend_codesD(3) [OF assms(1)])
  with assms(2) show ?thesis
    by (auto simp: scan_key_def check_quota_def Let_def split: option.splits if_splits prod.splits sum.splits)
qed

lemma scan_loop_error:
  assumes "backend_codes ops C"
    and "scan_loop ops e cfg now today scope ids idxs acc s = (Inl err, s')"
  shows "e_code err \<in> insert ''DB_UNAVAILABLE'' C"
  using assms(2)
proof (induction idxs arbitrary: acc s)
  case (Cons idx rest)
  then show ?case
    by (auto simp: Let_def split: prod.splits scan_step.splits bool.splits
        dest!: scan_key_raise [OF assms(1)])
qed simp

lemma select_error:
  assumes "backend_codes ops C" and "select ops e cfg cid p s = (Inl err, s')"
  shows "e_code err \<in> pool_codes \<union> C"
proof -
  have "scan_loop ops e cfg now today scope ids idxs acc t = (Inl err, t') \<Longrightarrow> e_code err \<in> pool_codes \<union> C"
    for now today scope ids idxs acc t t'
    using scan_loop_error [OF assms(1)] by (fastforce simp: pool_codes_def)
  with assms(2) no_key_error_code show ?thesis
    by (auto simp: select_def Let_def pool_codes_def split: prod.splits sum.splits if_splits)
qed

lemma error_codes [simp]:
  "e_code (busy_error fw call k) = ''ALL_KEYS_BUSY''"
  "e_code ((busy_error fw call k)\<lparr>e_retry_after := ra\<rparr>) = ''ALL_KEYS_BUSY''"
  "e_code (timeout_error fw call) = ''UPSTREAM_TIMEOUT''"
  "e_code (unavailable_error fw call exc) = ''UPSTREAM_UNAVAILABLE''"
  "e_code decrypt_failed_error = ''KEY_DECRYPT_FAILED''"
  by (simp_all add: busy_error_def timeout_error_def unavailable_error_def decrypt_failed_error_def details_of_def)

lemma exhausted_code: "e_code (exhausted_error fw call ps) \<in> {''ALL_KEYS_BUSY'', ''UPSTREAM_UNAVAILABLE''}"
  by (simp add: exhausted_error_def details_of_def)

lemma finish_code: "finish cfg call resp kid n s = (Inl err, s') \<Longrightarrow> e_code err = ''DB_UNAVAILABLE''"
  by (auto simp: finish_def account_success_def consume_quota_on_success_def
      split: prod.splits sum.splits if_splits bool.splits)

lemma admit_code:
  "backend_codes ops C \<Longrightarrow> admit ops k s = (Gate_error err, s') \<Longrightarrow> e_code err \<in> C"
  by (auto simp: admit_def split: sum.splits if_splits option.splits prod.splits
      dest: backend_codesD(1) backend_codesD(2))

lemma pool_exchange_code:
  "pool_exchange ops e fw call mk url k l ps s = (Some (Inl err), ps', s') \<Longrightarrow>
    e_code err \<in> {''UPSTREAM_TIMEOUT'', ''UPSTREAM_UNAVAILABLE'', ''DB_UNAVAILABLE''}"
  by (auto simp: pool_exchange_def Let_def split: prod.splits exchange.splits if_splits dest: finish_code)

lemma pinned_turn_code:
  assumes "backend_codes ops C" and "pinned_turn ops e fw call mk url k a ps s = (Some (Inl err), ps', s')"
  shows "e_code err \<in> forward_codes \<union> C"
  using assms(2) admit_code [OF assms(1)]
  by (fastforce simp: pinned_turn_def Let_def forward_codes_def pool_codes_def
      split: prod.splits gate.splits exchange.splits if_splits answer_class.splits dest: finish_code)

context lease_backend begin

lemma pool_turn_code:
  assumes "backend_codes ops C" and "pool_turn ops e fw call mk url ps s = (Some (Inl err), ps', s')"
    and "ok_rows s"
  shows "e_code err \<in> forward_codes \<union> C"
  using assms(2)
proof (cases rule: pool_turn_cases)
  case (no_key err')
  then have "e_code err' \<in> pool_codes \<union> C" using select_error [OF assms(1)] by blast
  with no_key(2) show ?thesis by (auto simp: forward_codes_def split: if_splits)
next
  case (gone kid)
  with selected_row [OF gone(1) assms(3)] show ?thesis by auto
next
  case (refused kid k s1 g)
  then obtain err' where "g = Gate_error err'" "err' = err" by (auto split: gate.splits)
  with admit_code [OF assms(1)] refused(3) show ?thesis by auto
next
  case (exchanged kid k s1 l s3)
  from pool_exchange_code [OF exchanged(4)] show ?thesis by (auto simp: forward_codes_def pool_codes_def)
qed

lemma pool_loop_code:
  assumes "backend_codes ops C" and "pool_loop ops e fw call mk url ps s = (r, s')" and "ok_rows s"
  shows "\<forall>err. r = Inl err \<longrightarrow> e_code err \<in> forward_codes \<union> C"
  using assms(2)
proof (rule pool_loop_invariant [where I = "\<lambda>_ t. steady held s t"
      and P = "\<lambda>r t. \<forall>err. r = Inl err \<longrightarrow> e_code err \<in> forward_codes \<union> C"])
  show "steady held s s" by (rule steady_refl)
next
  fix qs :: pool_state and t qs' t'
  assume "steady held s t"
    and "pool_turn ops e fw call mk url (qs\<lparr>ps_tries := ps_tries qs + 1\<rparr>) t = (None, qs', t')"
  then show "steady held s t'" using steady_trans steady_pool_turn by blast
next
  fix qs :: pool_state and t x qs' t'
  assume "steady held s t"
    and turn: "pool_turn ops e fw call mk url (qs\<lparr>ps_tries := ps_tries qs + 1\<rparr>) t = (Some x, qs', t')"
  then have "ok_rows t" using steady_rows assms(3) by blast
  with turn pool_turn_code [OF assms(1)] show "\<forall>err. x = Inl err \<longrightarrow> e_code err \<in> forward_codes \<union> C" by blast
next
  fix qs :: pool_state
  show "\<forall>err. Inl (exhausted_error fw call qs) = (Inl err :: fcam_error + forward_result) \<longrightarrow>
      e_code err \<in> forward_codes \<union> C"
    using exhausted_code [of fw call qs] by (auto simp: forward_codes_def)
qed

lemma pinned_loop_code:
  assumes "backend_codes ops C" and "ok_rows s"
    and "pinned_loop ops e fw call mk url k atts ps s = (Inl err, s')"
  shows "e_code err \<in> forward_codes \<union> C"
  using assms(2,3)
proof (induction atts arbitrary: ps s)
  case Nil
  with pool_loop_code [OF assms(1)] show ?case by simp
next
  case (Cons a atts)
  obtain x ps1 s1 where t: "pinned_turn ops e fw call mk url k a ps s = (x, ps1, s1)"
    by (cases "pinned_turn ops e fw call mk url k a ps s")
  have "ok_rows s1" using steady_rows [OF steady_pinned_turn [OF t] Cons.prems(1)] by simp
  with Cons t pinned_turn_code [OF assms(1)] show ?case by (auto split: option.splits)
qed

lemma forward_code:
  assumes "backend_codes ops C" and "ok_rows s" and "forward ops e fw call s = (Inl err, s')"
  shows "e_code err \<in> forward_codes \<union> C"
proof (cases "\<exists>mk url. fw_master_key fw = Some mk \<and> provider_base_url fw (fa_provider call) = Inr url")
  case False
  with assms(3) show ?thesis
    by (auto simp: forward_def provider_base_url_def forward_codes_def Let_def
        split: option.splits sum.splits if_splits)
next
  case True
  then obtain mk url where cfg: "fw_master_key fw = Some mk" "provider_base_url fw (fa_provider call) = Inr url"
    by blast
  have lk: "ok_rows s1 \<and> ok_rows (metered f s1)" if "pinned_lookup (fa_client_id call) pinned s = (x, s1)"
    for pinned x s1 f
    using steady_rows [OF steady_pinned_lookup [OF that] assms(2)] same_rows_ok same_rows_metered by blast
  have db: "e_code e' = ''DB_UNAVAILABLE''" if "pinned_lookup (fa_client_id call) pinned s = (Inl e', s1)" for pinned e' s1
    using that by (auto simp: pinned_lookup_def Let_def split: prod.splits if_splits)
  show ?thesis
  proof (cases "fa_pinned call")
    case None
    with assms cfg pool_loop_code [OF assms(1)] show ?thesis by (auto simp: forward_def)
  next
    case (Some pinned)
    obtain x s1 where look: "pinned_lookup (fa_client_id call) pinned s = (x, s1)"
      by (cases "pinned_lookup (fa_client_id call) pinned s")
    have ok: "ok_rows s1" "\<And>f. ok_rows (metered f s1)" using lk [OF look] by auto
    note pl = pool_loop_code [OF assms(1) _ ok(1)]
    note pn = pinned_loop_code [OF assms(1) ok(2)]
    have "e_code e' \<in> forward_codes \<union> C" if "x = Inl e'" for e'
      using db look that by (auto simp: forward_codes_def pool_codes_def)
    with assms(3) cfg Some look pl pn show ?thesis
      by (auto simp: forward_def split: sum.splits option.splits if_splits)
  qed
qed

end

text \<open>Statuses after which the pool loop tries another key.\<close>

definition retryable :: "int \<Rightarrow> bool" where
  "retryable st \<longleftrightarrow> st = 429 \<or> st = 401 \<or> st = 403 \<or> 500 \<le> st"

lemma classify_retryable: "classify resp \<noteq> Final \<longleftrightarrow> retryable (hr_status resp)"
  by (auto simp: classify_def retryable_def)

definition upstream_status_in :: "(int \<Rightarrow> bool) \<Rightarrow> forward_result \<Rightarrow> bool" where
  "upstream_status_in P res = (case fr_upstream_status res of None \<Rightarrow> False | Some st \<Rightarrow> P st)"

lemma finish_result:
  "finish cfg call resp kid n s = (r, s') \<Longrightarrow> (\<forall>res. r = Inr res \<longrightarrow> res = result_of resp kid n) \<and> sent s' = sent s"
  using silent_finish [of cfg call resp kid n s r s']
  by (auto simp: finish_def split: prod.splits sum.splits)

lemma pool_exchange_result:
  assumes "pool_exchange ops e fw call mk url k l ps s = (Some (Inr res), ps', s')"
  shows "fr_retry_count res = int (ps_retries ps)"
    and "upstream_status_in retryable res \<Longrightarrow> total_attempts fw (fa_provider call) \<le> ps_attempts ps'"
  using assms
  by (auto simp: pool_exchange_def Let_def result_of_def upstream_status_in_def
      simp flip: classify_retryable
      split: prod.splits exchange.splits if_splits dest!: finish_result)

lemma pool_turn_sent_count:
  assumes "pool_turn ops e fw call mk url ps s = (r, ps', s')"
  shows "length (sent s') + ps_attempts ps = length (sent s) + ps_attempts ps'"
proof -
  have sel_sent: "sent s1 = sent s"
    if "select ops e (fw_config fw) (Some (fa_client_id call)) (fa_provider call) s = (x, s1)" for x s1
    using silent_select [of ops e "fw_config fw" "Some (fa_client_id call)" "fa_provider call" s] that by simp
  from assms show ?thesis
  proof (cases rule: pool_turn_cases)
    case (no_key err)
    then show ?thesis using sel_sent by simp
  next
    case (gone kid)
    then show ?thesis using sel_sent by simp
  next
    case (refused kid k s1 g)
    then show ?thesis using sel_sent silent_admit [OF refused(3)] by (simp split: gate.split)
  next
    case (exchanged kid k s1 l s3)
    have "sent s3 = sent s" using sel_sent [OF exchanged(1)] silent_admit [OF exchanged(3)] by simp
    with pool_exchange_sent [OF exchanged(4)] show ?thesis by auto
  qed
qed

lemma pool_turn_result:
  assumes "pool_turn ops e fw call mk url ps s = (Some (Inr res), ps', s')"
  shows "fr_retry_count res = int (ps_retries ps) \<and>
    (upstream_status_in retryable res \<longrightarrow> total_attempts fw (fa_provider call) \<le> ps_attempts ps')"
  using assms
proof (cases rule: pool_turn_cases)
  case (no_key err)
  from no_key(2) show ?thesis by simp
next
  case (gone kid)
  from gone(3) show ?thesis by simp
next
  case (refused kid k s1 g)
  from refused(4,5) show ?thesis by (cases g) simp_all
next
  case (exchanged kid k s1 l s3)
  note res = pool_exchange_result [OF exchanged(4)]
  show ?thesis using res(1) res(2) by simp
qed

definition pool_counts :: "forwarder \<Rightarrow> fwd_call \<Rightarrow> 'b app \<Rightarrow> pool_state \<Rightarrow> 'b app \<Rightarrow> bool" where
  "pool_counts fw call s ps t \<longleftrightarrow> ps_retries ps = ps_tries ps \<and> ps_attempts ps \<le> ps_tries ps
     \<and> ps_attempts ps \<le> total_attempts fw (fa_provider call)
     \<and> length (sent t) = length (sent s) + ps_attempts ps"

lemma pool_loop_result:
  assumes "pool_loop ops e fw call mk url pool_init s = (r, s')"
  shows "\<forall>res. r = Inr res \<longrightarrow>
    0 \<le> fr_retry_count res \<and> fr_retry_count res < int (max_selection_tries fw (fa_provider call)) \<and>
    int (length (sent s')) - int (length (sent s)) \<le> fr_retry_count res + 1 \<and>
    (upstream_status_in retryable res \<longrightarrow>
       length (sent s') = length (sent s) + total_attempts fw (fa_provider call))" (is "?P r s'")
  using assms
proof (rule pool_loop_invariant [where I = "pool_counts fw call s" and P = ?P])
  show "pool_counts fw call s pool_init s" by (simp add: pool_counts_def pool_init_def)
next
  fix qs :: pool_state and t qs' t'
  assume "pool_counts fw call s qs t" "ps_attempts qs < total_attempts fw (fa_provider call)"
    and turn: "pool_turn ops e fw call mk url (qs\<lparr>ps_tries := ps_tries qs + 1\<rparr>) t = (None, qs', t')"
  then show "pool_counts fw call s qs' t'"
    using pool_turn_state [OF turn] pool_turn_sent_count [OF turn] by (simp add: pool_counts_def)
next
  fix qs :: pool_state and t x qs' t'
  assume I: "pool_counts fw call s qs t" "ps_attempts qs < total_attempts fw (fa_provider call)"
      "ps_tries qs < max_selection_tries fw (fa_provider call)"
    and turn: "pool_turn ops e fw call mk url (qs\<lparr>ps_tries := ps_tries qs + 1\<rparr>) t = (Some x, qs', t')"
  show "?P x t'"
  proof (intro allI impI)
    fix res
    assume "x = Inr res"
    then have res: "fr_retry_count res = int (ps_retries qs)"
      "upstream_status_in retryable res \<longrightarrow> total_attempts fw (fa_provider call) \<le> ps_attempts qs'"
      using pool_turn_result [of ops e fw call mk url "qs\<lparr>ps_tries := ps_tries qs + 1\<rparr>" t res qs' t'] turn
      by simp_all
    have cnt: "ps_attempts qs' \<le> ps_attempts qs + 1"
      "length (sent t') + ps_attempts qs = length (sent t) + ps_attempts qs'"
      using pool_turn_state(2) [OF turn] pool_turn_sent_count [OF turn] by simp_all
    show "0 \<le> fr_retry_count res \<and> fr_retry_count res < int (max_selection_tries fw (fa_provider call)) \<and>
      int (length (sent t')) - int (length (sent s)) \<le> fr_retry_count res + 1 \<and>
      (upstream_status_in retryable res \<longrightarrow>
         length (sent t') = length (sent s) + total_attempts fw (fa_provider call))"
      using I res cnt unfolding pool_counts_def by linarith
  qed
qed simp

text \<open>The pinned loop: attempt \<open>n\<close> is the \<open>n + 1\<close>-th request, and its number is the retry count.\<close>

lemma pinned_turn_result:
  assumes "pinned_turn ops e fw call mk url k a ps s = (r, ps', s')" and "ps_retries ps \<le> a"
  shows "ps_retries ps' \<le> a \<and> (case r of
      None \<Rightarrow> a < total_attempts fw (fa_provider call) - 1 \<and> length (sent s') = length (sent s) + 1
    | Some (Inl _) \<Rightarrow> True
    | Some (Inr res) \<Rightarrow> fr_retry_count res = int a \<and> fr_api_key_id res = Some (k_id k)
        \<and> length (sent s') = length (sent s) + 1)"
proof -
  obtain g s1 where g: "admit ops k s = (g, s1)" by (cases "admit ops k s")
  have s1: "sent s1 = sent s" by (rule silent_admit [OF g])
  show ?thesis
  proof (cases g)
    case (Admitted l)
    obtain y s2 where ex: "run_exchange ops e fw call mk url k l s1 = (y, s2)"
      by (cases "run_exchange ops e fw call mk url k l s1")
    have "y \<noteq> Undecryptable \<Longrightarrow> length (sent s2) = length (sent s) + 1"
      using ex s1 by (auto elim: exchange_cases)
    with assms g Admitted ex show ?thesis
      by (auto simp: pinned_turn_def Let_def result_of_def
          split: exchange.splits prod.splits if_splits answer_class.splits
          dest!: finish_result split: sum.splits)
  qed (use assms g in \<open>auto simp: pinned_turn_def\<close>)
qed

lemma pinned_loop_result:
  assumes "pinned_loop ops e fw call mk url k [a..<total_attempts fw (fa_provider call)] ps s = (r, s')"
    and "ps_retries ps \<le> a" and "a < total_attempts fw (fa_provider call)"
  shows "\<forall>res. r = Inr res \<longrightarrow> fr_api_key_id res = Some (k_id k) \<and>
    int (length (sent s')) - int (length (sent s)) + int a = fr_retry_count res + 1"
  using assms
proof (induction "total_attempts fw (fa_provider call) - a" arbitrary: a ps s)
  case 0
  then show ?case by simp
next
  case (Suc n)
  let ?total = "total_attempts fw (fa_provider call)"
  obtain x ps1 s1 where t: "pinned_turn ops e fw call mk url k a ps s = (x, ps1, s1)"
    by (cases "pinned_turn ops e fw call mk url k a ps s")
  have upt: "[a..<?total] = a # [Suc a..<?total]" using Suc.prems(3) by (rule upt_conv_Cons)
  note turn = pinned_turn_result [OF t Suc.prems(2)]
  show ?case
  proof (cases x)
    case None
    with turn have nxt: "Suc a < ?total" "ps_retries ps1 \<le> Suc a" "length (sent s1) = length (sent s) + 1"
      by auto
    have "pinned_loop ops e fw call mk url k [Suc a..<?total] ps1 s1 = (r, s')"
      using Suc.prems(1) t None by (simp add: upt)
    moreover have "n = ?total - Suc a" using Suc.hyps(2) by simp
    ultimately have "\<forall>res. r = Inr res \<longrightarrow> fr_api_key_id res = Some (k_id k) \<and>
        int (length (sent s')) - int (length (sent s1)) + int (Suc a) = fr_retry_count res + 1"
      using nxt(1,2) by (intro Suc.hyps(1))
    with nxt(3) show ?thesis by fastforce
  next
    case (Some y)
    then have "r = y" "s' = s1" using Suc.prems(1) t by (auto simp: upt)
    with turn Some show ?thesis by (auto split: sum.splits)
  qed
qed

subsection \<open>A database that answers\<close>

text \<open>
  With no round trip failing and the unique constraints satisfied by both views of the session,
  forwarding breaks neither.
\<close>

definition smooth :: "'b app \<Rightarrow> bool" where
  "smooth s \<longleftrightarrow> faults (sess s) = [] \<and> unique_ok (cur (sess s)) \<and> unique_ok (db (sess s))"

definition stays_smooth :: "'b app \<Rightarrow> 'b app \<Rightarrow> bool" where
  "stays_smooth s s' \<longleftrightarrow> (smooth s \<longrightarrow> smooth s')"

lemma commit_smooth:
  assumes "smooth s"
  shows "commit_app s = (True, s\<lparr>sess := (sess s)\<lparr>db := cur (sess s)\<rparr>\<rparr>)"
  using assms by (simp add: smooth_def commit_app_def commit_or_rollback_def commit_no_faults)

lemma smooth_on_key:
  assumes "\<And>k. k_hash (f k) = k_hash k" and "smooth s"
  shows "smooth (on_key kid f s)"
proof -
  have "map k_hash (upd_where P f ks) = map k_hash ks" for P ks
    using assms(1) by (intro upd_where_map_keep)
  with assms(2) show ?thesis by (simp add: smooth_def unique_ok_def on_key_def upd_key_def)
qed

lemma smooth_on_client:
  assumes "\<And>c. c_name (f c) = c_name c \<and> c_token_hash (f c) = c_token_hash c" and "smooth s"
  shows "smooth (on_client cid f s)"
proof -
  have "map c_name (upd_where P f ks) = map c_name ks" "map c_token_hash (upd_where P f ks) = map c_token_hash ks"
    for P ks using assms(1) by (simp_all add: upd_where_map_keep)
  with assms(2) show ?thesis by (simp add: smooth_def unique_ok_def on_client_def upd_client_def)
qed

interpretation smo: quiet_relation stays_smooth
proof
  show "stays_smooth s (on_key kid f s)" if "marks f" for f kid and s :: "'b app"
    using that smooth_on_key [of f s kid] by (simp add: stays_smooth_def marks_def)
  show "stays_smooth s (snd (commit_app s))" for s :: "'b app"
    by (auto simp: stays_smooth_def commit_smooth) (simp add: smooth_def)
qed (simp_all add: stays_smooth_def smooth_def)

lemma finish_smooth:
  assumes "finish cfg call resp kid n s = (r, s')" and "smooth s"
  shows "smooth s'"
proof -
  have com: "commit_app t = (ok, u) \<Longrightarrow> smooth t \<Longrightarrow> smooth u" for t u ok
    using smo.R_commit' [of t ok u] by (simp add: stays_smooth_def)
  have gauges: "smooth (quota_gauges cid kid t) = smooth t" for cid t
    by (simp add: quota_gauges_def smooth_def Let_def split: option.splits)
  have use: "smooth u" if "consume_quota_on_success cid kid t = (x, u)" "smooth t" for cid t x u
  proof -
    let ?t1 = "on_key kid (use_key (wall t)) (on_client cid (use_client (wall t)) t)"
    have "k_hash (use_key now k) = k_hash k" for now k by (simp add: use_key_def Let_def)
    then have "smooth ?t1"
      by (rule smooth_on_key) (rule smooth_on_client [OF _ that(2)], simp add: use_client_def)
    with that(1) com [of ?t1] show ?thesis
      by (auto simp: consume_quota_on_success_def gauges split: prod.splits bool.splits)
  qed
  have est: "estimate_credits cfg call resp kid s = (c, t) \<Longrightarrow> smooth t" for c t
    using smo.R_estimate [of cfg call resp kid s c t] assms(2) by (simp add: stays_smooth_def)
  show ?thesis
    using assms by (auto simp: finish_def account_success_def split: prod.splits sum.splits if_splits
        dest: est intro: use com [OF surjective_pairing])
qed

lemma forward_smooth:
  assumes "forward ops e fw call s = (r, s')" and "smooth s"
  shows "smooth s'"
  using smo.ends_forward [OF assms(1)] assms(2) finish_smooth
  unfolding smo.ends_def by (auto simp: stays_smooth_def)

lemma forward_key_known:
  assumes "forward ops e fw call s = (Inr res, s')"
  shows "\<exists>kid. fr_api_key_id res = Some kid"
  using led.ends_forward [OF assms] unfolding led.ends_def
  by (auto simp: result_of_def dest!: finish_result)

lemma finish_smooth_result:
  assumes "smooth s"
  shows "fst (finish cfg call resp kid n s) = Inr (result_of resp kid n)"
proof -
  obtain c t where est: "estimate_credits cfg call resp kid s = (c, t)"
    by (cases "estimate_credits cfg call resp kid s")
  have t: "smooth t" using smo.R_estimate [OF est] assms by (simp add: stays_smooth_def)
  have "smooth (on_key kid (use_key (wall t)) (on_client (fa_client_id call) (use_client (wall t)) t))"
    using t by (intro smooth_on_key smooth_on_client) (simp_all add: use_key_def use_client_def Let_def)
  then have "fst (consume_quota_on_success (fa_client_id call) kid t) = Inr ()"
    by (simp add: consume_quota_on_success_def commit_smooth)
  then show ?thesis
    by (auto simp: finish_def account_success_def est split: prod.splits sum.splits)
qed

lemma pool_turn_answers:
  assumes "smooth s"
    and "select ops e (fw_config fw) (Some (fa_client_id call)) (fa_provider call) s = (Inr kid, s1)"
    and "key_row kid s1 = Some k"
    and "admit ops k (metered (record_key_selected kid) s1) = (Admitted l, s2)"
    and "decrypt_api_key (en_crypto e) mk (k_ciphertext k) = Some p"
    and "ev_outcome (en_upstream e (length (sent s2)) (upstream_request fw call url p)) = Reply resp"
    and "classify resp = Final"
  shows "fst (pool_turn ops e fw call mk url ps s) = Some (Inr (result_of resp kid (int (ps_retries ps))))"
proof -
  have id: "k_id k = kid" using assms(3) get_key_id by (simp add: key_row_def)
  obtain y s3 where ex: "run_exchange ops e fw call mk url k l s2 = (y, s3)"
    by (cases "run_exchange ops e fw call mk url k l s2")
  have y: "y = Answered resp"
    using ex assms(5,6)
    by (auto simp: run_exchange_def exchange_body_def send_upstream_def Let_def split: prod.splits)
  have "stays_smooth s s1" by (rule smo.R_select [OF assms(2)])
  moreover have "stays_smooth s1 (metered (record_key_selected kid) s1)" by (rule smo.R_same) simp_all
  ultimately have "smooth s3"
    using assms(1) smo.R_admit [OF assms(4)] smo.R_exchange [OF ex] by (simp add: stays_smooth_def)
  from finish_smooth_result [OF this] show ?thesis
    using assms(2-4,7) ex y id
    by (simp add: pool_turn_def pool_exchange_def Let_def case_prod_beta mark_answer_def)
qed

lemma pool_loop_first:
  assumes "ps_attempts ps = 0" and "ps_tries ps = 0"
    and "fst (pool_turn ops e fw call mk url (ps\<lparr>ps_tries := 1\<rparr>) s) = Some r"
  shows "pool_loop ops e fw call mk url ps s = (r, snd (snd (pool_turn ops e fw call mk url (ps\<lparr>ps_tries := 1\<rparr>) s)))"
proof -
  have "0 < total_attempts fw (fa_provider call)" "0 < max_selection_tries fw (fa_provider call)"
    by (simp_all add: total_attempts_def max_selection_tries_def)
  then show ?thesis
    using assms by (subst pool_loop.simps) (simp add: case_prod_beta)
qed

text \<open>
  The good case: the first key is admitted and the upstream service gives a final answer.
\<close>

lemma forward_answers:
  assumes "smooth s" and "fw_master_key fw = Some mk" and "provider_base_url fw (fa_provider call) = Inr url"
    and "fa_pinned call = None"
    and "select ops e (fw_config fw) (Some (fa_client_id call)) (fa_provider call) s = (Inr kid, s1)"
    and "key_row kid s1 = Some k"
    and "admit ops k (metered (record_key_selected kid) s1) = (Admitted l, s2)"
    and "decrypt_api_key (en_crypto e) mk (k_ciphertext k) = Some p"
    and "ev_outcome (en_upstream e (length (sent s2)) (upstream_request fw call url p)) = Reply resp"
    and "classify resp = Final"
  shows "fst (forward ops e fw call s) = Inr (result_of resp kid 0)"
proof -
  have "fst (pool_turn ops e fw call mk url (pool_init\<lparr>ps_tries := 1\<rparr>) s) = Some (Inr (result_of resp kid 0))"
    using pool_turn_answers [OF assms(1,5-10), of "pool_init\<lparr>ps_tries := 1\<rparr>"] by (simp add: pool_init_def)
  from pool_loop_first [OF _ _ this] show ?thesis
    using assms(2-4) by (simp add: forward_def) (simp add: pool_init_def)
qed
end
