(* ===== verification/Idempotency.thy ===== *)
theory Idempotency
  imports Http_Util "HOL-Library.List_Lexorder" "HOL-Library.Char_ord"
begin

text \<open>
  \<open>app/core/idempotency.py\<close>: the record that a request with an idempotency key leaves, the replay of
  the stored response, and the expiry of records.
\<close>

subsection \<open>The hash of a request\<close>

text \<open>\<open>sort_keys=True\<close>: the keys of every object in order.\<close>

fun sort_json :: "json \<Rightarrow> json" where
  "sort_json (JArr xs) = JArr (map sort_json xs)"
| "sort_json (JObj d) = JObj (sort_key fst (map (\<lambda>(k, v). (k, sort_json v)) d))"
| "sort_json j = j"

definition request_doc :: "string \<Rightarrow> string \<Rightarrow> json option \<Rightarrow> json" where
  "request_doc method endpoint payload =
     JObj [(''method'', JStr (upper method)), (''endpoint'', JStr endpoint), (''payload'', json_opt payload)]"

definition hash_request :: "crypto \<Rightarrow> string \<Rightarrow> string \<Rightarrow> json option \<Rightarrow> string" where
  "hash_request cr method endpoint payload =
     cr_sha256_hex cr (dumps_compact (sort_json (request_doc method endpoint payload)))"

subsection \<open>Stored responses\<close>

definition too_large :: fcam_error where
  "too_large = fcam 413 ''REQUEST_TOO_LARGE'' ''Response too large to store''"

definition response_blob :: "http_response \<Rightarrow> json" where
  "response_blob resp =
     JObj [(''v'', JInt 1), (''headers'', JObj (map (\<lambda>(k, v). (k, JStr v)) (hr_headers resp))),
           (''body_b64'', JStr (b64encode (hr_body resp)))]"

definition serialize_response :: "int \<Rightarrow> http_response \<Rightarrow> fcam_error + int \<times> string" where
  "serialize_response max_bytes resp =
     (if max_bytes < int (length (hr_body resp)) then Inl too_large
      else Inr (hr_status resp, dumps_default (response_blob resp)))"

definition invalid_record :: fcam_error where
  "invalid_record = fcam 503 ''DB_UNAVAILABLE'' ''Invalid idempotency record''"

text \<open>\<open>str(x)\<close> of a JSON value.\<close>

definition py_str :: "(json \<Rightarrow> string) \<Rightarrow> json \<Rightarrow> string" where
  "py_str repr v =
     (case v of
        JStr s \<Rightarrow> s
      | JInt i \<Rightarrow> show_int i
      | JBool b \<Rightarrow> if b then ''True'' else ''False''
      | JNull \<Rightarrow> ''None''
      | _ \<Rightarrow> repr v)"

text \<open>\<open>x == 1\<close>, and \<open>d.get(k) or default\<close>.\<close>

definition equals_one :: "json \<Rightarrow> bool" where
  "equals_one v \<longleftrightarrow> v = JInt 1 \<or> v = JBool True"

definition get_or :: "(string \<times> json) list \<Rightarrow> string \<Rightarrow> json \<Rightarrow> json" where
  "get_or d k fallback = (case map_of d k of None \<Rightarrow> fallback | Some v \<Rightarrow> if truthy v then v else fallback)"

definition deserialize_response ::
  "(json \<Rightarrow> string) \<Rightarrow> int \<Rightarrow> string \<Rightarrow> fcam_error + http_response" where
  "deserialize_response repr status_code response_body =
     (case loads response_body of
        Some (JObj data) \<Rightarrow>
          (if \<not> equals_one (json_opt (map_of data ''v'')) then Inl invalid_record
           else
             (case (get_or data ''headers'' (JObj []), get_or data ''body_b64'' (JStr [])) of
                (JObj headers, JStr body_b64) \<Rightarrow>
                  (case (if \<forall>c \<in> set body_b64. (of_char c :: nat) < 128 then b64decode body_b64 else None) of
                     None \<Rightarrow> Inl invalid_record
                   | Some body \<Rightarrow>
                       Inr \<lparr>hr_status = status_code,
                            hr_headers = map (\<lambda>(k, v). (k, py_str repr v)) headers, hr_body = body\<rparr>)
              | _ \<Rightarrow> Inl invalid_record))
      | _ \<Rightarrow> Inl invalid_record)"

subsection \<open>Beginning a request\<close>

definition on_idem :: "(idem_record list \<Rightarrow> idem_record list) \<Rightarrow> 'b app \<Rightarrow> 'b app" where
  "on_idem f s = s\<lparr>sess := (sess s)\<lparr>cur := (cur (sess s))\<lparr>t_idem := f (t_idem (cur (sess s)))\<rparr>\<rparr>\<rparr>"

definition rollback_app :: "'b app \<Rightarrow> 'b app" where
  "rollback_app s = s\<lparr>sess := rollback (sess s)\<rparr>"

definition expired :: "instant \<Rightarrow> instant option \<Rightarrow> bool" where
  "expired now expires_at = (case expires_at of None \<Rightarrow> False | Some x \<Rightarrow> x < now)"

definition cleanup_expired :: "int \<Rightarrow> 'b app \<Rightarrow> 'b app" where
  "cleanup_expired client_id s =
     snd (commit_app (on_idem (filter (\<lambda>r. \<not> (i_client_id r = client_id \<and> expired (wall s) (i_expires_at r)))) s))"

definition idem_match :: "int \<Rightarrow> string \<Rightarrow> idem_record \<Rightarrow> bool" where
  "idem_match client_id key r \<longleftrightarrow> i_client_id r = client_id \<and> i_key r = key"

definition new_record :: "app_config \<Rightarrow> int \<Rightarrow> string \<Rightarrow> string \<Rightarrow> 'b app \<Rightarrow> idem_record" where
  "new_record cfg client_id key hash s =
     \<lparr>i_id = fresh_id (map i_id (t_idem (cur (sess s)))), i_client_id = client_id, i_key = key,
      i_request_hash = hash, i_status = In_progress, i_response_status = None, i_response_body = None,
      i_created_at = wall s,
      i_expires_at = Some (wall s + seconds (max (ip_ttl_seconds (c_idempotency cfg)) 1))\<rparr>"

text \<open>
  A commit whose exceptions the code tells apart, the state of a failed one rolled back.
\<close>

definition commit_exc :: "'b app \<Rightarrow> db_exc option \<times> 'b app" where
  "commit_exc s =
     (case commit (sess s) of
        (None, ss) \<Rightarrow> (None, s\<lparr>sess := ss\<rparr>)
      | (Some exc, ss) \<Rightarrow> (Some exc, s\<lparr>sess := rollback ss\<rparr>))"

text \<open>
  One pass over the body of \<open>start_or_replay\<close> from line 100 on: \<open>Begun\<close> is the context of a new
  record, \<open>Replayed\<close> a stored response, \<open>Start_again\<close> the recursive call after an expired record was
  deleted.
\<close>

datatype begin_result = Begun int | Replayed http_response | Refused fcam_error | Start_again

definition idem_conflict :: fcam_error where
  "idem_conflict = fcam 409 ''IDEMPOTENCY_KEY_CONFLICT'' ''Idempotency key conflict''"

definition idem_in_progress :: fcam_error where
  "idem_in_progress =
     (fcam 409 ''IDEMPOTENCY_IN_PROGRESS'' ''Idempotent request in progress'')\<lparr>e_retry_after := Some 1\<rparr>"

definition judge_existing ::
  "(json \<Rightarrow> string) \<Rightarrow> instant \<Rightarrow> string \<Rightarrow> idem_record \<Rightarrow> 'b app \<Rightarrow> begin_result \<times> 'b app" where
  "judge_existing repr now hash r s =
     (if expired now (i_expires_at r) then
        (case commit_app (on_idem (filter (\<lambda>x. i_id x \<noteq> i_id r)) s) of
           (True, s1) \<Rightarrow> (Start_again, s1)
         | (False, s1) \<Rightarrow> (Refused db_unavailable, s1))
      else if i_request_hash r \<noteq> hash then (Refused idem_conflict, s)
      else
        (case (i_status r, i_response_status r, i_response_body r) of
           (Completed, Some st, Some (c # body)) \<Rightarrow>
             (case deserialize_response repr st (c # body) of
                Inl err \<Rightarrow> (Refused err, s)
              | Inr resp \<Rightarrow> (Replayed resp, s))
         | _ \<Rightarrow> (Refused idem_in_progress, s)))"

definition begin_once ::
  "(json \<Rightarrow> string) \<Rightarrow> app_config \<Rightarrow> int \<Rightarrow> string \<Rightarrow> string \<Rightarrow> 'b app \<Rightarrow> begin_result \<times> 'b app" where
  "begin_once repr cfg client_id key hash s =
     (let s1 = cleanup_expired client_id s;
          r = new_record cfg client_id key hash s1
      in case commit_exc (on_idem (\<lambda>rs. rs @ [r]) s1) of
           (None, s2) \<Rightarrow>
             (case next_fault (sess s2) of
                (False, ss) \<Rightarrow> (Begun (i_id r), s2\<lparr>sess := ss\<rparr>)
              | (True, ss) \<Rightarrow> (Refused db_unavailable, rollback_app (s2\<lparr>sess := ss\<rparr>)))
         | (Some Db_error, s2) \<Rightarrow> (Refused db_unavailable, s2)
         | (Some Integrity_error, s2) \<Rightarrow>
             (case find (idem_match client_id key) (t_idem (cur (sess s2))) of
                None \<Rightarrow> (Refused db_unavailable, s2)
              | Some x \<Rightarrow> judge_existing repr (wall s) hash x s2))"

definition idem_weight :: "int \<Rightarrow> string \<Rightarrow> 'b app \<Rightarrow> nat" where
  "idem_weight client_id key s =
     max (length (filter (idem_match client_id key) (t_idem (cur (sess s)))))
         (length (filter (idem_match client_id key) (t_idem (db (sess s)))))"

lemma commit_exc_cases:
  assumes "commit_exc s = (r, s')"
  obtains "r = None" "cur (sess s') = cur (sess s)" "db (sess s') = cur (sess s)" "unique_ok (cur (sess s))"
    "wall s' = wall s"
  | "r \<noteq> None" "cur (sess s') = db (sess s)" "db (sess s') = db (sess s)" "wall s' = wall s"
proof -
  obtain x ss where c: "commit (sess s) = (x, ss)" by (cases "commit (sess s)")
  show thesis
  proof (cases x)
    case None
    then have "unique_ok (cur (sess s)) \<and> cur ss = cur (sess s) \<and> db ss = cur (sess s)"
      using c by (auto simp: commit_def split: prod.splits if_splits dest: next_fault_views)
    with None assms c that(1) show thesis by (auto simp: commit_exc_def)
  next
    case (Some e)
    then have "db ss = db (sess s)"
      using c by (auto simp: commit_def split: prod.splits if_splits dest: next_fault_views)
    with Some assms c that(2) show thesis by (auto simp: commit_exc_def rollback_def)
  qed
qed

lemma on_idem_sel [simp]:
  "t_idem (cur (sess (on_idem f s))) = f (t_idem (cur (sess s)))" "db (sess (on_idem f s)) = db (sess s)"
  "wall (on_idem f s) = wall s" "faults (sess (on_idem f s)) = faults (sess s)"
  by (simp_all add: on_idem_def)

lemma length_filter_filter: "length (filter P (filter Q xs)) \<le> length (filter P xs)"
  by (induction xs) auto

lemma length_filter_drop:
  "x \<in> set xs \<Longrightarrow> P x \<Longrightarrow> \<not> Q x \<Longrightarrow> length (filter P (filter Q xs)) < length (filter P xs)"
proof (induction xs)
  case (Cons y xs)
  show ?case
  proof (cases "x = y")
    case True
    with Cons.prems length_filter_filter [of P Q xs] show ?thesis by simp
  next
    case False
    with Cons show ?thesis by auto
  qed
qed simp

lemma cleanup_weight:
  "idem_weight cid key (cleanup_expired cid' s) \<le> idem_weight cid key s"
proof -
  define s1 where
    "s1 = on_idem (filter (\<lambda>r. \<not> (i_client_id r = cid' \<and> expired (wall s) (i_expires_at r)))) s"
  have le: "length (filter P (t_idem (cur (sess s1)))) \<le> length (filter P (t_idem (cur (sess s))))" for P
    by (simp only: s1_def on_idem_sel length_filter_filter)
  have d: "db (sess s1) = db (sess s)" by (simp add: s1_def)
  obtain ok s' where c: "commit_app s1 = (ok, s')" by (cases "commit_app s1")
  then have "cleanup_expired cid' s = s'" by (simp add: cleanup_expired_def s1_def)
  moreover have "idem_weight cid key s' \<le> idem_weight cid key s"
    using c
  proof (cases rule: commit_app_cases)
    case 1
    with le [of "idem_match cid key"] show ?thesis by (simp add: idem_weight_def)
  next
    case 2
    with d show ?thesis by (simp add: idem_weight_def)
  qed
  ultimately show ?thesis by simp
qed

lemma begin_once_again:
  assumes "begin_once repr cfg cid key hash s = (Start_again, s')"
  shows "idem_weight cid key s' < idem_weight cid key s"
proof -
  define s1 where "s1 = cleanup_expired cid s"
  obtain x s2 where c: "commit_exc (on_idem (\<lambda>rs. rs @ [new_record cfg cid key hash s1]) s1) = (x, s2)"
    by (cases "commit_exc (on_idem (\<lambda>rs. rs @ [new_record cfg cid key hash s1]) s1)")
  have x: "x = Some Integrity_error"
    using assms c
    by (auto simp: begin_once_def Let_def s1_def [symmetric]
        split: option.splits db_exc.splits prod.splits bool.splits)
  from c x have s2: "cur (sess s2) = db (sess s1)" "db (sess s2) = db (sess s1)"
    by (auto elim: commit_exc_cases)
  obtain r where r: "find (idem_match cid key) (t_idem (cur (sess s2))) = Some r"
    and j: "judge_existing repr (wall s) hash r s2 = (Start_again, s')"
    using assms c x by (auto simp: begin_once_def Let_def s1_def [symmetric] split: option.splits)
  have mem: "r \<in> set (t_idem (cur (sess s2)))" "idem_match cid key r"
    using find_Some_mem [OF r] by auto
  obtain s3 where com: "commit_app (on_idem (filter (\<lambda>x. i_id x \<noteq> i_id r)) s2) = (True, s3)" "s' = s3"
    using j by (auto simp: judge_existing_def split: if_splits prod.splits bool.splits key_status.splits
        idem_status.splits option.splits list.splits sum.splits)
  have "t_idem (cur (sess s3)) = filter (\<lambda>x. i_id x \<noteq> i_id r) (t_idem (cur (sess s2)))"
    "t_idem (db (sess s3)) = filter (\<lambda>x. i_id x \<noteq> i_id r) (t_idem (cur (sess s2)))"
    using com(1) by (auto elim: commit_app_cases)
  moreover have "length (filter (idem_match cid key) (filter (\<lambda>x. i_id x \<noteq> i_id r) (t_idem (cur (sess s2)))))
      < length (filter (idem_match cid key) (t_idem (cur (sess s2))))"
    using mem by (intro length_filter_drop) simp_all
  ultimately have "idem_weight cid key s' < length (filter (idem_match cid key) (t_idem (db (sess s1))))"
    using com(2) s2 by (simp add: idem_weight_def)
  also have "\<dots> \<le> idem_weight cid key s1" by (simp add: idem_weight_def)
  also have "\<dots> \<le> idem_weight cid key s" unfolding s1_def by (rule cleanup_weight)
  finally show ?thesis .
qed

text \<open>
  From line 100 on, the recursion included: it ends because each round deletes a record of the key.
\<close>

function begin_request ::
  "(json \<Rightarrow> string) \<Rightarrow> app_config \<Rightarrow> int \<Rightarrow> string \<Rightarrow> string \<Rightarrow> 'b app
     \<Rightarrow> (fcam_error + int + http_response) \<times> 'b app" where
  "begin_request repr cfg client_id key hash s =
     (case begin_once repr cfg client_id key hash s of
        (Begun i, s') \<Rightarrow> (Inr (Inl i), s')
      | (Replayed resp, s') \<Rightarrow> (Inr (Inr resp), s')
      | (Refused err, s') \<Rightarrow> (Inl err, s')
      | (Start_again, s') \<Rightarrow> begin_request repr cfg client_id key hash s')"
  by pat_completeness auto
termination
  by (relation "measure (\<lambda>(repr, cfg, client_id, key, hash, s). idem_weight client_id key s)")
     (auto dest: begin_once_again [OF sym])

declare begin_request.simps [simp del]

definition required_endpoints :: "app_config \<Rightarrow> string set" where
  "required_endpoints cfg = strip ` {x \<in> set (ip_require_on (c_idempotency cfg)). x \<noteq> [] \<and> strip x \<noteq> []}"

definition start_or_replay ::
  "env \<Rightarrow> app_config \<Rightarrow> int \<Rightarrow> string option \<Rightarrow> string \<Rightarrow> string \<Rightarrow> json option \<Rightarrow> 'b app
     \<Rightarrow> (fcam_error + int option \<times> http_response option) \<times> 'b app" where
  "start_or_replay e cfg client_id idempotency_key endpoint method payload s =
     (if \<not> ip_enabled (c_idempotency cfg) then (Inr (None, None), s)
      else
        (case given idempotency_key of
           None \<Rightarrow>
             (if endpoint \<in> required_endpoints cfg
              then (Inl (fcam 400 ''IDEMPOTENCY_KEY_REQUIRED'' ''Idempotency key required''), s)
              else (Inr (None, None), s))
         | Some key \<Rightarrow>
             (case begin_request (en_repr e) cfg client_id key
                     (hash_request (en_crypto e) method endpoint payload) s of
                (Inl err, s1) \<Rightarrow> (Inl err, s1)
              | (Inr (Inl i), s1) \<Rightarrow> (Inr (Some i, None), s1)
              | (Inr (Inr resp), s1) \<Rightarrow> (Inr (None, Some resp), s1))))"

definition complete :: "app_config \<Rightarrow> int option \<Rightarrow> http_response \<Rightarrow> 'b app \<Rightarrow> 'b app" where
  "complete cfg ctx response s =
     (case ctx of
        None \<Rightarrow> s
      | Some rid \<Rightarrow>
          if \<not> ip_enabled (c_idempotency cfg) then s
          else
            (let (fault, ss) = next_fault (sess s); s0 = s\<lparr>sess := ss\<rparr> in
             if fault then rollback_app s0
             else if \<not> (\<exists>r \<in> set (t_idem (cur ss)). i_id r = rid) then s0
             else
               (case serialize_response (max (ip_max_response_bytes (c_idempotency cfg)) 1) response of
                  Inl _ \<Rightarrow> rollback_app s0
                | Inr (status, body) \<Rightarrow>
                    snd (commit_app (on_idem (upd_where (\<lambda>r. i_id r = rid)
                      (\<lambda>r. r\<lparr>i_status := Completed, i_response_status := Some status,
                              i_response_body := Some body\<rparr>)) s0)))))"

subsection \<open>Round trip of a stored response\<close>

lemma b64_char_ascii: "v < 64 \<Longrightarrow> (of_char (b64_char v) :: nat) < 128"
  by (auto simp: b64_char_def)

lemma b64encode_ascii: "\<forall>c \<in> set (b64encode s). (of_char c :: nat) < 128"
proof (induction s rule: b64encode.induct)
  case (2 a)
  have "(of_char a :: nat) < 256" by (rule nat_of_char_less_256)
  then show ?case by (simp add: Let_def b64_char_ascii less_mult_imp_div_less)
next
  case (3 a b)
  have "(of_char a :: nat) < 256" "(of_char b :: nat) < 256" by (rule nat_of_char_less_256)+
  then show ?case
    by (simp add: Let_def, intro conjI) (rule b64_char_ascii, linarith)+
next
  case (4 a b c s)
  have "(of_char a :: nat) < 256" "(of_char b :: nat) < 256" "(of_char c :: nat) < 256"
    by (rule nat_of_char_less_256)+
  moreover have "(of_char b :: nat) div 16 < 16" "(of_char c :: nat) div 64 < 4"
    using calculation by (simp_all add: less_mult_imp_div_less)
  ultimately show ?case
    using 4 by (simp add: Let_def, intro conjI) (rule b64_char_ascii, linarith)+
qed simp

definition json_headers :: "(string \<times> string) list \<Rightarrow> (string \<times> json) list" where
  "json_headers hs = map (\<lambda>(k, v). (k, JStr v)) hs"

lemma json_headers_facts:
  "map fst (json_headers hs) = map fst hs" "\<forall>(k, v) \<in> set (json_headers hs). wf_json v"
  "map (\<lambda>(k, v). (k, py_str repr v)) (json_headers hs) = hs"
  by (induction hs) (auto simp: json_headers_def py_str_def)

lemma wf_response_blob: "distinct (map fst (hr_headers resp)) \<Longrightarrow> wf_json (response_blob resp)"
  using json_headers_facts(1,2) [of "hr_headers resp"]
  by (simp add: response_blob_def json_headers_def [symmetric])

lemma deserialize_serialize:
  assumes "serialize_response m resp = Inr (st, body)" and "distinct (map fst (hr_headers resp))"
  shows "deserialize_response repr st body = Inr resp"
proof -
  have st: "st = hr_status resp" and body: "body = dumps_default (response_blob resp)"
    using assms(1) by (auto simp: serialize_response_def split: if_splits)
  let ?hs = "json_headers (hr_headers resp)"
  have ld: "loads body = Some (response_blob resp)"
    unfolding body by (rule loads_dumps [OF seps_default wf_response_blob [OF assms(2)]])
  have ascii: "\<forall>c \<in> set (b64encode (hr_body resp)). (of_char c :: nat) < 128" by (rule b64encode_ascii)
  let ?d = "[(''v'', JInt 1), (''headers'', JObj ?hs), (''body_b64'', JStr (b64encode (hr_body resp)))]"
  have g: "get_or ?d ''headers'' (JObj []) = JObj ?hs"
    "get_or ?d ''body_b64'' (JStr []) = JStr (b64encode (hr_body resp))"
    by (auto simp: get_or_def)
  have "response_blob resp = JObj ?d" by (simp add: response_blob_def json_headers_def)
  then show ?thesis
    using ld ascii g json_headers_facts(3) [of repr "hr_headers resp"]
    by (simp add: deserialize_response_def equals_one_def json_opt_def st b64decode_encode)
qed

subsection \<open>Beginning, completing and replaying\<close>

text \<open>A session with nothing uncommitted whose round trips succeed.\<close>

definition calm :: "'b app \<Rightarrow> bool" where
  "calm s \<longleftrightarrow> faults (sess s) = [] \<and> db (sess s) = cur (sess s) \<and> unique_ok (cur (sess s))
     \<and> distinct (map i_id (t_idem (cur (sess s))))"

text \<open>The same with uncommitted changes allowed: what completing a request needs.\<close>

definition ready_idem :: "'b app \<Rightarrow> bool" where
  "ready_idem s \<longleftrightarrow> faults (sess s) = [] \<and> unique_ok (cur (sess s))
     \<and> distinct (map i_id (t_idem (cur (sess s))))"

lemma calm_ready: "calm s \<Longrightarrow> ready_idem s"
  by (simp add: calm_def ready_idem_def)

definition live :: "int \<Rightarrow> string \<Rightarrow> instant \<Rightarrow> idem_record \<Rightarrow> bool" where
  "live cid key now r \<longleftrightarrow> idem_match cid key r \<and> \<not> expired now (i_expires_at r)"

lemma unique_ok_filter:
  "unique_ok t \<Longrightarrow> unique_ok (t\<lparr>t_idem := filter P (t_idem t)\<rparr>)"
  by (simp add: unique_ok_def distinct_map_filter)

lemma commit_app_calm:
  assumes "faults (sess s) = []" and "unique_ok (cur (sess s))"
  shows "commit_app s = (True, s\<lparr>sess := (sess s)\<lparr>db := cur (sess s)\<rparr>\<rparr>)"
  using assms by (simp add: commit_app_def commit_or_rollback_def commit_no_faults)

lemma cleanup_calm:
  assumes "calm s"
  shows "calm (cleanup_expired cid s)"
    and "t_idem (cur (sess (cleanup_expired cid s))) =
      filter (\<lambda>r. \<not> (i_client_id r = cid \<and> expired (wall s) (i_expires_at r))) (t_idem (cur (sess s)))"
    and "wall (cleanup_expired cid s) = wall s"
proof -
  let ?f = "filter (\<lambda>r. \<not> (i_client_id r = cid \<and> expired (wall s) (i_expires_at r)))"
  have u: "unique_ok (cur (sess (on_idem ?f s)))"
    using assms unique_ok_filter by (simp add: calm_def on_idem_def)
  have "cleanup_expired cid s =
      (on_idem ?f s)\<lparr>sess := (sess (on_idem ?f s))\<lparr>db := cur (sess (on_idem ?f s))\<rparr>\<rparr>"
    unfolding cleanup_expired_def using assms by (subst commit_app_calm [OF _ u]) (simp_all add: calm_def)
  then show "calm (cleanup_expired cid s)" "t_idem (cur (sess (cleanup_expired cid s))) = ?f (t_idem (cur (sess s)))"
    "wall (cleanup_expired cid s) = wall s"
    using assms u by (simp_all add: calm_def distinct_map_filter)
qed

lemma find_unique:
  assumes "r \<in> set xs" and "P r" and "\<And>x. x \<in> set xs \<Longrightarrow> P x \<Longrightarrow> x = r"
  shows "find P xs = Some r"
proof (cases "find P xs")
  case None
  with assms(1,2) show ?thesis by (auto simp: find_None_all)
next
  case (Some y)
  with assms(3) find_Some_mem [OF Some] show ?thesis by simp
qed

lemma idem_unique:
  assumes "unique_ok t" and "r \<in> set (t_idem t)" "x \<in> set (t_idem t)" and "idem_match cid key r" "idem_match cid key x"
  shows "x = r"
  using assms by (auto simp: unique_ok_def idem_match_def distinct_map inj_on_def)

lemma begin_live:
  assumes "calm s" and "r \<in> set (t_idem (cur (sess s)))" and "live cid key (wall s) r"
  shows "begin_once repr cfg cid key hash s =
    judge_existing repr (wall s) hash r (cleanup_expired cid s)"
proof -
  define s1 where "s1 = cleanup_expired cid s"
  let ?new = "new_record cfg cid key hash s1"
  have calm: "calm s1" and r: "r \<in> set (t_idem (cur (sess s1)))"
    using cleanup_calm [OF assms(1), of cid] assms(2,3) by (auto simp: s1_def live_def)
  have m: "idem_match cid key r" using assms(3) by (simp add: live_def)
  let ?s2 = "on_idem (\<lambda>rs. rs @ [?new]) s1"
  have "\<not> unique_ok (cur (sess ?s2))"
    using r m by (force simp: unique_ok_def on_idem_def new_record_def idem_match_def)
  then have "commit_exc ?s2 = (Some Integrity_error, ?s2\<lparr>sess := rollback (sess ?s2)\<rparr>)"
    using calm by (simp add: commit_exc_def commit_no_faults calm_def)
  moreover have "?s2\<lparr>sess := rollback (sess ?s2)\<rparr> = s1"
    using calm by (simp add: on_idem_def rollback_def calm_def)
  moreover have "find (idem_match cid key) (t_idem (cur (sess s1))) = Some r"
    using r m by (rule find_unique) (use calm idem_unique r m in \<open>auto simp: calm_def\<close>)
  ultimately show ?thesis by (simp add: begin_once_def s1_def [symmetric] Let_def)
qed

lemma begin_new:
  assumes "calm s" and "\<forall>r \<in> set (t_idem (cur (sess s))). \<not> live cid key (wall s) r"
  shows "\<exists>s' r. begin_once repr cfg cid key hash s = (Begun (i_id r), s') \<and> calm s'
    \<and> r \<in> set (t_idem (cur (sess s'))) \<and> idem_match cid key r \<and> i_request_hash r = hash
    \<and> i_status r = In_progress
    \<and> i_expires_at r = Some (wall s + seconds (max (ip_ttl_seconds (c_idempotency cfg)) 1))"
proof -
  define s1 where "s1 = cleanup_expired cid s"
  let ?new = "new_record cfg cid key hash s1"
  have calm: "calm s1" and w: "wall s1 = wall s"
    and none: "\<forall>x \<in> set (t_idem (cur (sess s1))). \<not> idem_match cid key x"
    using cleanup_calm [OF assms(1), of cid] assms(2) by (auto simp: s1_def live_def idem_match_def)
  let ?s2 = "on_idem (\<lambda>rs. rs @ [?new]) s1"
  have u: "unique_ok (cur (sess ?s2))"
    using calm none by (auto simp: calm_def unique_ok_def on_idem_def new_record_def idem_match_def)
  have d: "distinct (map i_id (t_idem (cur (sess ?s2))))"
    using calm fresh_id_fresh [of "map i_id (t_idem (cur (sess s1)))"] by (simp add: calm_def new_record_def)
  let ?s3 = "?s2\<lparr>sess := (sess ?s2)\<lparr>db := cur (sess ?s2)\<rparr>\<rparr>"
  have f: "faults (sess ?s2) = []" using calm by (simp add: calm_def)
  have "commit_exc ?s2 = (None, ?s3)"
    using u f by (simp add: commit_exc_def commit_no_faults)
  then have "begin_once repr cfg cid key hash s = (Begun (i_id ?new), ?s3)"
    using f by (simp add: begin_once_def s1_def [symmetric] next_fault_def Let_def)
  moreover have "calm ?s3" using u f d by (simp add: calm_def)
  ultimately show ?thesis
    using w by (intro exI [of _ ?s3] exI [of _ ?new]) (simp add: new_record_def idem_match_def)
qed

lemma complete_calm:
  assumes "ready_idem s" and "r \<in> set (t_idem (cur (sess s)))" and "ip_enabled (c_idempotency cfg)"
    and "serialize_response (max (ip_max_response_bytes (c_idempotency cfg)) 1) resp = Inr (st, body)"
  shows "calm (complete cfg (Some (i_id r)) resp s) \<and>
    r\<lparr>i_status := Completed, i_response_status := Some st, i_response_body := Some body\<rparr>
      \<in> set (t_idem (cur (sess (complete cfg (Some (i_id r)) resp s))))
    \<and> wall (complete cfg (Some (i_id r)) resp s) = wall s"
proof -
  let ?f = "\<lambda>r. r\<lparr>i_status := Completed, i_response_status := Some st, i_response_body := Some body\<rparr>"
  let ?s2 = "on_idem (upd_where (\<lambda>x. i_id x = i_id r) ?f) s"
  have keep: "map g (upd_where P ?f xs) = map g xs"
    if "\<And>x. g (?f x) = g x" for g :: "idem_record \<Rightarrow> 'c" and P xs
    using that by (intro upd_where_map_keep)
  have u: "unique_ok (cur (sess ?s2))" "distinct (map i_id (t_idem (cur (sess ?s2))))"
    using assms(1) keep [of "\<lambda>r. (i_client_id r, i_key r)"] keep [of i_id]
    by (simp_all add: ready_idem_def unique_ok_def on_idem_def)
  have "complete cfg (Some (i_id r)) resp s = ?s2\<lparr>sess := (sess ?s2)\<lparr>db := cur (sess ?s2)\<rparr>\<rparr>"
    using assms u commit_app_calm [of ?s2]
    by (auto simp: complete_def ready_idem_def next_fault_def Let_def)
  moreover have "?f r \<in> set (t_idem (cur (sess ?s2)))"
    using assms(2) by (auto simp: upd_where_def)
  ultimately show ?thesis using u assms(1) by (simp add: calm_def ready_idem_def)
qed

lemma judge_completed:
  assumes "i_request_hash r = hash" and "i_status r = Completed" and "i_response_status r = Some st"
    and "i_response_body r = Some body" and "\<not> expired now (i_expires_at r)"
    and "serialize_response m resp = Inr (st, body)" and "distinct (map fst (hr_headers resp))"
  shows "judge_existing repr now hash r s = (Replayed resp, s)"
proof -
  have "deserialize_response repr st body = Inr resp"
    using assms(6,7) by (rule deserialize_serialize)
  moreover obtain c b where "body = c # b"
    using assms(6) by (cases body) (auto simp: serialize_response_def response_blob_def split: if_splits)
  ultimately show ?thesis using assms(1-5) by (simp add: judge_existing_def)
qed

text \<open>
  End to end: a request that began and completed is replayed, to the byte, by every later one with the
  same key and content until the record expires, whatever else happened to the state meanwhile.
\<close>

lemma replay_after_complete:
  assumes "calm s" and "\<forall>r \<in> set (t_idem (cur (sess s))). \<not> live cid key (wall s) r"
    and "ip_enabled (c_idempotency cfg)" and "key \<noteq> []"
    and "start_or_replay e cfg cid (Some key) endpoint method payload s = (Inr (ctx, x), s1)"
    and "t_idem (cur (sess t)) = t_idem (cur (sess s1))" and "ready_idem t"
    and "int (length (hr_body resp)) \<le> max (ip_max_response_bytes (c_idempotency cfg)) 1"
    and "distinct (map fst (hr_headers resp))"
    and "u = complete cfg ctx resp t"
    and "t_idem (cur (sess v)) = t_idem (cur (sess u))" and "calm v"
    and "wall v \<le> wall s + seconds (max (ip_ttl_seconds (c_idempotency cfg)) 1)"
  shows "fst (start_or_replay e cfg cid (Some key) endpoint method payload v) = Inr (None, Some resp)"
proof -
  let ?hash = "hash_request (en_crypto e) method endpoint payload"
  obtain s' r where b: "begin_once (en_repr e) cfg cid key ?hash s = (Begun (i_id r), s')"
    and r: "r \<in> set (t_idem (cur (sess s')))" "idem_match cid key r" "i_request_hash r = ?hash"
      "i_expires_at r = Some (wall s + seconds (max (ip_ttl_seconds (c_idempotency cfg)) 1))"
    using begin_new [OF assms(1,2)] by blast
  have "given (Some key) = Some key" using assms(4) by (simp add: given_Some)
  note unfold = start_or_replay_def this begin_request.simps
  have s1: "ctx = Some (i_id r)" "s1 = s'" using assms(3,5) b by (simp_all add: unfold)
  define st body where "st = hr_status resp" and "body = dumps_default (response_blob resp)"
  have ser: "serialize_response (max (ip_max_response_bytes (c_idempotency cfg)) 1) resp = Inr (st, body)"
    unfolding serialize_response_def st_def body_def by (rule if_not_P) (use assms(8) in linarith)
  let ?r = "r\<lparr>i_status := Completed, i_response_status := Some st, i_response_body := Some body\<rparr>"
  have "?r \<in> set (t_idem (cur (sess u)))"
    using complete_calm [OF assms(7) _ assms(3) ser, of r] assms(6,10) r(1) s1 by simp
  then have mem: "?r \<in> set (t_idem (cur (sess v)))" using assms(11) by simp
  have "live cid key (wall v) ?r" using r(2,4) assms(13) by (simp add: live_def idem_match_def expired_def)
  from begin_live [OF assms(12) mem this, of "en_repr e" cfg ?hash]
  have "begin_once (en_repr e) cfg cid key ?hash v = (Replayed resp, cleanup_expired cid v)"
    using judge_completed [of ?r ?hash st body "wall v" _ resp] r(3,4) ser assms(9,13)
    by (simp add: expired_def)
  then show ?thesis using assms(3) by (simp add: unfold)
qed

text \<open>While a record lives, no second request with its key begins.\<close>

lemma no_second_begin:
  assumes "calm s" and "r \<in> set (t_idem (cur (sess s)))" and "live cid key (wall s) r"
    and "ip_enabled (c_idempotency cfg)" and "key \<noteq> []"
  shows "case fst (start_or_replay e cfg cid (Some key) endpoint method payload s) of
      Inl err \<Rightarrow> i_request_hash r \<noteq> hash_request (en_crypto e) method endpoint payload \<longrightarrow> err = idem_conflict
    | Inr (ctx, replay) \<Rightarrow> ctx = None \<and> replay \<noteq> None
        \<and> i_request_hash r = hash_request (en_crypto e) method endpoint payload \<and> i_status r = Completed"
proof -
  let ?hash = "hash_request (en_crypto e) method endpoint payload"
  have ne: "\<not> expired (wall s) (i_expires_at r)" using assms(3) by (simp add: live_def)
  have "given (Some key) = Some key" using assms(5) by (simp add: given_Some)
  note unfold = start_or_replay_def this begin_request.simps
  from begin_live [OF assms(1-3), of "en_repr e" cfg ?hash] ne assms(4) show ?thesis
    by (auto simp: unfold judge_existing_def split: option.split list.split sum.split idem_status.split)
qed

end
