(* ===== verification/Resource_Binding.thy ===== *)
theory Resource_Binding
  imports Idempotency
begin

text \<open>
  \<open>app/core/resource_binding.py\<close>: which key created an upstream resource, so that later calls on it
  use the same key.
\<close>

definition on_bindings :: "(binding list \<Rightarrow> binding list) \<Rightarrow> 'b app \<Rightarrow> 'b app" where
  "on_bindings f s = s\<lparr>sess := (sess s)\<lparr>cur := (cur (sess s))\<lparr>t_bindings := f (t_bindings (cur (sess s)))\<rparr>\<rparr>\<rparr>"

definition binding_match :: "int \<Rightarrow> string \<Rightarrow> string \<Rightarrow> binding \<Rightarrow> bool" where
  "binding_match client_id resource_type rid b \<longleftrightarrow>
     b_client_id b = client_id \<and> b_resource_type b = take 32 resource_type \<and> b_resource_id b = take 128 rid"

definition later_expiry :: "instant option \<Rightarrow> instant option \<Rightarrow> bool" where
  "later_expiry old new =
     (case new of None \<Rightarrow> False | Some n \<Rightarrow> (case old of None \<Rightarrow> True | Some x \<Rightarrow> x < n))"

definition bind_resource ::
  "int \<Rightarrow> int \<Rightarrow> string \<Rightarrow> string \<Rightarrow> int option \<Rightarrow> 'b app \<Rightarrow> 'b app" where
  "bind_resource client_id api_key_id resource_type resource_id ttl_seconds s =
     (let rid = strip resource_id in
      if rid = [] then s
      else
        (let now = wall s;
             expires_at = (case ttl_seconds of
                             None \<Rightarrow> None | Some t \<Rightarrow> if t = 0 then None else Some (now + seconds t));
             record = \<lparr>b_id = fresh_id (map b_id (t_bindings (cur (sess s)))), b_client_id = client_id,
                       b_api_key_id = api_key_id, b_resource_type = take 32 resource_type,
                       b_resource_id = take 128 rid, b_created_at = now, b_expires_at = expires_at\<rparr>
         in case commit_exc (on_bindings (\<lambda>bs. bs @ [record]) s) of
              (None, s1) \<Rightarrow> s1
            | (Some Db_error, s1) \<Rightarrow> s1
            | (Some Integrity_error, s1) \<Rightarrow>
                (case find (binding_match client_id resource_type rid) (t_bindings (cur (sess s1))) of
                   None \<Rightarrow> s1
                 | Some existing \<Rightarrow>
                     if b_api_key_id existing \<noteq> api_key_id then s1
                     else if later_expiry (b_expires_at existing) expires_at then
                       snd (commit_app (on_bindings (upd_where (\<lambda>b. b_id b = b_id existing)
                         (\<lambda>b. b\<lparr>b_expires_at := expires_at\<rparr>)) s1))
                     else s1)))"

definition lookup_bound_key_id :: "int \<Rightarrow> string \<Rightarrow> string \<Rightarrow> 'b app \<Rightarrow> int option \<times> 'b app" where
  "lookup_bound_key_id client_id resource_type resource_id s =
     (let rid = strip resource_id in
      if rid = [] then (None, s)
      else
        (let (fault, ss) = next_fault (sess s); s0 = s\<lparr>sess := ss\<rparr> in
         if fault then (None, s0)
         else
           (case find (binding_match client_id resource_type rid) (t_bindings (cur ss)) of
              None \<Rightarrow> (None, s0)
            | Some b \<Rightarrow>
                if expired (wall s) (b_expires_at b) then
                  (None, snd (commit_app (on_bindings (filter (\<lambda>x. b_id x \<noteq> b_id b)) s0)))
                else (Some (b_api_key_id b), s0))))"

subsection \<open>Facts\<close>

lemma on_bindings_sel [simp]:
  "t_bindings (cur (sess (on_bindings f s))) = f (t_bindings (cur (sess s)))"
  "db (sess (on_bindings f s)) = db (sess s)" "wall (on_bindings f s) = wall s"
  "faults (sess (on_bindings f s)) = faults (sess s)" "t_keys (cur (sess (on_bindings f s))) = t_keys (cur (sess s))"
  by (simp_all add: on_bindings_def)

text \<open>The binding in force for a resource, as a function of the rows.\<close>

definition bound_key :: "int \<Rightarrow> string \<Rightarrow> string \<Rightarrow> instant \<Rightarrow> tables \<Rightarrow> int option" where
  "bound_key client_id resource_type resource_id now t =
     (case find (binding_match client_id resource_type (strip resource_id)) (t_bindings t) of
        None \<Rightarrow> None
      | Some b \<Rightarrow> if expired now (b_expires_at b) then None else Some (b_api_key_id b))"

lemma lookup_result:
  assumes "faults (sess s) = []" and "strip resource_id \<noteq> []"
  shows "fst (lookup_bound_key_id cid rt resource_id s) = bound_key cid rt resource_id (wall s) (cur (sess s))"
  using assms by (simp add: lookup_bound_key_id_def bound_key_def next_fault_def Let_def split: option.split)

lemma find_append_one:
  "find P (xs @ [x]) = (case find P xs of None \<Rightarrow> if P x then Some x else None | Some y \<Rightarrow> Some y)"
  by (induction xs) auto

lemma find_match_None:
  assumes "find (binding_match cid rt rid) bs = None"
  shows "(cid, take 32 rt, take 128 rid) \<notin> (\<lambda>b. (b_client_id b, b_resource_type b, b_resource_id b)) ` set bs"
  using assms by (auto simp: find_None_all binding_match_def)

lemma find_match_Some:
  assumes "find (binding_match cid rt rid) bs = Some b"
  shows "b \<in> set bs" "b_client_id b = cid" "b_resource_type b = take 32 rt" "b_resource_id b = take 128 rid"
  using find_Some_mem [OF assms] by (auto simp: binding_match_def)

text \<open>
  Binding a resource that is not bound yet makes its key the one every later lookup finds; binding
  one that is bound to another key changes nothing.
\<close>

lemma bind_new:
  assumes "calm s" and "find (binding_match cid rt (strip rid)) (t_bindings (cur (sess s))) = None"
    and "strip rid \<noteq> []"
  shows "bound_key cid rt rid now (cur (sess (bind_resource cid kid rt rid None s))) = Some kid"
    and "calm (bind_resource cid kid rt rid None s)"
    and "t_keys (cur (sess (bind_resource cid kid rt rid None s))) = t_keys (cur (sess s))"
proof -
  define r where "r = \<lparr>b_id = fresh_id (map b_id (t_bindings (cur (sess s)))), b_client_id = cid,
                       b_api_key_id = kid, b_resource_type = take 32 rt,
                       b_resource_id = take 128 (strip rid), b_created_at = wall s, b_expires_at = None\<rparr>"
  let ?s1 = "on_bindings (\<lambda>bs. bs @ [r]) s"
  have u: "unique_ok (cur (sess ?s1))"
    using assms(1) find_match_None [OF assms(2)] by (simp add: calm_def unique_ok_def on_bindings_def r_def)
  let ?s2 = "?s1\<lparr>sess := (sess ?s1)\<lparr>db := cur (sess ?s1)\<rparr>\<rparr>"
  have "commit_exc ?s1 = (None, ?s2)"
    using u assms(1) by (simp add: commit_exc_def commit_no_faults calm_def)
  then have b: "bind_resource cid kid rt rid None s = ?s2"
    using assms(3) by (simp add: bind_resource_def Let_def r_def [symmetric])
  have "binding_match cid rt (strip rid) r" by (simp add: binding_match_def r_def)
  then show "bound_key cid rt rid now (cur (sess (bind_resource cid kid rt rid None s))) = Some kid"
    using assms(2) by (simp add: b bound_key_def find_append_one expired_def r_def)
  show "calm (bind_resource cid kid rt rid None s)"
    using u assms(1) by (simp add: b calm_def) (simp add: on_bindings_def)
  show "t_keys (cur (sess (bind_resource cid kid rt rid None s))) = t_keys (cur (sess s))" by (simp add: b)
qed

lemma bind_bound:
  assumes "calm s" and "find (binding_match cid rt (strip rid)) (t_bindings (cur (sess s))) = Some b"
  shows "bind_resource cid kid rt rid None s = s"
proof (cases "strip rid = []")
  case True
  then show ?thesis by (simp add: bind_resource_def)
next
  case False
  define r where "r = \<lparr>b_id = fresh_id (map b_id (t_bindings (cur (sess s)))), b_client_id = cid,
                       b_api_key_id = kid, b_resource_type = take 32 rt,
                       b_resource_id = take 128 (strip rid), b_created_at = wall s, b_expires_at = None\<rparr>"
  let ?s1 = "on_bindings (\<lambda>bs. bs @ [r]) s"
  have "\<not> unique_ok (cur (sess ?s1))"
    using find_match_Some [OF assms(2)] by (force simp: unique_ok_def on_bindings_def r_def)
  then have "commit_exc ?s1 = (Some Integrity_error, ?s1\<lparr>sess := rollback (sess ?s1)\<rparr>)"
    using assms(1) by (simp add: commit_exc_def commit_no_faults calm_def)
  moreover have "?s1\<lparr>sess := rollback (sess ?s1)\<rparr> = s"
    using assms(1) by (simp add: on_bindings_def rollback_def calm_def)
  ultimately show ?thesis
    using False assms(2) by (simp add: bind_resource_def Let_def r_def [symmetric] later_expiry_def)
qed

lemma same_rows_bindings: "same_rows s (on_bindings f s)"
  by (simp add: same_rows_def)

lemma steady_bindings: "steady held s (on_bindings f s)"
  by (simp add: steady_def same_rows_bindings) (simp add: on_bindings_def)

lemma steady_lookup: "lookup_bound_key_id cid rt rid s = (r, s') \<Longrightarrow> steady held s s'"
proof -
  assume l: "lookup_bound_key_id cid rt rid s = (r, s')"
  obtain f ss where f: "next_fault (sess s) = (f, ss)" by (cases "next_fault (sess s)")
  have 1: "steady held s (s\<lparr>sess := ss\<rparr>)"
    using next_fault_views [OF f] by (simp add: steady_def same_rows_def)
  from l 1 show ?thesis
    by (auto simp: lookup_bound_key_id_def f Let_def steady_refl split: if_splits option.splits
        intro: steady_trans [OF 1 steady_trans [OF steady_bindings steady_commit]])
qed

lemma silent_lookup [silent]: "lookup_bound_key_id cid rt rid s = (r, s') \<Longrightarrow> sent s' = sent s"
  by (auto simp: lookup_bound_key_id_def Let_def on_bindings_def split: if_splits option.splits prod.splits)

end
