(* ===== verification/Governance.thy ===== *)
theory Governance
  imports Forward_Facts Resource_Binding
begin

text \<open>
  \<open>app/api/deps.py\<close>: who may call, and the concurrency, rate and quota gates a client passes before
  a data-plane handler runs.
\<close>

subsection \<open>Authentication\<close>

definition bearer_token :: "string option \<Rightarrow> string option" where
  "bearer_token authorization =
     (case given authorization of
        None \<Rightarrow> None
      | Some a \<Rightarrow>
          (case split_once (CHR '' '') a of
             (_, None) \<Rightarrow> None
           | (scheme, Some rest) \<Rightarrow>
               if lower scheme \<noteq> ''bearer'' then None else or_none (strip rest)))"

definition require_admin :: "secrets \<Rightarrow> headers \<Rightarrow> fcam_error + unit" where
  "require_admin secrets hs =
     (case set_secret (sec_admin_token secrets) of
        None \<Rightarrow> Inl (fcam 503 ''NOT_READY'' ''Admin token not configured'')
      | Some admin \<Rightarrow>
          if bearer_token (header_get hs ''authorization'') = Some admin then Inr ()
          else Inl (fcam 401 ''ADMIN_UNAUTHORIZED'' ''Missing or invalid admin token''))"

definition client_unauthorized :: fcam_error where
  "client_unauthorized = fcam 401 ''CLIENT_UNAUTHORIZED'' ''Missing or invalid client token''"

definition require_client :: "env \<Rightarrow> secrets \<Rightarrow> headers \<Rightarrow> 'b app \<Rightarrow> (fcam_error + int) \<times> 'b app" where
  "require_client e secrets hs s =
     (case set_secret (sec_master_key secrets) of
        None \<Rightarrow> (Inl (fcam 503 ''NOT_READY'' ''Master key not configured''), s)
      | Some master \<Rightarrow>
          (case bearer_token (header_get hs ''authorization'') of
             None \<Rightarrow> (Inl client_unauthorized, s)
           | Some token \<Rightarrow>
               (let token_hash = cr_hmac_hex (en_crypto e) (derive_master_key_bytes (en_crypto e) master) token;
                    (fault, ss) = next_fault (sess s); s0 = s\<lparr>sess := ss\<rparr>
                in if fault then (Inl db_unavailable, s0)
                   else
                     (case find (\<lambda>c. c_token_hash c = token_hash) (t_clients (cur ss)) of
                        None \<Rightarrow> (Inl client_unauthorized, s0)
                      | Some c \<Rightarrow>
                          if \<not> c_is_active c then (Inl (fcam 403 ''CLIENT_DISABLED'' ''Client disabled''), s0)
                          else (Inr (c_id c), s0)))))"

subsection \<open>The gates of a client\<close>

text \<open>
  The limiter and the concurrency manager of the client scope are a second backend, beside the key
  scope's in the state. In the quota check a failed commit is not rolled
  back here, the request's session is closed instead.
\<close>

definition concurrency_limited :: fcam_error where
  "concurrency_limited = fcam 429 ''CLIENT_CONCURRENCY_LIMITED'' ''Client concurrency limited''"

definition rate_limited :: "int \<Rightarrow> fcam_error" where
  "rate_limited ra = (fcam 429 ''CLIENT_RATE_LIMITED'' ''Client rate limited'')\<lparr>e_retry_after := Some ra\<rparr>"

definition client_quota_exceeded :: "env \<Rightarrow> app_config \<Rightarrow> instant \<Rightarrow> fcam_error" where
  "client_quota_exceeded e cfg now =
     (fcam 429 ''CLIENT_QUOTA_EXCEEDED'' ''Client quota exceeded'')\<lparr>e_retry_after := Some (midnight e cfg now)\<rparr>"

definition check_client_quota :: "env \<Rightarrow> app_config \<Rightarrow> client \<Rightarrow> 'b app \<Rightarrow> (fcam_error + unit) \<times> 'b app" where
  "check_client_quota e cfg c s =
     (case c_daily_quota c of
        None \<Rightarrow> (Inr (), s)
      | Some quota \<Rightarrow>
          if \<not> qt_enable_quota_check (c_quota cfg) then (Inr (), s)
          else
            (let today = today_in_timezone (en_zone e) (qt_timezone (c_quota cfg)) (wall s);
                 verdict = (\<lambda>usage t. if quota \<le> usage then (Inl (client_quota_exceeded e cfg (wall t)), t)
                                      else (Inr (), t))
             in if c_quota_reset_at c \<noteq> Some today then
                  (case commit (sess (on_client (c_id c)
                          (\<lambda>x. x\<lparr>c_daily_usage := 0, c_quota_reset_at := Some today\<rparr>) s)) of
                     (None, ss) \<Rightarrow> verdict 0 (s\<lparr>sess := ss\<rparr>)
                   | (Some _, ss) \<Rightarrow> (Inl db_unavailable, s\<lparr>sess := ss\<rparr>))
                else verdict (c_daily_usage c) s))"

definition enforce_client_governance ::
  "'b backend \<Rightarrow> env \<Rightarrow> app_config \<Rightarrow> client \<Rightarrow> 'b \<Rightarrow> 'b app \<Rightarrow> (fcam_error + lease) \<times> 'b \<times> 'b app" where
  "enforce_client_governance ops e cfg c cb s =
     (case be_acquire ops (clk_of s) (show_int (c_id c)) (c_max_concurrent c) cb of
        (Inl err, cb1) \<Rightarrow> (Inl err, cb1, s)
      | (Inr None, cb1) \<Rightarrow> (Inl concurrency_limited, cb1, s)
      | (Inr (Some l), cb1) \<Rightarrow>
          (case be_allow ops (clk_of s) (show_int (c_id c)) (c_rate_limit_per_min c) cb1 of
             (Inl err, cb2) \<Rightarrow> (Inl err, cb2, s)
           | (Inr (allowed, retry_after), cb2) \<Rightarrow>
               if \<not> allowed then (Inl (rate_limited retry_after), be_release ops (clk_of s) l cb2, s)
               else
                 (case check_client_quota e cfg c s of
                    (Inl err, s1) \<Rightarrow> (Inl err, be_release ops (clk_of s1) l cb2, s1)
                  | (Inr _, s1) \<Rightarrow> (Inr l, cb2, s1))))"

text \<open>
  A governed handler: authentication, the gates, the handler, and the release of the client's lease
  whatever the handler does.
\<close>

definition governed ::
  "'b backend \<Rightarrow> env \<Rightarrow> app_config \<Rightarrow> secrets \<Rightarrow> headers \<Rightarrow> (int \<Rightarrow> 'b app \<Rightarrow> (fcam_error + 'a) \<times> 'b app)
     \<Rightarrow> 'b \<Rightarrow> 'b app \<Rightarrow> (fcam_error + 'a) \<times> 'b \<times> 'b app" where
  "governed ops e cfg secrets hs handler cb s =
     (case require_client e secrets hs s of
        (Inl err, s1) \<Rightarrow> (Inl err, cb, s1)
      | (Inr cid, s1) \<Rightarrow>
          (case get_client cid (sess s1) of
             None \<Rightarrow> (Inl (fcam 500 ''INTERNAL_ERROR'' ''Internal error''), cb, s1)
           | Some c \<Rightarrow>
               (case enforce_client_governance ops e cfg c cb s1 of
                  (Inl err, cb1, s2) \<Rightarrow> (Inl err, cb1, s2)
                | (Inr l, cb1, s2) \<Rightarrow>
                    (case handler cid s2 of (r, s3) \<Rightarrow> (r, be_release ops (clk_of s3) l cb1, s3)))))"

subsection \<open>Facts\<close>

lemma require_client_active:
  assumes "require_client e secrets hs s = (Inr cid, s')"
  shows "\<exists>c master token. c \<in> set (t_clients (cur (sess s))) \<and> c_id c = cid \<and> c_is_active c
    \<and> set_secret (sec_master_key secrets) = Some master
    \<and> bearer_token (header_get hs ''authorization'') = Some token
    \<and> c_token_hash c = cr_hmac_hex (en_crypto e) (derive_master_key_bytes (en_crypto e) master) token"
proof -
  obtain f ss where f: "next_fault (sess s) = (f, ss)" by (cases "next_fault (sess s)")
  show ?thesis
    using assms next_fault_views [OF f]
    by (auto simp: require_client_def f Let_def split: option.splits if_splits dest!: find_Some_mem)
qed

lemma require_client_sess:
  assumes "require_client e secrets hs s = (r, s')"
  shows "cur (sess s') = cur (sess s) \<and> db (sess s') = db (sess s) \<and> wall s' = wall s \<and> sent s' = sent s
    \<and> kback s' = kback s"
proof -
  obtain f ss where f: "next_fault (sess s) = (f, ss)" by (cases "next_fault (sess s)")
  show ?thesis
    using assms next_fault_views [OF f]
    by (auto simp: require_client_def f Let_def split: option.splits if_splits)
qed

lemma check_quota_frames:
  assumes "check_client_quota e cfg c s = (r, s')"
  shows "wall s' = wall s \<and> sent s' = sent s \<and> kback s' = kback s"
  using assms by (auto simp: check_client_quota_def Let_def split: option.splits if_splits prod.splits)

text \<open>Every refusal of the gates, but for an exception of the limiter itself, gives the slot back.\<close>

context lease_backend begin

lemma enforce_refused:
  assumes "enforce_client_governance ops e cfg c cb s = (Inl err, cb', s')"
    and "\<forall>k n b. \<exists>x b'. be_allow ops (clk_of s) k n b = (Inr x, b')" and "wall s \<le> t"
  shows "held t cb' = held t cb"
proof -
  have clk: "fst (clk_of s) \<le> t" using assms(3) by (simp add: clk_of_def)
  obtain q cb1 where ac: "be_acquire ops (clk_of s) (show_int (c_id c)) (c_max_concurrent c) cb = (q, cb1)"
    by (cases "be_acquire ops (clk_of s) (show_int (c_id c)) (c_max_concurrent c) cb")
  show ?thesis
  proof (cases "\<exists>l. q = Inr (Some l)")
    case False
    with assms(1) ac have "cb' = cb1" "q = Inr None \<or> (\<exists>x. q = Inl x)"
      by (auto simp: enforce_client_governance_def split: sum.splits option.splits)
    with ac acquire_refused [OF _ clk] acquire_error [OF _ clk] show ?thesis by auto
  next
    case True
    then obtain l where q: "q = Inr (Some l)" by blast
    obtain ok ra cb2 where
      al: "be_allow ops (clk_of s) (show_int (c_id c)) (c_rate_limit_per_min c) cb1 = (Inr (ok, ra), cb2)"
      using assms(2) by (metis surj_pair)
    have "cb' = be_release ops (clk_of s') l cb2"
      using assms(1) ac q al by (auto simp: enforce_client_governance_def split: if_splits prod.splits sum.splits)
    then have "held t cb' = held t (be_release ops (clk_of s') l cb1)" using allow_release [OF al] by simp
    also have "\<dots> = held t cb" using acquire_release ac q clk by blast
    finally show ?thesis .
  qed
qed

lemma enforce_granted:
  assumes "enforce_client_governance ops e cfg c cb s = (Inr l, cb', s')" and "wall s \<le> t"
  shows "held t (be_release ops c' l cb') = held t cb"
proof -
  have clk: "fst (clk_of s) \<le> t" using assms(2) by (simp add: clk_of_def)
  obtain cb1 a where ac: "be_acquire ops (clk_of s) (show_int (c_id c)) (c_max_concurrent c) cb = (Inr (Some l), cb1)"
    and al: "be_allow ops (clk_of s) (show_int (c_id c)) (c_rate_limit_per_min c) cb1 = (a, cb')"
    using assms(1) by (auto simp: enforce_client_governance_def split: sum.splits option.splits prod.splits if_splits)
  have "held t (be_release ops c' l cb') = held t (be_release ops c' l cb1)" by (rule allow_release [OF al])
  also have "\<dots> = held t cb" by (rule acquire_release [OF ac clk])
  finally show ?thesis .
qed

lemma enforce_wall:
  "enforce_client_governance ops e cfg c cb s = (r, cb', s') \<Longrightarrow> wall s' = wall s \<and> sent s' = sent s"
  by (auto simp: enforce_client_governance_def split: sum.splits option.splits prod.splits if_splits
      dest: check_quota_frames)

text \<open>A governed handler leaves the client scope's leases as they were, on every path.\<close>

lemma governed_held:
  assumes "governed ops e cfg secrets hs handler cb s = (r, cb', s')"
    and "\<And>cid t x t'. handler cid t = (x, t') \<Longrightarrow> wall t \<le> wall t'"
    and "\<And>clk k n b. \<exists>x b'. be_allow ops clk k n b = (Inr x, b')" and "wall s' \<le> t"
  shows "held t cb' = held t cb"
proof -
  obtain q s1 where rc: "require_client e secrets hs s = (q, s1)" by (cases "require_client e secrets hs s")
  have w1: "wall s1 = wall s" using require_client_sess [OF rc] by simp
  show ?thesis
  proof (cases "\<exists>cid c. q = Inr cid \<and> get_client cid (sess s1) = Some c")
    case False
    with assms(1) rc show ?thesis by (auto simp: governed_def split: sum.splits option.splits)
  next
    case True
    then obtain cid c where q: "q = Inr cid" and c: "get_client cid (sess s1) = Some c" by blast
    obtain x cb1 s2 where en: "enforce_client_governance ops e cfg c cb s1 = (x, cb1, s2)"
      by (cases "enforce_client_governance ops e cfg c cb s1")
    have w2: "wall s2 = wall s1" using enforce_wall [OF en] by simp
    show ?thesis
    proof (cases x)
      case (Inl err)
      then have "cb' = cb1" "s' = s2" using assms(1) rc q c en by (simp_all add: governed_def)
      with enforce_refused [OF en [unfolded Inl]] assms(3,4) w2 show ?thesis by simp
    next
      case (Inr l)
      obtain y s3 where h: "handler cid s2 = (y, s3)" by (cases "handler cid s2")
      have "cb' = be_release ops (clk_of s3) l cb1" "s' = s3"
        using assms(1) rc q c en Inr h by (auto simp: governed_def)
      moreover have "wall s1 \<le> t" using assms(2) [OF h] assms(4) calculation(2) w2 by simp
      ultimately show ?thesis using enforce_granted [OF en [unfolded Inr]] by simp
    qed
  qed
qed

end

text \<open>
  An exception of the limiter after the slot was taken is raised with the slot still taken: no
  handler on that path releases the lease.
\<close>

lemma limiter_error_keeps_lease:
  assumes "be_acquire ops (clk_of s) (show_int (c_id c)) (c_max_concurrent c) cb = (Inr (Some l), cb1)"
    and "be_allow ops (clk_of s) (show_int (c_id c)) (c_rate_limit_per_min c) cb1 = (Inl err, cb2)"
  shows "enforce_client_governance ops e cfg c cb s = (Inl err, cb2, s)"
  using assms by (simp add: enforce_client_governance_def)

end
