(* ===== verification/Data_Plane.thy ===== *)
theory Data_Plane
  imports Governance
begin

text \<open>
  The data-plane routers: \<open>app/api/data_plane.py\<close> (\<open>/api\<close>), \<open>firecrawl_compat.py\<close> (\<open>/v1\<close>),
  \<open>exa_compat.py\<close> (\<open>/exa\<close>) and \<open>firecrawl_v2_compat.py\<close> (\<open>/v2\<close>). A handler gets the inbound request
  and the client's id and returns the response with what it noted on \<open>request.state\<close>.
\<close>

record inbound =
  ib_request_id :: string
  ib_path :: string
  ib_query :: string
  ib_headers :: headers
  ib_body :: "json option"

record rstate =
  rs_endpoint :: "string option"
  rs_api_key_id :: "int option"
  rs_retry_count :: "int option"

definition rstate_init :: rstate where
  "rstate_init = \<lparr>rs_endpoint = None, rs_api_key_id = None, rs_retry_count = None\<rparr>"

type_synonym 'b handled = "(fcam_error + http_response) \<times> rstate \<times> 'b app"

subsection \<open>Shared steps\<close>

text \<open>\<open>request.headers.get(name)\<close> and \<open>dict(request.headers)\<close>: the first value of a name.\<close>

definition header_first :: "headers \<Rightarrow> string \<Rightarrow> string option" where
  "header_first hs name = (case header_values hs name of [] \<Rightarrow> None | v # _ \<Rightarrow> Some v)"

definition header_dict :: "headers \<Rightarrow> headers" where
  "header_dict hs =
     map (\<lambda>k. (k, case header_first hs k of None \<Rightarrow> [] | Some v \<Rightarrow> v)) (remdups (map (lower \<circ> fst) hs))"

definition with_query :: "inbound \<Rightarrow> string \<Rightarrow> string" where
  "with_query inb path = (if ib_query inb = [] then path else path @ ''?'' @ ib_query inb)"

definition path_and_query :: "inbound \<Rightarrow> string" where
  "path_and_query inb = with_query inb (ib_path inb)"

definition call_of ::
  "inbound \<Rightarrow> int \<Rightarrow> string \<Rightarrow> string \<Rightarrow> json option \<Rightarrow> int option \<Rightarrow> string \<Rightarrow> fwd_call" where
  "call_of inb cid method path body pinned provider =
     \<lparr>fa_request_id = ib_request_id inb, fa_client_id = cid, fa_method = method, fa_path = path,
      fa_body = body, fa_headers = header_dict (ib_headers inb), fa_pinned = pinned, fa_provider = provider\<rparr>"

definition note_result :: "forward_result \<Rightarrow> rstate \<Rightarrow> rstate" where
  "note_result res rs = rs\<lparr>rs_api_key_id := fr_api_key_id res, rs_retry_count := Some (fr_retry_count res)\<rparr>"

definition gone_or_not_allowed :: "http_response \<Rightarrow> bool" where
  "gone_or_not_allowed resp \<longleftrightarrow> hr_status resp = 404 \<or> hr_status resp = 405"

text \<open>\<open>_forward_with_fallback\<close>.\<close>

definition forward_with_fallback ::
  "'b backend \<Rightarrow> env \<Rightarrow> forwarder \<Rightarrow> inbound \<Rightarrow> int \<Rightarrow> string \<Rightarrow> string \<Rightarrow> string option \<Rightarrow> json option
     \<Rightarrow> int option \<Rightarrow> rstate \<Rightarrow> 'b app \<Rightarrow> 'b handled" where
  "forward_with_fallback ops e fw inb cid method primary fallback payload pinned rs s =
     (case forward ops e fw (call_of inb cid method primary payload pinned ''firecrawl'') s of
        (Inl err, s1) \<Rightarrow> (Inl err, rs, s1)
      | (Inr res, s1) \<Rightarrow>
          (case fallback of
             Some path \<Rightarrow>
               if gone_or_not_allowed (fr_response res) then
                 (case forward ops e fw (call_of inb cid method path payload pinned ''firecrawl'') s1 of
                    (Inl err, s2) \<Rightarrow> (Inl err, rs, s2)
                  | (Inr res2, s2) \<Rightarrow> (Inr (fr_response res2), note_result res2 rs, s2))
               else (Inr (fr_response res), note_result res rs, s1)
           | None \<Rightarrow> (Inr (fr_response res), note_result res rs, s1)))"

text \<open>\<open>_extract_id_from_response\<close> and \<open>_maybe_bind_created_resource\<close>.\<close>

definition extract_id_from_response :: "http_response \<Rightarrow> string option" where
  "extract_id_from_response resp =
     (if \<not> is_success resp then None
      else if \<not> substr ''application/json'' (lower (case header_first (hr_headers resp) ''content-type'' of
                 None \<Rightarrow> [] | Some v \<Rightarrow> v)) then None
      else if hr_body resp = [] then None
      else (case loads (hr_body resp) of
              Some (JObj d) \<Rightarrow> (case map_of d ''id'' of Some (JStr i) \<Rightarrow> or_none (strip i) | _ \<Rightarrow> None)
            | _ \<Rightarrow> None))"

definition maybe_bind_created_resource ::
  "int \<Rightarrow> string \<Rightarrow> http_response \<Rightarrow> rstate \<Rightarrow> 'b app \<Rightarrow> 'b app" where
  "maybe_bind_created_resource cid resource_type resp rs s =
     (case (extract_id_from_response resp, rs_api_key_id rs) of
        (Some rid, Some kid) \<Rightarrow> bind_resource cid kid resource_type rid None s
      | _ \<Rightarrow> s)"

text \<open>The handlers without idempotency of the \<open>/api\<close>, \<open>/v1\<close> and \<open>/exa\<close> routers note the endpoint last.\<close>

definition forward_route ::
  "'b backend \<Rightarrow> env \<Rightarrow> forwarder \<Rightarrow> inbound \<Rightarrow> int \<Rightarrow> string \<Rightarrow> string \<Rightarrow> string \<Rightarrow> json option \<Rightarrow> string
     \<Rightarrow> rstate \<Rightarrow> 'b app \<Rightarrow> 'b handled" where
  "forward_route ops e fw inb cid endpoint method path body provider rs s =
     (case forward ops e fw (call_of inb cid method path body None provider) s of
        (Inl err, s1) \<Rightarrow> (Inl err, rs, s1)
      | (Inr res, s1) \<Rightarrow> (Inr (fr_response res), (note_result res rs)\<lparr>rs_endpoint := Some endpoint\<rparr>, s1))"

text \<open>Begin or replay, run the forwarding part, complete: the shape of every idempotent handler.\<close>

definition idempotent_route ::
  "env \<Rightarrow> forwarder \<Rightarrow> inbound \<Rightarrow> int \<Rightarrow> string \<Rightarrow> (rstate \<Rightarrow> 'b app \<Rightarrow> 'b handled) \<Rightarrow> rstate \<Rightarrow> 'b app
     \<Rightarrow> 'b handled" where
  "idempotent_route e fw inb cid endpoint body rs s =
     (let rs0 = rs\<lparr>rs_endpoint := Some endpoint\<rparr> in
      case start_or_replay e (fw_config fw) cid (header_first (ib_headers inb) ''x-idempotency-key'')
             endpoint ''POST'' (ib_body inb) s of
        (Inl err, s1) \<Rightarrow> (Inl err, rs0, s1)
      | (Inr (_, Some replay), s1) \<Rightarrow> (Inr replay, rs0\<lparr>rs_retry_count := Some 0\<rparr>, s1)
      | (Inr (ctx, None), s1) \<Rightarrow>
          (case body rs0 s1 of
             (Inl err, rs1, s2) \<Rightarrow> (Inl err, rs1, s2)
           | (Inr resp, rs1, s2) \<Rightarrow> (Inr resp, rs1, complete (fw_config fw) ctx resp s2)))"

text \<open>The shapes of the \<open>/v2\<close> handlers: plain, creating a resource, and on a bound resource.\<close>

definition plain_v2 ::
  "'b backend \<Rightarrow> env \<Rightarrow> forwarder \<Rightarrow> inbound \<Rightarrow> int \<Rightarrow> string \<Rightarrow> string \<Rightarrow> string \<Rightarrow> json option
     \<Rightarrow> rstate \<Rightarrow> 'b app \<Rightarrow> 'b handled" where
  "plain_v2 ops e fw inb cid endpoint method path payload rs s =
     forward_with_fallback ops e fw inb cid method (with_query inb path) None payload None
       (rs\<lparr>rs_endpoint := Some endpoint\<rparr>) s"

definition create_v2 ::
  "'b backend \<Rightarrow> env \<Rightarrow> forwarder \<Rightarrow> inbound \<Rightarrow> int \<Rightarrow> string \<Rightarrow> string option \<Rightarrow> string
     \<Rightarrow> rstate \<Rightarrow> 'b app \<Rightarrow> 'b handled" where
  "create_v2 ops e fw inb cid primary fallback resource_type rs s =
     (case forward_with_fallback ops e fw inb cid ''POST'' primary fallback (ib_body inb) None rs s of
        (Inl err, rs1, s1) \<Rightarrow> (Inl err, rs1, s1)
      | (Inr resp, rs1, s1) \<Rightarrow> (Inr resp, rs1, maybe_bind_created_resource cid resource_type resp rs1 s1))"

definition bound_v2 ::
  "'b backend \<Rightarrow> env \<Rightarrow> forwarder \<Rightarrow> inbound \<Rightarrow> int \<Rightarrow> string \<Rightarrow> string \<Rightarrow> string \<Rightarrow> string \<Rightarrow> string
     \<Rightarrow> string option \<Rightarrow> json option \<Rightarrow> rstate \<Rightarrow> 'b app \<Rightarrow> 'b handled" where
  "bound_v2 ops e fw inb cid endpoint resource_type job_id method primary fallback payload rs s =
     (let (pinned, s1) = lookup_bound_key_id cid resource_type job_id s in
      forward_with_fallback ops e fw inb cid method (with_query inb primary)
        (map_option (with_query inb) fallback) payload pinned (rs\<lparr>rs_endpoint := Some endpoint\<rparr>) s1)"

subsection \<open>The \<open>/api\<close> router\<close>

definition api_scrape ::
  "'b backend \<Rightarrow> env \<Rightarrow> forwarder \<Rightarrow> inbound \<Rightarrow> int \<Rightarrow> rstate \<Rightarrow> 'b app \<Rightarrow> 'b handled" where
  "api_scrape ops e fw inb cid =
     forward_route ops e fw inb cid ''scrape'' ''POST'' ''/v1/scrape'' (ib_body inb) ''firecrawl''"

definition api_crawl ::
  "'b backend \<Rightarrow> env \<Rightarrow> forwarder \<Rightarrow> inbound \<Rightarrow> int \<Rightarrow> rstate \<Rightarrow> 'b app \<Rightarrow> 'b handled" where
  "api_crawl ops e fw inb cid =
     idempotent_route e fw inb cid ''crawl'' (\<lambda>rs s.
       forward_with_fallback ops e fw inb cid ''POST'' ''/v1/crawl'' None (ib_body inb) None rs s)"

definition api_crawl_status ::
  "'b backend \<Rightarrow> env \<Rightarrow> forwarder \<Rightarrow> inbound \<Rightarrow> int \<Rightarrow> string \<Rightarrow> rstate \<Rightarrow> 'b app \<Rightarrow> 'b handled" where
  "api_crawl_status ops e fw inb cid job_id =
     forward_route ops e fw inb cid ''crawl_status'' ''GET'' (''/v1/crawl/'' @ job_id) None ''firecrawl''"

definition api_search ::
  "'b backend \<Rightarrow> env \<Rightarrow> forwarder \<Rightarrow> inbound \<Rightarrow> int \<Rightarrow> rstate \<Rightarrow> 'b app \<Rightarrow> 'b handled" where
  "api_search ops e fw inb cid =
     forward_route ops e fw inb cid ''search'' ''POST'' ''/v1/search'' (ib_body inb) ''firecrawl''"

definition api_agent ::
  "'b backend \<Rightarrow> env \<Rightarrow> forwarder \<Rightarrow> inbound \<Rightarrow> int \<Rightarrow> rstate \<Rightarrow> 'b app \<Rightarrow> 'b handled" where
  "api_agent ops e fw inb cid =
     idempotent_route e fw inb cid ''agent'' (\<lambda>rs s.
       forward_with_fallback ops e fw inb cid ''POST'' ''/v2/agent'' (Some ''/v1/agent'') (ib_body inb) None rs s)"

subsection \<open>The \<open>/v1\<close> router\<close>

definition v1_scrape ::
  "'b backend \<Rightarrow> env \<Rightarrow> forwarder \<Rightarrow> inbound \<Rightarrow> int \<Rightarrow> rstate \<Rightarrow> 'b app \<Rightarrow> 'b handled" where
  "v1_scrape ops e fw inb cid =
     forward_route ops e fw inb cid ''scrape'' ''POST'' (path_and_query inb) (ib_body inb) ''firecrawl''"

definition v1_crawl ::
  "'b backend \<Rightarrow> env \<Rightarrow> forwarder \<Rightarrow> inbound \<Rightarrow> int \<Rightarrow> rstate \<Rightarrow> 'b app \<Rightarrow> 'b handled" where
  "v1_crawl ops e fw inb cid =
     idempotent_route e fw inb cid ''crawl'' (\<lambda>rs s.
       forward_with_fallback ops e fw inb cid ''POST'' (path_and_query inb) None (ib_body inb) None rs s)"

definition v1_crawl_status ::
  "'b backend \<Rightarrow> env \<Rightarrow> forwarder \<Rightarrow> inbound \<Rightarrow> int \<Rightarrow> rstate \<Rightarrow> 'b app \<Rightarrow> 'b handled" where
  "v1_crawl_status ops e fw inb cid =
     forward_route ops e fw inb cid ''crawl_status'' ''GET'' (path_and_query inb) None ''firecrawl''"

definition v1_search ::
  "'b backend \<Rightarrow> env \<Rightarrow> forwarder \<Rightarrow> inbound \<Rightarrow> int \<Rightarrow> rstate \<Rightarrow> 'b app \<Rightarrow> 'b handled" where
  "v1_search ops e fw inb cid =
     forward_route ops e fw inb cid ''search'' ''POST'' (path_and_query inb) (ib_body inb) ''firecrawl''"

definition v1_agent ::
  "'b backend \<Rightarrow> env \<Rightarrow> forwarder \<Rightarrow> inbound \<Rightarrow> int \<Rightarrow> rstate \<Rightarrow> 'b app \<Rightarrow> 'b handled" where
  "v1_agent ops e fw inb cid =
     idempotent_route e fw inb cid ''agent'' (\<lambda>rs s.
       forward_with_fallback ops e fw inb cid ''POST'' (with_query inb ''/v2/agent'') (Some (path_and_query inb))
         (ib_body inb) None rs s)"

subsection \<open>The \<open>/exa\<close> router\<close>

definition exa_upstream_path :: "inbound \<Rightarrow> string" where
  "exa_upstream_path inb =
     (let path = (if startswith (ib_path inb) ''/exa'' then drop 4 (ib_path inb) else ib_path inb)
      in with_query inb (if startswith path ''/'' then path else CHR ''/'' # path))"

definition exa_search ::
  "'b backend \<Rightarrow> env \<Rightarrow> forwarder \<Rightarrow> inbound \<Rightarrow> int \<Rightarrow> rstate \<Rightarrow> 'b app \<Rightarrow> 'b handled" where
  "exa_search ops e fw inb cid =
     forward_route ops e fw inb cid ''exa_search'' ''POST'' (exa_upstream_path inb) (ib_body inb) ''exa''"

definition exa_find_similar ::
  "'b backend \<Rightarrow> env \<Rightarrow> forwarder \<Rightarrow> inbound \<Rightarrow> int \<Rightarrow> rstate \<Rightarrow> 'b app \<Rightarrow> 'b handled" where
  "exa_find_similar ops e fw inb cid =
     forward_route ops e fw inb cid ''exa_findSimilar'' ''POST'' (exa_upstream_path inb) (ib_body inb) ''exa''"

definition exa_contents ::
  "'b backend \<Rightarrow> env \<Rightarrow> forwarder \<Rightarrow> inbound \<Rightarrow> int \<Rightarrow> rstate \<Rightarrow> 'b app \<Rightarrow> 'b handled" where
  "exa_contents ops e fw inb cid =
     forward_route ops e fw inb cid ''exa_contents'' ''POST'' (exa_upstream_path inb) (ib_body inb) ''exa''"

definition exa_answer ::
  "'b backend \<Rightarrow> env \<Rightarrow> forwarder \<Rightarrow> inbound \<Rightarrow> int \<Rightarrow> rstate \<Rightarrow> 'b app \<Rightarrow> 'b handled" where
  "exa_answer ops e fw inb cid =
     forward_route ops e fw inb cid ''exa_answer'' ''POST'' (exa_upstream_path inb) (ib_body inb) ''exa''"

subsection \<open>The \<open>/v2\<close> router\<close>

definition v2_crawl ::
  "'b backend \<Rightarrow> env \<Rightarrow> forwarder \<Rightarrow> inbound \<Rightarrow> int \<Rightarrow> rstate \<Rightarrow> 'b app \<Rightarrow> 'b handled" where
  "v2_crawl ops e fw inb cid =
     idempotent_route e fw inb cid ''crawl'' (
       create_v2 ops e fw inb cid (with_query inb ''/v2/crawl'')
       (Some (with_query inb ''/v2/crawl/start'')) ''crawl'')"

definition v2_crawl_start ::
  "'b backend \<Rightarrow> env \<Rightarrow> forwarder \<Rightarrow> inbound \<Rightarrow> int \<Rightarrow> rstate \<Rightarrow> 'b app \<Rightarrow> 'b handled" where
  "v2_crawl_start ops e fw inb cid =
     idempotent_route e fw inb cid ''crawl'' (
       create_v2 ops e fw inb cid (with_query inb ''/v2/crawl'')
       (Some (with_query inb ''/v2/crawl/start'')) ''crawl'')"

definition v2_crawl_active ::
  "'b backend \<Rightarrow> env \<Rightarrow> forwarder \<Rightarrow> inbound \<Rightarrow> int \<Rightarrow> rstate \<Rightarrow> 'b app \<Rightarrow> 'b handled" where
  "v2_crawl_active ops e fw inb cid =
     plain_v2 ops e fw inb cid ''crawl_active'' ''GET'' ''/v2/crawl/active'' None"

definition v2_crawl_params_preview ::
  "'b backend \<Rightarrow> env \<Rightarrow> forwarder \<Rightarrow> inbound \<Rightarrow> int \<Rightarrow> rstate \<Rightarrow> 'b app \<Rightarrow> 'b handled" where
  "v2_crawl_params_preview ops e fw inb cid =
     plain_v2 ops e fw inb cid ''crawl_params_preview'' ''POST'' ''/v2/crawl/params-preview'' (ib_body inb)"

definition v2_crawl_status ::
  "'b backend \<Rightarrow> env \<Rightarrow> forwarder \<Rightarrow> inbound \<Rightarrow> int \<Rightarrow> string \<Rightarrow> rstate \<Rightarrow> 'b app \<Rightarrow> 'b handled" where
  "v2_crawl_status ops e fw inb cid job_id =
     bound_v2 ops e fw inb cid ''crawl_status'' ''crawl'' job_id ''GET''
       (''/v2/crawl/'' @ job_id) (Some (''/v2/crawl/status/'' @ job_id)) None"

definition v2_crawl_status_alias ::
  "'b backend \<Rightarrow> env \<Rightarrow> forwarder \<Rightarrow> inbound \<Rightarrow> int \<Rightarrow> string \<Rightarrow> rstate \<Rightarrow> 'b app \<Rightarrow> 'b handled" where
  "v2_crawl_status_alias ops e fw inb cid job_id =
     bound_v2 ops e fw inb cid ''crawl_status'' ''crawl'' job_id ''GET''
       (''/v2/crawl/'' @ job_id) (Some (''/v2/crawl/status/'' @ job_id)) None"

definition v2_agent ::
  "'b backend \<Rightarrow> env \<Rightarrow> forwarder \<Rightarrow> inbound \<Rightarrow> int \<Rightarrow> rstate \<Rightarrow> 'b app \<Rightarrow> 'b handled" where
  "v2_agent ops e fw inb cid =
     idempotent_route e fw inb cid ''agent'' (
       create_v2 ops e fw inb cid (path_and_query inb)
       None ''agent'')"

definition v2_batch_scrape ::
  "'b backend \<Rightarrow> env \<Rightarrow> forwarder \<Rightarrow> inbound \<Rightarrow> int \<Rightarrow> rstate \<Rightarrow> 'b app \<Rightarrow> 'b handled" where
  "v2_batch_scrape ops e fw inb cid =
     (\<lambda>rs. create_v2 ops e fw inb cid (with_query inb ''/v2/batch/scrape'')
       (Some (with_query inb ''/v2/batch/scrape/start'')) ''batch_scrape'' (rs\<lparr>rs_endpoint := Some ''batch''\<rparr>))"

definition v2_batch_scrape_start ::
  "'b backend \<Rightarrow> env \<Rightarrow> forwarder \<Rightarrow> inbound \<Rightarrow> int \<Rightarrow> rstate \<Rightarrow> 'b app \<Rightarrow> 'b handled" where
  "v2_batch_scrape_start ops e fw inb cid =
     (\<lambda>rs. create_v2 ops e fw inb cid (with_query inb ''/v2/batch/scrape'')
       (Some (with_query inb ''/v2/batch/scrape/start'')) ''batch_scrape'' (rs\<lparr>rs_endpoint := Some ''batch''\<rparr>))"

definition v2_batch_scrape_status ::
  "'b backend \<Rightarrow> env \<Rightarrow> forwarder \<Rightarrow> inbound \<Rightarrow> int \<Rightarrow> string \<Rightarrow> rstate \<Rightarrow> 'b app \<Rightarrow> 'b handled" where
  "v2_batch_scrape_status ops e fw inb cid job_id =
     bound_v2 ops e fw inb cid ''batch'' ''batch_scrape'' job_id ''GET''
       (''/v2/batch/scrape/'' @ job_id) (Some (''/v2/batch/scrape/status/'' @ job_id)) None"

definition v2_batch_scrape_status_alias ::
  "'b backend \<Rightarrow> env \<Rightarrow> forwarder \<Rightarrow> inbound \<Rightarrow> int \<Rightarrow> string \<Rightarrow> rstate \<Rightarrow> 'b app \<Rightarrow> 'b handled" where
  "v2_batch_scrape_status_alias ops e fw inb cid job_id =
     bound_v2 ops e fw inb cid ''batch'' ''batch_scrape'' job_id ''GET''
       (''/v2/batch/scrape/'' @ job_id) (Some (''/v2/batch/scrape/status/'' @ job_id)) None"

definition v2_crawl_delete ::
  "'b backend \<Rightarrow> env \<Rightarrow> forwarder \<Rightarrow> inbound \<Rightarrow> int \<Rightarrow> string \<Rightarrow> rstate \<Rightarrow> 'b app \<Rightarrow> 'b handled" where
  "v2_crawl_delete ops e fw inb cid job_id =
     bound_v2 ops e fw inb cid ''crawl'' ''crawl'' job_id ''DELETE''
       (''/v2/crawl/'' @ job_id) None None"

definition v2_crawl_errors ::
  "'b backend \<Rightarrow> env \<Rightarrow> forwarder \<Rightarrow> inbound \<Rightarrow> int \<Rightarrow> string \<Rightarrow> rstate \<Rightarrow> 'b app \<Rightarrow> 'b handled" where
  "v2_crawl_errors ops e fw inb cid job_id =
     bound_v2 ops e fw inb cid ''crawl_status'' ''crawl'' job_id ''GET''
       (''/v2/crawl/'' @ job_id @ ''/errors'') None None"

definition v2_batch_scrape_errors ::
  "'b backend \<Rightarrow> env \<Rightarrow> forwarder \<Rightarrow> inbound \<Rightarrow> int \<Rightarrow> string \<Rightarrow> rstate \<Rightarrow> 'b app \<Rightarrow> 'b handled" where
  "v2_batch_scrape_errors ops e fw inb cid job_id =
     bound_v2 ops e fw inb cid ''batch'' ''batch_scrape'' job_id ''GET''
       (''/v2/batch/scrape/'' @ job_id @ ''/errors'') None None"

definition v2_batch_scrape_delete ::
  "'b backend \<Rightarrow> env \<Rightarrow> forwarder \<Rightarrow> inbound \<Rightarrow> int \<Rightarrow> string \<Rightarrow> rstate \<Rightarrow> 'b app \<Rightarrow> 'b handled" where
  "v2_batch_scrape_delete ops e fw inb cid job_id =
     bound_v2 ops e fw inb cid ''batch'' ''batch_scrape'' job_id ''DELETE''
       (''/v2/batch/scrape/'' @ job_id) None None"

definition v2_agent_status ::
  "'b backend \<Rightarrow> env \<Rightarrow> forwarder \<Rightarrow> inbound \<Rightarrow> int \<Rightarrow> string \<Rightarrow> rstate \<Rightarrow> 'b app \<Rightarrow> 'b handled" where
  "v2_agent_status ops e fw inb cid job_id =
     bound_v2 ops e fw inb cid ''agent'' ''agent'' job_id ''GET''
       (''/v2/agent/'' @ job_id) None None"

definition v2_agent_delete ::
  "'b backend \<Rightarrow> env \<Rightarrow> forwarder \<Rightarrow> inbound \<Rightarrow> int \<Rightarrow> string \<Rightarrow> rstate \<Rightarrow> 'b app \<Rightarrow> 'b handled" where
  "v2_agent_delete ops e fw inb cid job_id =
     bound_v2 ops e fw inb cid ''agent'' ''agent'' job_id ''DELETE''
       (''/v2/agent/'' @ job_id) None None"

definition v2_browser_create ::
  "'b backend \<Rightarrow> env \<Rightarrow> forwarder \<Rightarrow> inbound \<Rightarrow> int \<Rightarrow> rstate \<Rightarrow> 'b app \<Rightarrow> 'b handled" where
  "v2_browser_create ops e fw inb cid =
     (\<lambda>rs. create_v2 ops e fw inb cid (with_query inb ''/v2/browser'')
       None ''browser'' (rs\<lparr>rs_endpoint := Some ''browser''\<rparr>))"

definition v2_browser_list ::
  "'b backend \<Rightarrow> env \<Rightarrow> forwarder \<Rightarrow> inbound \<Rightarrow> int \<Rightarrow> rstate \<Rightarrow> 'b app \<Rightarrow> 'b handled" where
  "v2_browser_list ops e fw inb cid =
     plain_v2 ops e fw inb cid ''browser'' ''GET'' ''/v2/browser'' None"

definition v2_browser_execute ::
  "'b backend \<Rightarrow> env \<Rightarrow> forwarder \<Rightarrow> inbound \<Rightarrow> int \<Rightarrow> string \<Rightarrow> rstate \<Rightarrow> 'b app \<Rightarrow> 'b handled" where
  "v2_browser_execute ops e fw inb cid job_id =
     bound_v2 ops e fw inb cid ''browser'' ''browser'' job_id ''POST''
       (''/v2/browser/'' @ job_id @ ''/execute'') None (ib_body inb)"

definition v2_browser_delete ::
  "'b backend \<Rightarrow> env \<Rightarrow> forwarder \<Rightarrow> inbound \<Rightarrow> int \<Rightarrow> string \<Rightarrow> rstate \<Rightarrow> 'b app \<Rightarrow> 'b handled" where
  "v2_browser_delete ops e fw inb cid job_id =
     bound_v2 ops e fw inb cid ''browser'' ''browser'' job_id ''DELETE''
       (''/v2/browser/'' @ job_id) None None"

definition v2_extract ::
  "'b backend \<Rightarrow> env \<Rightarrow> forwarder \<Rightarrow> inbound \<Rightarrow> int \<Rightarrow> rstate \<Rightarrow> 'b app \<Rightarrow> 'b handled" where
  "v2_extract ops e fw inb cid =
     (\<lambda>rs. create_v2 ops e fw inb cid (with_query inb ''/v2/extract'')
       None ''extract'' (rs\<lparr>rs_endpoint := Some ''extract''\<rparr>))"

definition v2_extract_status ::
  "'b backend \<Rightarrow> env \<Rightarrow> forwarder \<Rightarrow> inbound \<Rightarrow> int \<Rightarrow> string \<Rightarrow> rstate \<Rightarrow> 'b app \<Rightarrow> 'b handled" where
  "v2_extract_status ops e fw inb cid job_id =
     bound_v2 ops e fw inb cid ''extract'' ''extract'' job_id ''GET''
       (''/v2/extract/'' @ job_id) None None"

definition v2_scrape ::
  "'b backend \<Rightarrow> env \<Rightarrow> forwarder \<Rightarrow> inbound \<Rightarrow> int \<Rightarrow> rstate \<Rightarrow> 'b app \<Rightarrow> 'b handled" where
  "v2_scrape ops e fw inb cid =
     plain_v2 ops e fw inb cid ''scrape'' ''POST'' ''/v2/scrape'' (ib_body inb)"

definition v2_search ::
  "'b backend \<Rightarrow> env \<Rightarrow> forwarder \<Rightarrow> inbound \<Rightarrow> int \<Rightarrow> rstate \<Rightarrow> 'b app \<Rightarrow> 'b handled" where
  "v2_search ops e fw inb cid =
     plain_v2 ops e fw inb cid ''search'' ''POST'' ''/v2/search'' (ib_body inb)"

definition v2_map_urls ::
  "'b backend \<Rightarrow> env \<Rightarrow> forwarder \<Rightarrow> inbound \<Rightarrow> int \<Rightarrow> rstate \<Rightarrow> 'b app \<Rightarrow> 'b handled" where
  "v2_map_urls ops e fw inb cid =
     plain_v2 ops e fw inb cid ''map'' ''POST'' ''/v2/map'' (ib_body inb)"

definition v2_team_credit_usage ::
  "'b backend \<Rightarrow> env \<Rightarrow> forwarder \<Rightarrow> inbound \<Rightarrow> int \<Rightarrow> rstate \<Rightarrow> 'b app \<Rightarrow> 'b handled" where
  "v2_team_credit_usage ops e fw inb cid =
     plain_v2 ops e fw inb cid ''team_credit_usage'' ''GET'' ''/v2/team/credit-usage'' None"

definition v2_team_queue_status ::
  "'b backend \<Rightarrow> env \<Rightarrow> forwarder \<Rightarrow> inbound \<Rightarrow> int \<Rightarrow> rstate \<Rightarrow> 'b app \<Rightarrow> 'b handled" where
  "v2_team_queue_status ops e fw inb cid =
     plain_v2 ops e fw inb cid ''team_queue_status'' ''GET'' ''/v2/team/queue-status'' None"

definition v2_team_credit_usage_historical ::
  "'b backend \<Rightarrow> env \<Rightarrow> forwarder \<Rightarrow> inbound \<Rightarrow> int \<Rightarrow> rstate \<Rightarrow> 'b app \<Rightarrow> 'b handled" where
  "v2_team_credit_usage_historical ops e fw inb cid =
     plain_v2 ops e fw inb cid ''team_credit_usage_historical'' ''GET'' ''/v2/team/credit-usage/historical'' None"

definition v2_team_token_usage ::
  "'b backend \<Rightarrow> env \<Rightarrow> forwarder \<Rightarrow> inbound \<Rightarrow> int \<Rightarrow> rstate \<Rightarrow> 'b app \<Rightarrow> 'b handled" where
  "v2_team_token_usage ops e fw inb cid =
     plain_v2 ops e fw inb cid ''team_token_usage'' ''GET'' ''/v2/team/token-usage'' None"

definition v2_team_token_usage_historical ::
  "'b backend \<Rightarrow> env \<Rightarrow> forwarder \<Rightarrow> inbound \<Rightarrow> int \<Rightarrow> rstate \<Rightarrow> 'b app \<Rightarrow> 'b handled" where
  "v2_team_token_usage_historical ops e fw inb cid =
     plain_v2 ops e fw inb cid ''team_token_usage_historical'' ''GET'' ''/v2/team/token-usage/historical'' None"

definition v2_passthrough_get ::
  "'b backend \<Rightarrow> env \<Rightarrow> forwarder \<Rightarrow> inbound \<Rightarrow> int \<Rightarrow> rstate \<Rightarrow> 'b app \<Rightarrow> 'b handled" where
  "v2_passthrough_get ops e fw inb cid =
     forward_with_fallback ops e fw inb cid ''GET'' (path_and_query inb) None None None"

definition v2_passthrough_post ::
  "'b backend \<Rightarrow> env \<Rightarrow> forwarder \<Rightarrow> inbound \<Rightarrow> int \<Rightarrow> rstate \<Rightarrow> 'b app \<Rightarrow> 'b handled" where
  "v2_passthrough_post ops e fw inb cid =
     forward_with_fallback ops e fw inb cid ''POST'' (path_and_query inb) None (ib_body inb) None"

definition v2_passthrough_delete ::
  "'b backend \<Rightarrow> env \<Rightarrow> forwarder \<Rightarrow> inbound \<Rightarrow> int \<Rightarrow> rstate \<Rightarrow> 'b app \<Rightarrow> 'b handled" where
  "v2_passthrough_delete ops e fw inb cid =
     forward_with_fallback ops e fw inb cid ''DELETE'' (path_and_query inb) None None None"

end
