(* ===== verification/Data_Plane_Facts.thy ===== *)
theory Data_Plane_Facts
  imports Data_Plane
begin

text \<open>
  What the routes of \<open>Data_Plane\<close> guarantee beyond one call of the forwarder: a request that may fall
  back sends twice the attempts at most, a created resource is bound to the key that created it, and
  later calls on it go out with that key.
\<close>

subsection \<open>The pinned key\<close>

text \<open>The requests that may leave for a call pinned to the row \<open>k\<close>.\<close>

definition key_request :: "env \<Rightarrow> forwarder \<Rightarrow> fwd_call \<Rightarrow> api_key \<Rightarrow> up_request \<Rightarrow> bool" where
  "key_request e fw call k rq \<longleftrightarrow>
     (\<exists>mk url plaintext. fw_master_key fw = Some mk \<and> provider_base_url fw (fa_provider call) = Inr url \<and>
        decrypt_api_key (en_crypto e) mk (k_ciphertext k) = Some plaintext \<and>
        rq = upstream_request fw call url plaintext)"

text \<open>The row a client's pinned id stands for, if it may be used.\<close>

definition pinned_row :: "int \<Rightarrow> string \<Rightarrow> int \<Rightarrow> tables \<Rightarrow> api_key option" where
  "pinned_row cid provider kid t =
     (case find (\<lambda>k. k_id k = kid \<and> k_client_id k = Some cid) (t_keys t) of
        None \<Rightarrow> None
      | Some k \<Rightarrow> if pinned_usable provider k then Some k else None)"

lemma pinned_row_id: "pinned_row cid p kid t = Some k \<Longrightarrow> k_id k = kid"
  by (auto simp: pinned_row_def split: option.splits if_splits dest: find_Some_mem)

context lease_backend begin

lemma forward_pinned:
  assumes "forward ops e fw call s = (r, s')" and "faults (sess s) = []" and "fa_pinned call = Some kid"
    and "pinned_row (fa_client_id call) (fa_provider call) kid (cur (sess s)) = Some k"
  shows "sends (total_attempts fw (fa_provider call)) (key_request e fw call k) s s'"
    and "r = Inr res \<Longrightarrow> fr_api_key_id res = Some kid \<and>
      int (length (sent s')) - int (length (sent s)) = fr_retry_count res + 1"
proof -
  have id: "k_id k = kid" by (rule pinned_row_id [OF assms(4)])
  have "sends (total_attempts fw (fa_provider call)) (key_request e fw call k) s s' \<and>
    (\<forall>res. r = Inr res \<longrightarrow> fr_api_key_id res = Some kid \<and>
      int (length (sent s')) - int (length (sent s)) = fr_retry_count res + 1)"
  proof (cases "\<exists>mk url. fw_master_key fw = Some mk \<and> provider_base_url fw (fa_provider call) = Inr url")
    case False
    with assms(1) have "sent s' = sent s" "\<exists>err. r = Inl err"
      by (auto simp: forward_def split: option.splits sum.splits)
    then show ?thesis by (auto simp: sends_same)
  next
    case True
    then obtain mk url where cfg: "fw_master_key fw = Some mk" "provider_base_url fw (fa_provider call) = Inr url"
      by blast
    have row: "find (\<lambda>k. k_id k = kid \<and> k_client_id k = Some (fa_client_id call)) (t_keys (cur (sess s))) = Some k"
      "pinned_usable (fa_provider call) k"
      using assms(4) by (auto simp: pinned_row_def split: option.splits if_splits)
    then have look: "pinned_lookup (fa_client_id call) kid s = (Inr (Some k), s)"
      using assms(2) by (simp add: pinned_lookup_def next_fault_def Let_def)
    let ?t = "metered (record_key_selected (k_id k)) s"
    have loop: "pinned_loop ops e fw call mk url k [0..<total_attempts fw (fa_provider call)]
        (pool_init\<lparr>ps_last_key := Some (k_id k)\<rparr>) ?t = (r, s')"
      using assms(1,3) cfg look row(2) by (simp add: forward_def)
    have "sends (length [0..<total_attempts fw (fa_provider call)]) (key_request e fw call k) ?t s'"
      using loop by (rule pinned_loop_sent) (use cfg in \<open>auto simp: key_request_def total_attempts_def\<close>)
    then have 1: "sends (total_attempts fw (fa_provider call)) (key_request e fw call k) s s'"
      by (simp add: sends_def)
    have "\<forall>res. r = Inr res \<longrightarrow> fr_api_key_id res = Some (k_id k) \<and>
        int (length (sent s')) - int (length (sent ?t)) + int 0 = fr_retry_count res + 1"
      using loop by (rule pinned_loop_result) (simp_all add: pool_init_def total_attempts_def)
    with 1 id show ?thesis by simp
  qed
  then show "sends (total_attempts fw (fa_provider call)) (key_request e fw call k) s s'"
    and "r = Inr res \<Longrightarrow> fr_api_key_id res = Some kid \<and>
      int (length (sent s')) - int (length (sent s)) = fr_retry_count res + 1"
    by blast+
qed

end

subsection \<open>A route with a fallback path\<close>

context lease_backend begin

lemma fallback_sent:
  assumes "forward_with_fallback ops e fw inb cid method primary fallback payload pinned rs s = (r, rs', s')"
    and "ok_rows s"
  shows "sends (2 * total_attempts fw ''firecrawl'')
    (\<lambda>rq. \<exists>path \<in> {primary} \<union> set_option fallback.
      tenant_request e fw (call_of inb cid method path payload pinned ''firecrawl'') s rq) s s'"
proof -
  let ?c = "\<lambda>path. call_of inb cid method path payload pinned ''firecrawl''"
  let ?n = "total_attempts fw ''firecrawl''"
  let ?Q = "\<lambda>rq. \<exists>path \<in> {primary} \<union> set_option fallback. tenant_request e fw (?c path) s rq"
  have one: "sends ?n ?Q t u" if "forward ops e fw (?c path) t = (x, u)" "same_rows s t" "ok_rows t"
      "path \<in> {primary} \<union> set_option fallback" for path t x u
  proof -
    have "sends ?n (tenant_request e fw (?c path) t) t u"
      using forward_sent [OF that(1,3)] by (simp add: call_of_def)
    then show ?thesis using tenant_request_rows [OF that(2)] that(4) unfolding sends_def by blast
  qed
  obtain x s1 where f1: "forward ops e fw (?c primary) s = (x, s1)" by (cases "forward ops e fw (?c primary) s")
  have 1: "sends ?n ?Q s s1" using one [OF f1] assms(2) by simp
  have rows: "same_rows s s1" "ok_rows s1" using steady_rows [OF steady_forward [OF f1] assms(2)] by simp_all
  show ?thesis
  proof (cases "\<exists>res path. x = Inr res \<and> fallback = Some path \<and> gone_or_not_allowed (fr_response res)")
    case True
    then obtain path where fb: "fallback = Some path" by blast
    obtain y s2 where f2: "forward ops e fw (?c path) s1 = (y, s2)" by (cases "forward ops e fw (?c path) s1")
    have "s' = s2" using assms(1) f1 f2 True fb by (auto simp: forward_with_fallback_def split: sum.splits)
    moreover have "sends ?n ?Q s1 s2" using one [OF f2 rows] fb by simp
    ultimately show ?thesis using sends_trans [OF 1, of ?n s2] by (simp add: mult_2)
  next
    case False
    then have "s' = s1"
      using assms(1) f1 by (auto simp: forward_with_fallback_def split: sum.splits option.splits if_splits)
    with 1 show ?thesis using sends_mono [OF 1, of "2 * ?n"] by simp
  qed
qed

end

lemma fallback_None:
  "forward_with_fallback ops e fw inb cid method primary None payload pinned rs s =
     (case forward ops e fw (call_of inb cid method primary payload pinned ''firecrawl'') s of
        (Inl err, s1) \<Rightarrow> (Inl err, rs, s1)
      | (Inr res, s1) \<Rightarrow> (Inr (fr_response res), note_result res rs, s1))"
  by (simp add: forward_with_fallback_def split: prod.split sum.split)

text \<open>A relation the forwarder keeps and that composes is kept by a route with a fallback.\<close>

lemma fallback_relation:
  assumes "forward_with_fallback ops e fw inb cid method primary fallback payload pinned rs s = (r, rs', s')"
    and "\<And>call t x u. forward ops e fw call t = (x, u) \<Longrightarrow> R t u"
    and "\<And>t u v. R t u \<Longrightarrow> R u v \<Longrightarrow> R t v"
  shows "R s s'"
  using assms(1)
  by (auto simp: forward_with_fallback_def split: prod.splits sum.splits option.splits if_splits
      intro: assms(2) assms(3) [OF assms(2) assms(2)])

text \<open>An answer of a route is an answer of the forwarder, noted on the request's state.\<close>

lemma fallback_answer:
  assumes "forward_with_fallback ops e fw inb cid method primary fallback payload pinned rs s = (Inr resp, rs', s')"
  shows "\<exists>upstream kid n. resp = to_fastapi_response upstream \<and> rs' = rs\<lparr>rs_api_key_id := Some kid, rs_retry_count := Some n\<rparr>"
proof -
  have "\<exists>upstream kid n. fr_response res = to_fastapi_response upstream
      \<and> note_result res rs = rs\<lparr>rs_api_key_id := Some kid, rs_retry_count := Some n\<rparr>"
    if "forward ops e fw call t = (Inr res, u)" for call t res u
    using led.ends_forward [OF that] unfolding led.ends_def
    by (auto simp: result_of_def note_result_def dest!: finish_result) blast+
  with assms show ?thesis
    by (auto simp: forward_with_fallback_def split: prod.splits sum.splits option.splits if_splits)
qed

subsection \<open>Idempotent routes\<close>

text \<open>The part of the state the idempotency records depend on, and what a route's body keeps of it.\<close>

definition idem_safe :: "'b app \<Rightarrow> bool" where
  "idem_safe s \<longleftrightarrow> smooth s \<and> other_tables (cur (sess s)) = other_tables (db (sess s))
     \<and> distinct (map i_id (t_idem (cur (sess s))))"

definition keeps_idem :: "'b app \<Rightarrow> 'b app \<Rightarrow> bool" where
  "keeps_idem s s' \<longleftrightarrow> (idem_safe s \<longrightarrow> idem_safe s' \<and> t_idem (cur (sess s')) = t_idem (cur (sess s)))"

lemma keeps_idem_trans: "keeps_idem s t \<Longrightarrow> keeps_idem t u \<Longrightarrow> keeps_idem s u"
  by (simp add: keeps_idem_def)

lemma calm_safe: "calm s \<Longrightarrow> idem_safe s"
  by (simp add: calm_def idem_safe_def smooth_def)

lemma safe_ready: "idem_safe s \<Longrightarrow> ready_idem s"
  by (simp add: ready_idem_def idem_safe_def smooth_def)

lemma other_tables_fields:
  assumes "other_tables t = other_tables u"
  shows "t_idem t = t_idem u" and "t_bindings t = t_bindings u"
proof -
  have "t_idem (other_tables t) = t_idem (other_tables u)" "t_bindings (other_tables t) = t_bindings (other_tables u)"
    by (simp_all only: assms)
  then show "t_idem t = t_idem u" "t_bindings t = t_bindings u" by (simp_all add: other_tables_def)
qed

lemma keeps_idem_forward: "forward ops e fw call s = (r, s') \<Longrightarrow> keeps_idem s s'"
  using forward_smooth [of ops e fw call s r s'] forward_others [of ops e fw call s r s']
    other_tables_fields(1) [of "cur (sess s')" "cur (sess s)"]
  by (simp add: keeps_idem_def idem_safe_def same_others_def)

lemma keeps_idem_bind: "keeps_idem (s :: 'b app) (bind_resource cid kid rt rid ttl s)"
proof (cases "idem_safe s")
  case False
  then show ?thesis by (simp add: keeps_idem_def)
next
  case True
  define r where "r = \<lparr>b_id = fresh_id (map b_id (t_bindings (cur (sess s)))), b_client_id = cid,
      b_api_key_id = kid, b_resource_type = take 32 rt, b_resource_id = take 128 (strip rid), b_created_at = wall s,
      b_expires_at = (case ttl of None \<Rightarrow> None | Some t \<Rightarrow> if t = 0 then None else Some (wall s + seconds t))\<rparr>"
  define s1 where "s1 = on_bindings (\<lambda>bs. bs @ [r]) s"
  have f: "faults (sess s1) = []" "db (sess s1) = db (sess s)" "unique_ok (db (sess s))"
    "t_idem (cur (sess s1)) = t_idem (cur (sess s))" "t_idem (db (sess s)) = t_idem (cur (sess s))"
    using True other_tables_fields(1) [of "cur (sess s)" "db (sess s)"]
    by (simp_all add: s1_def idem_safe_def smooth_def on_bindings_def)
  define clean where "clean = (\<lambda>t :: 'b app. faults (sess t) = [] \<and> unique_ok (cur (sess t)) \<and> db (sess t) = cur (sess t)
      \<and> t_idem (cur (sess t)) = t_idem (cur (sess s)))"
  have safe: "clean t \<Longrightarrow> keeps_idem s t" for t
    using True by (simp add: keeps_idem_def clean_def idem_safe_def smooth_def)
  obtain x s2 where c: "commit_exc s1 = (x, s2)" by (cases "commit_exc s1")
  have cl: "clean s2" "x \<noteq> Some Db_error"
    using c f by (auto simp: clean_def commit_exc_def commit_no_faults rollback_def split: if_splits)
  have again: "clean (snd (commit_app (on_bindings (upd_where (\<lambda>b. b_id b = i) (\<lambda>b. b\<lparr>b_expires_at := z\<rparr>)) s2)))" for i z
  proof -
    let ?f = "upd_where (\<lambda>b. b_id b = i) (\<lambda>b. b\<lparr>b_expires_at := z\<rparr>)"
    have keep: "map (\<lambda>b. (b_client_id b, b_resource_type b, b_resource_id b)) (?f bs) =
        map (\<lambda>b. (b_client_id b, b_resource_type b, b_resource_id b)) bs" for bs
      by (rule upd_where_map_keep) simp
    have "unique_ok (cur (sess s2))" using cl(1) by (simp add: clean_def)
    then have "unique_ok (cur (sess (on_bindings ?f s2)))"
      by (simp only: unique_ok_def on_bindings_def keep) (simp add: keep)
    then show ?thesis
      using cl(1) commit_app_calm [of "on_bindings ?f s2"] by (simp add: clean_def) (simp add: on_bindings_def)
  qed
  have "bind_resource cid kid rt rid ttl s = s \<or> clean (bind_resource cid kid rt rid ttl s)"
    using cl again c by (auto simp: bind_resource_def Let_def r_def [symmetric] s1_def [symmetric]
        split: option.splits db_exc.splits)
  then show ?thesis using safe by (auto simp: keeps_idem_def)
qed

lemma distinct_response_headers: "distinct (map fst (hr_headers (to_fastapi_response upstream)))"
proof -
  have "distinct (map fst (foldl (\<lambda>hs (k, v). if lower k \<in> set drop_response_headers then hs else dict_set k v hs) acc kvs))"
    if "distinct (map fst acc)" for acc kvs :: headers
    using that by (induction kvs arbitrary: acc) (auto simp: distinct_dict_set)
  then show ?thesis by (simp add: to_fastapi_response_def)
qed

text \<open>What a route may run between the beginning and the completion of an idempotency record.\<close>

definition idem_body :: "(rstate \<Rightarrow> 'b app \<Rightarrow> 'b handled) \<Rightarrow> bool" where
  "idem_body body \<longleftrightarrow> (\<forall>rs s r rs' s'. body rs s = (r, rs', s') \<longrightarrow>
     keeps_idem s s' \<and> (\<forall>resp. r = Inr resp \<longrightarrow> distinct (map fst (hr_headers resp))))"

lemma idem_body_fallback:
  "idem_body (forward_with_fallback ops e fw inb cid method primary fallback payload pinned)"
  unfolding idem_body_def
proof (intro allI impI conjI)
  fix rs s r rs' s'
  assume f: "forward_with_fallback ops e fw inb cid method primary fallback payload pinned rs s = (r, rs', s')"
  then show "keeps_idem s s'" by (rule fallback_relation [OF _ keeps_idem_forward keeps_idem_trans])
  fix resp
  assume "r = Inr resp"
  with f fallback_answer distinct_response_headers show "distinct (map fst (hr_headers resp))" by blast
qed

lemma idem_body_create: "idem_body (create_v2 ops e fw inb cid primary fallback rt)"
  unfolding idem_body_def
proof (intro allI impI conjI)
  fix rs s r rs' s'
  assume c: "create_v2 ops e fw inb cid primary fallback rt rs s = (r, rs', s')"
  obtain x rs1 s1 where f: "forward_with_fallback ops e fw inb cid ''POST'' primary fallback (ib_body inb) None rs s = (x, rs1, s1)"
    by (cases "forward_with_fallback ops e fw inb cid ''POST'' primary fallback (ib_body inb) None rs s")
  have 1: "keeps_idem s s1" "\<And>resp. x = Inr resp \<Longrightarrow> distinct (map fst (hr_headers resp))"
    using idem_body_fallback f unfolding idem_body_def by blast+
  have r: "r = x" using c f by (auto simp: create_v2_def split: sum.splits)
  have "s' = s1 \<or> (\<exists>kid rid. s' = bind_resource cid kid rt rid None s1)"
    using c f by (auto simp: create_v2_def maybe_bind_created_resource_def split: sum.splits option.splits)
  with 1(1) keeps_idem_trans keeps_idem_bind show "keeps_idem s s'" by blast
  show "r = Inr resp \<Longrightarrow> distinct (map fst (hr_headers resp))" for resp using 1(2) r by blast
qed

lemma silent_judge_existing: "judge_existing repr now hash r s = (x, s') \<Longrightarrow> sent s' = sent s"
  by (auto simp: judge_existing_def on_idem_def dest!: silent_commit
      split: if_splits prod.splits bool.splits option.splits list.splits sum.splits idem_status.splits)

lemma silent_begin_once: "begin_once repr cfg cid key hash s = (x, s') \<Longrightarrow> sent s' = sent s"
proof -
  assume b: "begin_once repr cfg cid key hash s = (x, s')"
  define s1 where "s1 = cleanup_expired cid s"
  have 1: "sent s1 = sent s" by (simp add: s1_def cleanup_expired_def on_idem_def)
  obtain y s2 where c: "commit_exc (on_idem (\<lambda>rs. rs @ [new_record cfg cid key hash s1]) s1) = (y, s2)"
    by (cases "commit_exc (on_idem (\<lambda>rs. rs @ [new_record cfg cid key hash s1]) s1)")
  have 2: "sent s2 = sent s" using c 1 by (auto simp: commit_exc_def on_idem_def split: prod.splits option.splits)
  show ?thesis
    using b c 2 by (auto simp: begin_once_def Let_def s1_def [symmetric] rollback_app_def
        split: option.splits db_exc.splits prod.splits bool.splits dest: silent_judge_existing)
qed

lemma silent_begin: "begin_request repr cfg cid key hash s = (x, s') \<Longrightarrow> sent s' = sent s"
proof (induction repr cfg cid key hash s rule: begin_request.induct)
  case (1 repr cfg cid key hash s)
  then show ?case
    by (subst (asm) begin_request.simps)
      (auto split: prod.splits begin_result.splits dest: silent_begin_once)
qed

lemma silent_start: "start_or_replay e cfg cid k endpoint method payload s = (x, s') \<Longrightarrow> sent s' = sent s"
  by (auto simp: start_or_replay_def split: if_splits option.splits prod.splits sum.splits dest: silent_begin)

text \<open>
  End to end for the routes with an idempotency key: once a request was answered, the same request with
  the same key gets the same answer until the record expires, and nothing is sent upstream for it.
\<close>

lemma idempotent_route_replays:
  assumes "calm s" and "\<forall>r \<in> set (t_idem (cur (sess s))). \<not> live cid key (wall s) r"
    and "ip_enabled (c_idempotency (fw_config fw))" and "key \<noteq> []"
    and "header_first (ib_headers inb) ''x-idempotency-key'' = Some key"
    and "idem_body body"
    and "idempotent_route e fw inb cid endpoint body rs s = (Inr resp, rs1, u)"
    and "int (length (hr_body resp)) \<le> max (ip_max_response_bytes (c_idempotency (fw_config fw))) 1"
    and "t_idem (cur (sess v)) = t_idem (cur (sess u))" and "calm v"
    and "wall v \<le> wall s + seconds (max (ip_ttl_seconds (c_idempotency (fw_config fw))) 1)"
  shows "\<exists>rs2 v'. idempotent_route e fw inb cid endpoint body' rs' v = (Inr resp, rs2, v') \<and> sent v' = sent v"
proof -
  let ?start = "start_or_replay e (fw_config fw) cid (Some key) endpoint ''POST'' (ib_body inb)"
  let ?hash = "hash_request (en_crypto e) ''POST'' endpoint (ib_body inb)"
  have given: "given (Some key) = Some key" using assms(4) by (simp add: given_Some)
  obtain s1 and r :: idem_record where
    b: "begin_once (en_repr e) (fw_config fw) cid key ?hash s = (Begun (i_id r), s1)" and s1: "calm s1"
    using begin_new [OF assms(1,2), of "en_repr e" "fw_config fw" ?hash] by blast
  have st: "?start s = (Inr (Some (i_id r), None), s1)"
    using assms(3) b by (simp add: start_or_replay_def given begin_request.simps)
  obtain x rs0 s2 where bd: "body (rs\<lparr>rs_endpoint := Some endpoint\<rparr>) s1 = (x, rs0, s2)"
    by (cases "body (rs\<lparr>rs_endpoint := Some endpoint\<rparr>) s1")
  have x: "x = Inr resp" and u: "u = complete (fw_config fw) (Some (i_id r)) resp s2"
    using assms(7) st bd assms(5) by (auto simp: idempotent_route_def split: sum.splits)
  have "keeps_idem s1 s2" and d: "distinct (map fst (hr_headers resp))"
    using assms(6) bd x unfolding idem_body_def by blast+
  then have s2: "ready_idem s2" "t_idem (cur (sess s2)) = t_idem (cur (sess s1))"
    using calm_safe [OF s1] safe_ready [of s2] by (simp_all add: keeps_idem_def)
  have "fst (?start v) = Inr (None, Some resp)"
    by (rule replay_after_complete [OF assms(1-4) st s2(2,1) assms(8) d u assms(9-11)])
  then obtain v' where v': "?start v = (Inr (None, Some resp), v')" by (cases "?start v") auto
  then have "idempotent_route e fw inb cid endpoint body' rs' v =
      (Inr resp, rs'\<lparr>rs_endpoint := Some endpoint, rs_retry_count := Some 0\<rparr>, v')"
    using assms(5) by (simp add: idempotent_route_def)
  with silent_start [OF v'] show ?thesis by blast
qed

text \<open>A route that began a record and answered leaves nothing uncommitted.\<close>

lemma idempotent_route_calm:
  assumes "calm s" and "\<forall>r \<in> set (t_idem (cur (sess s))). \<not> live cid key (wall s) r"
    and "ip_enabled (c_idempotency (fw_config fw))" and "key \<noteq> []"
    and "header_first (ib_headers inb) ''x-idempotency-key'' = Some key"
    and "idem_body body"
    and "idempotent_route e fw inb cid endpoint body rs s = (Inr resp, rs1, u)"
    and "int (length (hr_body resp)) \<le> max (ip_max_response_bytes (c_idempotency (fw_config fw))) 1"
  shows "calm u"
proof -
  let ?hash = "hash_request (en_crypto e) ''POST'' endpoint (ib_body inb)"
  have given: "given (Some key) = Some key" using assms(4) by (simp add: given_Some)
  obtain s1 r where b: "begin_once (en_repr e) (fw_config fw) cid key ?hash s = (Begun (i_id r), s1)"
    and s1: "calm s1" and r: "r \<in> set (t_idem (cur (sess s1)))"
    using begin_new [OF assms(1,2), of "en_repr e" "fw_config fw" ?hash] by blast
  have st: "start_or_replay e (fw_config fw) cid (Some key) endpoint ''POST'' (ib_body inb) s =
      (Inr (Some (i_id r), None), s1)"
    using assms(3) b by (simp add: start_or_replay_def given begin_request.simps)
  obtain x rs0 s2 where bd: "body (rs\<lparr>rs_endpoint := Some endpoint\<rparr>) s1 = (x, rs0, s2)"
    by (cases "body (rs\<lparr>rs_endpoint := Some endpoint\<rparr>) s1")
  have u: "u = complete (fw_config fw) (Some (i_id r)) resp s2"
    using assms(7) st bd assms(5) by (auto simp: idempotent_route_def split: sum.splits)
  have "keeps_idem s1 s2" using assms(6) bd unfolding idem_body_def by blast
  then have s2: "ready_idem s2" "r \<in> set (t_idem (cur (sess s2)))"
    using calm_safe [OF s1] safe_ready [of s2] r by (simp_all add: keeps_idem_def)
  have "serialize_response (max (ip_max_response_bytes (c_idempotency (fw_config fw))) 1) resp =
      Inr (hr_status resp, dumps_default (response_blob resp))"
    unfolding serialize_response_def by (rule if_not_P) (use assms(8) in linarith)
  from complete_calm [OF s2 assms(3) this] show ?thesis by (simp add: u)
qed

text \<open>
  A request whose forwarding raised leaves its record in progress: until it expires, the same request
  is refused, so that an upstream job of unknown fate is not created a second time.
\<close>

lemma idempotent_error_holds:
  assumes "calm s" and "\<forall>r \<in> set (t_idem (cur (sess s))). \<not> live cid key (wall s) r"
    and "ip_enabled (c_idempotency (fw_config fw))" and "key \<noteq> []"
    and "header_first (ib_headers inb) ''x-idempotency-key'' = Some key"
    and "idem_body body"
    and "idempotent_route e fw inb cid endpoint body rs s = (Inl err, rs1, u)"
    and "t_idem (cur (sess v)) = t_idem (cur (sess u))" and "calm v"
    and "wall v \<le> wall s + seconds (max (ip_ttl_seconds (c_idempotency (fw_config fw))) 1)"
  shows "fst (idempotent_route e fw inb cid endpoint body' rs' v) = Inl idem_in_progress"
proof -
  let ?hash = "hash_request (en_crypto e) ''POST'' endpoint (ib_body inb)"
  let ?start = "start_or_replay e (fw_config fw) cid (Some key) endpoint ''POST'' (ib_body inb)"
  obtain s1 r where b: "begin_once (en_repr e) (fw_config fw) cid key ?hash s = (Begun (i_id r), s1)"
    and s1: "calm s1" and r: "r \<in> set (t_idem (cur (sess s1)))" "idem_match cid key r" "i_request_hash r = ?hash"
      "i_status r = In_progress"
      "i_expires_at r = Some (wall s + seconds (max (ip_ttl_seconds (c_idempotency (fw_config fw))) 1))"
    using begin_new [OF assms(1,2), of "en_repr e" "fw_config fw" ?hash] by blast
  have given: "given (Some key) = Some key" using assms(4) by (simp add: given_Some)
  have st: "?start s = (Inr (Some (i_id r), None), s1)"
    using assms(3) b by (simp add: start_or_replay_def given begin_request.simps)
  obtain x rs0 s2 where bd: "body (rs\<lparr>rs_endpoint := Some endpoint\<rparr>) s1 = (x, rs0, s2)"
    by (cases "body (rs\<lparr>rs_endpoint := Some endpoint\<rparr>) s1")
  have "u = s2" using assms(7) st bd assms(5) by (auto simp: idempotent_route_def split: sum.splits)
  moreover have "keeps_idem s1 s2" using assms(6) bd unfolding idem_body_def by blast
  ultimately have mem: "r \<in> set (t_idem (cur (sess v)))"
    using calm_safe [OF s1] r(1) assms(8) by (simp add: keeps_idem_def)
  have ne: "\<not> expired (wall v) (i_expires_at r)" using r(5) assms(10) by (simp add: expired_def)
  then have "live cid key (wall v) r" using r(2) by (simp add: live_def)
  from begin_live [OF assms(9) mem this, of "en_repr e" "fw_config fw" ?hash]
  have "begin_once (en_repr e) (fw_config fw) cid key ?hash v = (Refused idem_in_progress, cleanup_expired cid v)"
    using ne r(3,4) by (simp add: judge_existing_def)
  then show ?thesis
    using assms(3,5) by (simp add: idempotent_route_def start_or_replay_def given begin_request.simps Let_def)
qed

subsection \<open>Resources and their keys\<close>

text \<open>\<open>bind_new\<close> for a session that may hold uncommitted changes.\<close>

lemma bind_new_smooth:
  assumes "smooth s" and "find (binding_match cid rt (strip rid)) (t_bindings (cur (sess s))) = None"
    and "strip rid \<noteq> []"
  shows "bound_key cid rt rid now (cur (sess (bind_resource cid kid rt rid None s))) = Some kid"
proof -
  define r where "r = \<lparr>b_id = fresh_id (map b_id (t_bindings (cur (sess s)))), b_client_id = cid,
                       b_api_key_id = kid, b_resource_type = take 32 rt,
                       b_resource_id = take 128 (strip rid), b_created_at = wall s, b_expires_at = None\<rparr>"
  let ?s1 = "on_bindings (\<lambda>bs. bs @ [r]) s"
  have u: "unique_ok (cur (sess ?s1))"
    using assms(1) find_match_None [OF assms(2)] by (simp add: smooth_def unique_ok_def on_bindings_def r_def)
  then have "commit_exc ?s1 = (None, ?s1\<lparr>sess := (sess ?s1)\<lparr>db := cur (sess ?s1)\<rparr>\<rparr>)"
    using assms(1) by (simp add: commit_exc_def commit_no_faults smooth_def)
  then have b: "bind_resource cid kid rt rid None s = ?s1\<lparr>sess := (sess ?s1)\<lparr>db := cur (sess ?s1)\<rparr>\<rparr>"
    using assms(3) by (simp add: bind_resource_def Let_def r_def [symmetric])
  have "binding_match cid rt (strip rid) r" by (simp add: binding_match_def r_def)
  then show ?thesis using assms(2) by (simp add: b bound_key_def find_append_one expired_def r_def)
qed

lemma extracted_id: "extract_id_from_response resp = Some rid \<Longrightarrow> is_success resp \<and> strip rid \<noteq> []"
  by (auto simp: extract_id_from_response_def or_none_def split: if_splits option.splits json.splits)

text \<open>A resource the upstream service just created is bound to the key that created it.\<close>

lemma created_resource_bound:
  assumes "create_v2 ops e fw inb cid primary fallback rt rs s = (Inr resp, rs', s')"
    and "smooth s" and "other_tables (cur (sess s)) = other_tables (db (sess s))"
    and "extract_id_from_response resp = Some rid"
    and "find (binding_match cid rt (strip rid)) (t_bindings (cur (sess s))) = None"
  shows "\<exists>kid. rs_api_key_id rs' = Some kid \<and> bound_key cid rt rid now (cur (sess s')) = Some kid"
proof -
  obtain s1 where f: "forward_with_fallback ops e fw inb cid ''POST'' primary fallback (ib_body inb) None rs s
      = (Inr resp, rs', s1)" and s': "s' = maybe_bind_created_resource cid rt resp rs' s1"
    using assms(1) by (auto simp: create_v2_def split: prod.splits sum.splits)
  obtain kid where kid: "rs_api_key_id rs' = Some kid" using fallback_answer [OF f] by auto
  have s1: "smooth s1 \<and> other_tables (cur (sess s1)) = other_tables (cur (sess s))
      \<and> other_tables (db (sess s1)) = other_tables (db (sess s))"
  proof -
    let ?R = "\<lambda>s s'. stays_smooth s s' \<and> same_others s s'"
    have "?R s s1"
      by (rule fallback_relation [OF f]) (use forward_smooth forward_others in
        \<open>auto simp: stays_smooth_def intro: smo.R_trans oth.R_trans\<close>)
    then show ?thesis using assms(2,3) by (simp add: stays_smooth_def same_others_def)
  qed
  then have "find (binding_match cid rt (strip rid)) (t_bindings (cur (sess s1))) = None"
    using assms(5) other_tables_fields(2) [of "cur (sess s1)" "cur (sess s)"] by simp
  with s1 extracted_id [OF assms(4)] kid assms(4) bind_new_smooth show ?thesis
    by (auto simp: s' maybe_bind_created_resource_def)
qed

text \<open>A call on a bound resource goes out with the key that is bound, and with no other.\<close>

lemma lookup_bound:
  assumes "faults (sess s) = []" and "strip job \<noteq> []" and "bound_key cid rt job (wall s) (cur (sess s)) = Some kid"
  shows "lookup_bound_key_id cid rt job s = (Some kid, s)"
  using assms by (auto simp: lookup_bound_key_id_def bound_key_def next_fault_def Let_def
      split: option.splits if_splits)

context lease_backend begin

lemma bound_route_key:
  assumes "bound_v2 ops e fw inb cid endpoint rt job method primary None payload rs s = (r, rs', s')"
    and "faults (sess s) = []" and "strip job \<noteq> []"
    and "bound_key cid rt job (wall s) (cur (sess s)) = Some kid"
    and "pinned_row cid ''firecrawl'' kid (cur (sess s)) = Some k"
  shows "sends (total_attempts fw ''firecrawl'')
      (key_request e fw (call_of inb cid method (with_query inb primary) payload (Some kid) ''firecrawl'') k) s s'"
    and "r = Inr resp \<Longrightarrow> rs_api_key_id rs' = Some kid"
proof -
  let ?call = "call_of inb cid method (with_query inb primary) payload (Some kid) ''firecrawl''"
  obtain x s1 where f: "forward ops e fw ?call s = (x, s1)" by (cases "forward ops e fw ?call s")
  have s': "s' = s1" "r = Inr resp \<longrightarrow> (\<exists>res. x = Inr res \<and> rs_api_key_id rs' = fr_api_key_id res)"
    using assms(1) f lookup_bound [OF assms(2-4)]
    by (auto simp: bound_v2_def fallback_None note_result_def split: sum.splits)
  have p: "fa_pinned ?call = Some kid"
    "pinned_row (fa_client_id ?call) (fa_provider ?call) kid (cur (sess s)) = Some k"
    using assms(5) by (simp_all add: call_of_def)
  show "sends (total_attempts fw ''firecrawl'') (key_request e fw ?call k) s s'"
    using forward_pinned(1) [OF f assms(2) p] s' by (simp add: call_of_def)
  show "r = Inr resp \<Longrightarrow> rs_api_key_id rs' = Some kid"
    using forward_pinned(2) [OF f assms(2) p] s' by auto
qed

end

end
