(* ===== verification/Key_Test.thy ===== *)
theory Key_Test
  imports Forward_Facts
begin

text \<open>\<open>Forwarder.test_key\<close> and \<open>_test_key_exa\<close> of \<open>app/core/forwarder.py\<close>: one probe of a key.\<close>

record key_test_result =
  kt_ok :: bool
  kt_upstream_status :: "int option"
  kt_latency_ms :: int
  kt_observed_status :: key_status
  kt_observed_cooldown :: "instant option"

definition latency_ms :: "rat \<Rightarrow> 'b app \<Rightarrow> int" where
  "latency_ms start s = \<lfloor>(mono s - start) * 1000\<rfloor>"

text \<open>The result, with the key's status and cool-down as they are in the end.\<close>

definition test_result ::
  "bool \<Rightarrow> int option \<Rightarrow> int \<Rightarrow> api_key \<Rightarrow> 'b app \<Rightarrow> key_test_result" where
  "test_result ok status latency k s =
     (let k' = (case key_row (k_id k) s of None \<Rightarrow> k | Some k' \<Rightarrow> k') in
      \<lparr>kt_ok = ok, kt_upstream_status = status, kt_latency_ms = latency,
       kt_observed_status = k_status k', kt_observed_cooldown = k_cooldown_until k'\<rparr>)"

definition test_request ::
  "forwarder \<Rightarrow> string \<Rightarrow> string \<Rightarrow> string \<Rightarrow> string \<Rightarrow> json \<Rightarrow> string \<Rightarrow> up_request" where
  "test_request fw request_id provider url plaintext body path =
     \<lparr>rq_method = ''POST'', rq_base_url = url, rq_path = path,
      rq_headers = dict_update [(''x-request-id'', request_id), (''content-type'', ''application/json'')]
        (provider_auth_header fw provider plaintext),
      rq_body = Some body, rq_timeout = provider_timeout fw provider\<rparr>"

text \<open>The loop over the candidate paths: the next one is tried after a 404 or 405.\<close>

fun try_candidates ::
  "env \<Rightarrow> (string \<Rightarrow> up_request) \<Rightarrow> string \<Rightarrow> string list \<Rightarrow> 'b app \<Rightarrow> up_outcome \<times> 'b app" where
  "try_candidates e rq path [] s = send_upstream e (rq path) s"
| "try_candidates e rq path (path' # rest) s =
     (case send_upstream e (rq path) s of
        (Reply resp, s1) \<Rightarrow>
          if hr_status resp = 404 \<or> hr_status resp = 405 then try_candidates e rq path' rest s1
          else (Reply resp, s1)
      | (out, s1) \<Rightarrow> (out, s1))"

definition judge_test :: "'b backend \<Rightarrow> app_config \<Rightarrow> int \<Rightarrow> http_response \<Rightarrow> 'b app \<Rightarrow> 'b app" where
  "judge_test ops cfg kid resp s =
     (if is_success resp then mark_active kid s else mark_answer ops cfg resp kid s)"

definition run_test ::
  "'b backend \<Rightarrow> env \<Rightarrow> forwarder \<Rightarrow> string \<Rightarrow> string \<Rightarrow> bytes \<Rightarrow> api_key \<Rightarrow> json \<Rightarrow> string \<Rightarrow> string list
     \<Rightarrow> 'b app \<Rightarrow> (fcam_error + key_test_result) \<times> 'b app" where
  "run_test ops e fw request_id provider mk k body path paths s =
     (case decrypt_api_key (en_crypto e) mk (k_ciphertext k) of
        None \<Rightarrow>
          (let s1 = disable_key_decrypt_failed (k_id k) s
           in (Inr (test_result False None (latency_ms (mono s) s1) k s1), s1))
      | Some plaintext \<Rightarrow>
          (case provider_base_url fw provider of
             Inl err \<Rightarrow> (Inl err, s)
           | Inr url \<Rightarrow>
               (case try_candidates e (test_request fw request_id provider url plaintext body) path paths s of
                  (Reply resp, s1) \<Rightarrow>
                    (let s2 = judge_test ops (fw_config fw) (k_id k) resp s1
                     in (Inr (test_result (is_success resp) (Some (hr_status resp)) (latency_ms (mono s) s1) k s2),
                         s2))
                | (_, s1) \<Rightarrow>
                    (let s2 = record_failure (fw_config fw) (k_id k) s1
                     in (Inr (test_result False None (latency_ms (mono s) s2) k s2), s2)))))"

definition test_key_exa ::
  "'b backend \<Rightarrow> env \<Rightarrow> forwarder \<Rightarrow> string \<Rightarrow> string \<Rightarrow> bytes \<Rightarrow> api_key \<Rightarrow> 'b app
     \<Rightarrow> (fcam_error + key_test_result) \<times> 'b app" where
  "test_key_exa ops e fw request_id provider mk k s =
     run_test ops e fw request_id provider mk k
       (JObj [(''query'', JStr ''test''), (''numResults'', JInt 1)]) ''/search'' [] s"

definition scrape_candidates :: "string option \<Rightarrow> string \<times> string list" where
  "scrape_candidates version =
     (if version = Some ''v1'' then (''/v1/scrape'', [''/v2/scrape'']) else (''/v2/scrape'', [''/v1/scrape'']))"

definition test_key ::
  "'b backend \<Rightarrow> env \<Rightarrow> forwarder \<Rightarrow> string \<Rightarrow> api_key \<Rightarrow> string \<Rightarrow> string \<Rightarrow> 'b app
     \<Rightarrow> (fcam_error + key_test_result) \<times> 'b app" where
  "test_key ops e fw request_id k mode test_url s =
     (case fw_master_key fw of
        None \<Rightarrow> (Inl (fcam 503 ''NOT_READY'' ''Master key not configured''), s)
      | Some mk \<Rightarrow>
          (let provider = (if k_provider k = [] then ''firecrawl'' else k_provider k) in
           if mode \<noteq> ''scrape'' then (Inl (fcam 400 ''VALIDATION_ERROR'' ''Unsupported test mode''), s)
           else if provider = ''exa'' then test_key_exa ops e fw request_id provider mk k s
           else
             (let (path, paths) = scrape_candidates (fw_upstream_version fw)
              in run_test ops e fw request_id provider mk k (JObj [(''url'', JStr test_url)]) path paths s)))"

subsection \<open>Facts\<close>

lemma try_candidates_sends:
  assumes "try_candidates e rq path paths s = (out, s')"
  shows "sends (Suc (length paths)) (\<lambda>r. \<exists>p \<in> set (path # paths). r = rq p) s s'"
  using assms
proof (induction paths arbitrary: path s)
  case Nil
  then show ?case by (simp add: sends_send [unfolded One_nat_def])
next
  case (Cons p paths)
  obtain o1 s1 where sd: "send_upstream e (rq path) s = (o1, s1)" by (cases "send_upstream e (rq path) s")
  have 1: "sends 1 (\<lambda>r. \<exists>q \<in> set (path # p # paths). r = rq q) s s1" by (simp add: sends_send [OF sd, unfolded One_nat_def])
  show ?case
  proof (cases "\<exists>resp. o1 = Reply resp \<and> (hr_status resp = 404 \<or> hr_status resp = 405)")
    case True
    with Cons sd have "sends (Suc (length paths)) (\<lambda>r. \<exists>q \<in> set (p # paths). r = rq q) s1 s'" by auto
    then have "sends (Suc (length paths)) (\<lambda>r. \<exists>q \<in> set (path # p # paths). r = rq q) s1 s'"
      by (auto simp: sends_def)
    from sends_trans [OF 1 this] show ?thesis by simp
  next
    case False
    then have "s' = s1" using Cons.prems sd by (auto split: up_outcome.splits if_splits)
    then show ?thesis using sends_mono [OF 1] by simp
  qed
qed

lemma try_candidates_rows:
  "try_candidates e rq path paths s = (out, s') \<Longrightarrow> steady held s s'"
proof (induction paths arbitrary: path s)
  case (Cons p paths)
  then show ?case
    by (auto split: prod.splits up_outcome.splits if_splits
        intro: steady_send steady_trans [OF steady_send])
qed (simp add: steady_send)

context lease_backend begin

lemma steady_run_test:
  "run_test ops e fw rid provider mk k body path paths s = (r, s') \<Longrightarrow> steady held s s'"
  by (auto simp: run_test_def judge_test_def Let_def steady_refl steady_disable_decrypt
      split: option.splits sum.splits prod.splits up_outcome.splits if_splits
      intro: steady_trans [OF try_candidates_rows steady_mark_active]
        steady_trans [OF try_candidates_rows steady_mark_answer]
        steady_trans [OF try_candidates_rows steady_record_failure])

lemma steady_test_key: "test_key ops e fw rid k mode url s = (r, s') \<Longrightarrow> steady held s s'"
  by (auto simp: test_key_def test_key_exa_def Let_def steady_refl split: option.splits if_splits prod.splits
      intro: steady_run_test)

end

lemma silent_judge [simp]: "sent (judge_test ops cfg kid resp s) = sent s"
  by (simp add: judge_test_def)

lemma run_test_sends:
  "run_test ops e fw rid provider mk k body path paths s = (r, s') \<Longrightarrow>
    sends (Suc (length paths)) (\<lambda>_. True) s s'"
proof -
  assume "run_test ops e fw rid provider mk k body path paths s = (r, s')"
  moreover have "try_candidates e rq path paths s = (out, t) \<Longrightarrow> sent u = sent t \<Longrightarrow>
      sends (Suc (length paths)) (\<lambda>_. True) s u" for rq out t u
    using try_candidates_sends [of e rq path paths s out t] by (auto simp: sends_def)
  ultimately show ?thesis
    by (auto simp: run_test_def Let_def sends_same
        split: option.splits sum.splits prod.splits up_outcome.splits)
qed

lemma test_key_ok:
  assumes "test_key ops e fw rid k mode url s = (Inr res, s')"
  shows "kt_ok res \<longleftrightarrow> (\<exists>st. kt_upstream_status res = Some st \<and> 200 \<le> st \<and> st < 300)"
  using assms
  by (auto simp: test_key_def test_key_exa_def run_test_def test_result_def is_success_def Let_def
      split: option.splits if_splits prod.splits sum.splits up_outcome.splits)

text \<open>A probe never brings a disabled key back.\<close>

lemma disabled_stays:
  assumes "key_row kid s = Some k" and "is_disabled k"
  shows "key_row kid (mark_active kid s) = Some k" and "key_row kid (mark_cooling ops kid c s) = Some k"
    and "key_row kid (record_failure cfg kid s) = Some k"
  using assms by (simp_all add: mark_active_def mark_cooling_def record_failure_def)

end
