(* ===== verification/Samples.thy ===== *)
theory Samples
  imports Data_Plane_Facts Key_Test
begin

text \<open>
  A small deployment to run the definitions on: one client with two keys, the default configuration,
  a cipher that leaves its input as it is, and an upstream service that answers by a list of statuses.
\<close>

definition sample_crypto :: crypto where
  "sample_crypto = \<lparr>cr_aes_encrypt = (\<lambda>key nonce p aad. p), cr_aes_decrypt = (\<lambda>key nonce c aad. Some c),
     cr_hmac_hex = (\<lambda>key s. s), cr_sha256 = (\<lambda>b. replicate 32 (CHR ''k'')), cr_sha256_hex = (\<lambda>b. b),
     cr_utf8_decode = Some\<rparr>"

definition sample_reply :: "int \<Rightarrow> http_response" where
  "sample_reply st = \<lparr>hr_status = st, hr_headers = [(''content-type'', ''application/json'')],
     hr_body = ''{\"id\": \"job-1\"}''\<rparr>"

text \<open>The \<open>n\<close>-th request is answered with the \<open>n\<close>-th status, and with 200 after the last.\<close>

definition sample_env :: "int list \<Rightarrow> env" where
  "sample_env statuses = \<lparr>en_zone = (\<lambda>_ _. 0), en_crypto = sample_crypto, en_repr = (\<lambda>_. ''?''),
     en_upstream = (\<lambda>n rq. \<lparr>ev_outcome = Reply (sample_reply (if n < length statuses then statuses ! n else 200)),
       ev_elapsed = 1000\<rparr>)\<rparr>"

definition sample_key :: "int \<Rightarrow> string \<Rightarrow> api_key" where
  "sample_key i plain = \<lparr>k_id = i, k_client_id = Some 1, k_ciphertext = replicate 12 (CHR ''n'') @ plain,
     k_hash = plain, k_last4 = plain, k_account_username = None, k_account_password_ciphertext = None,
     k_account_verified_at = None, k_name = None, k_plan_type = ''free'', k_is_active = True,
     k_daily_quota = Some 5, k_daily_usage = 0, k_quota_reset_at = None, k_max_concurrent = 2,
     k_rate_limit_per_min = 10, k_cooldown_until = None, k_total_requests = 0, k_last_used_at = None,
     k_created_at = 0, k_last_credit_snapshot_id = None, k_last_credit_check_at = None,
     k_cached_remaining = None, k_cached_plan = None, k_next_refresh_at = None, k_provider = ''firecrawl'',
     k_status = Active\<rparr>"

definition sample_client :: client where
  "sample_client = \<lparr>c_id = 1, c_name = ''alice'', c_token_hash = ''token-1'', c_is_active = True,
     c_daily_quota = Some 100, c_daily_usage = 0, c_quota_reset_at = None, c_rate_limit_per_min = 60,
     c_max_concurrent = 10, c_created_at = 0, c_last_used_at = None, c_status = Cl_active\<rparr>"

definition sample_tables :: tables where
  "sample_tables = \<lparr>t_keys = [sample_key 1 ''fc-alpha'', sample_key 2 ''fc-beta''], t_clients = [sample_client],
     t_logs = [], t_snapshots = [], t_idem = [],
     t_bindings = [\<lparr>b_id = 1, b_client_id = 1, b_api_key_id = 2, b_resource_type = ''crawl'',
       b_resource_id = ''job-0'', b_created_at = 0, b_expires_at = None\<rparr>],
     t_audit = []\<rparr>"

definition sample_app :: "memory app" where
  "sample_app = \<lparr>sess = open_session sample_tables [], rr = Map.empty, kback = memory_init,
     failures = Map.empty, wall = 0, mono = 0, sent = [], meters = None\<rparr>"

definition sample_config :: app_config where
  "sample_config = default_config\<lparr>c_firecrawl := firecrawl_default\<lparr>fc_max_retries := 1\<rparr>\<rparr>"

definition sample_forwarder :: forwarder where
  "sample_forwarder = \<lparr>fw_config = sample_config, fw_upstream_base_url = ''https://api.firecrawl.dev'',
     fw_upstream_version = None, fw_master_key = Some (replicate 32 (CHR ''k''))\<rparr>"

definition sample_inbound :: inbound where
  "sample_inbound = \<lparr>ib_request_id = ''req-1'', ib_path = ''/v2/crawl'', ib_query = [],
     ib_headers = [(''x-idempotency-key'', ''idem-1''), (''authorization'', ''Bearer token-1'')],
     ib_body = Some (JObj [(''url'', JStr ''https://example.com'')])\<rparr>"

definition sample_call :: fwd_call where
  "sample_call = call_of sample_inbound 1 ''POST'' ''/v2/scrape'' (ib_body sample_inbound) None ''firecrawl''"

text \<open>The deployment meets the standing assumptions of the properties.\<close>

lemmas sample_defs = sample_app_def sample_tables_def sample_key_def sample_client_def open_session_def

lemma sample_ok [simp]: "ok_rows sample_app"
  by (simp add: sample_defs ok_rows_def coherent_def)

lemma sample_unique: "unique_ok sample_tables"
  by (simp add: sample_defs unique_ok_def)

lemma sample_calm [simp]: "calm sample_app" "smooth sample_app" "settled sample_app"
  using sample_unique
  by (simp_all add: sample_app_def open_session_def calm_def smooth_def settled_def) (simp add: sample_tables_def)

lemma sample_app_sel [simp]:
  "faults (sess sample_app) = []" "cur (sess sample_app) = sample_tables" "db (sess sample_app) = sample_tables"
  "wall sample_app = 0" "sent sample_app = []" "kback sample_app = memory_init" "rr sample_app = Map.empty"
  by (simp_all add: sample_app_def open_session_def)

lemma sample_call_sel [simp]:
  "fa_provider sample_call = ''firecrawl''" "fa_client_id sample_call = 1" "fa_pinned sample_call = None"
  by (simp_all add: sample_call_def call_of_def)

lemma sample_attempts [simp]:
  "total_attempts sample_forwarder ''firecrawl'' = 2" "fw_config sample_forwarder = sample_config"
  "c_idempotency sample_config = idempotency_default"
  by (simp_all add: total_attempts_def sample_forwarder_def sample_config_def provider_max_retries_def
      default_config_def)

subsection \<open>One run\<close>

text \<open>
  \<open>POST /v2/crawl\<close> on the deployment: the record begins, key 1 is selected and admitted, and the
  upstream service answers 200.
\<close>

definition sample_url :: string where "sample_url = ''https://api.firecrawl.dev''"

definition sample_begun :: "memory app" where
  "sample_begun = snd (start_or_replay (sample_env []) sample_config 1 (Some ''idem-1'') ''crawl'' ''POST''
     (ib_body sample_inbound) sample_app)"

definition sample_crawl_call :: fwd_call where
  "sample_crawl_call = call_of sample_inbound 1 ''POST'' ''/v2/crawl'' (ib_body sample_inbound) None ''firecrawl''"

lemma sample_inbound_key: "header_first (ib_headers sample_inbound) ''x-idempotency-key'' = Some ''idem-1''"
  by code_simp

lemma sample_start:
  "start_or_replay (sample_env []) sample_config 1 (Some ''idem-1'') ''crawl'' ''POST'' (ib_body sample_inbound)
     sample_app = (Inr (Some 1, None), sample_begun)"
proof -
  have "fst (start_or_replay (sample_env []) sample_config 1 (Some ''idem-1'') ''crawl'' ''POST''
      (ib_body sample_inbound) sample_app) = Inr (Some 1, None)"
    by code_simp
  then show ?thesis by (simp add: sample_begun_def prod_eq_iff)
qed

lemma sample_begun_calm: "calm sample_begun"
proof -
  have "\<forall>r \<in> set (t_idem (cur (sess sample_app))). \<not> live 1 ''idem-1'' (wall sample_app) r"
    by (simp add: sample_tables_def)
  from begin_new [OF sample_calm(1) this, of "en_repr (sample_env [])" sample_config
      "hash_request (en_crypto (sample_env [])) ''POST'' ''crawl'' (ib_body sample_inbound)"]
  show ?thesis
    using sample_start
    by (auto simp: start_or_replay_def begin_request.simps given_def or_none_def idempotency_default_def)
qed

lemma sample_begun_run:
  "fst (select memory_ops (sample_env []) sample_config (Some 1) ''firecrawl'' sample_begun) = Inr 1"
  "map_option k_ciphertext (key_row 1
     (snd (select memory_ops (sample_env []) sample_config (Some 1) ''firecrawl'' sample_begun)))
     = Some (replicate 12 (CHR ''n'') @ ''fc-alpha'')"
  "(case key_row 1 (snd (select memory_ops (sample_env []) sample_config (Some 1) ''firecrawl'' sample_begun)) of
      None \<Rightarrow> False
    | Some k \<Rightarrow> fst (admit memory_ops k (metered (record_key_selected 1)
        (snd (select memory_ops (sample_env []) sample_config (Some 1) ''firecrawl'' sample_begun))))
        = Admitted (Slot_lease ''1''))"
  by code_simp+

definition sample_selected :: "memory app" where
  "sample_selected = snd (select memory_ops (sample_env []) sample_config (Some 1) ''firecrawl'' sample_begun)"

lemma sample_run:
  shows "select memory_ops (sample_env []) (fw_config sample_forwarder) (Some (fa_client_id sample_crawl_call))
      (fa_provider sample_crawl_call) sample_begun = (Inr 1, sample_selected)"
    and "smooth sample_begun"
    and "fw_master_key sample_forwarder = Some (replicate 32 (CHR ''k''))"
    and "provider_base_url sample_forwarder (fa_provider sample_crawl_call) = Inr sample_url"
    and "fa_pinned sample_crawl_call = None"
    and "ev_outcome (en_upstream (sample_env []) n rq) = Reply (sample_reply 200)"
    and "classify (sample_reply 200) = Final"
  using sample_begun_run(1) sample_begun_calm
  by (simp_all add: prod_eq_iff sample_selected_def sample_crawl_call_def call_of_def calm_def smooth_def
      provider_base_url_def sample_forwarder_def sample_url_def sample_env_def classify_def)
    (simp add: sample_reply_def)

lemma sample_admitted:
  obtains k s2 where "key_row 1 sample_selected = Some k"
    "admit memory_ops k (metered (record_key_selected 1) sample_selected) = (Admitted (Slot_lease ''1''), s2)"
    "decrypt_api_key (en_crypto (sample_env [])) (replicate 32 (CHR ''k'')) (k_ciphertext k) = Some ''fc-alpha''"
proof -
  obtain k where k: "key_row 1 sample_selected = Some k" "k_ciphertext k = replicate 12 (CHR ''n'') @ ''fc-alpha''"
    using sample_begun_run(2) by (auto simp: sample_selected_def)
  obtain s2 where "admit memory_ops k (metered (record_key_selected 1) sample_selected) = (Admitted (Slot_lease ''1''), s2)"
    using sample_begun_run(3) k(1)
    by (cases "admit memory_ops k (metered (record_key_selected 1) sample_selected)") (auto simp: sample_selected_def)
  moreover have "decrypt_api_key (en_crypto (sample_env [])) (replicate 32 (CHR ''k'')) (k_ciphertext k) = Some ''fc-alpha''"
    by (simp add: k(2) decrypt_api_key_def decrypt_with_def sample_env_def sample_crypto_def)
  ultimately show thesis using that k(1) by blast
qed

lemma sample_forward:
  "fst (forward memory_ops (sample_env []) sample_forwarder sample_crawl_call sample_begun) =
     Inr (result_of (sample_reply 200) 1 0)"
proof (rule sample_admitted)
  fix k s2
  assume "key_row 1 sample_selected = Some k"
    "admit memory_ops k (metered (record_key_selected 1) sample_selected) = (Admitted (Slot_lease ''1''), s2)"
    "decrypt_api_key (en_crypto (sample_env [])) (replicate 32 (CHR ''k'')) (k_ciphertext k) = Some ''fc-alpha''"
  from forward_answers [OF sample_run(2-5,1) this sample_run(6,7)] show ?thesis .
qed

lemma sample_fallback:
  "fst (forward_with_fallback memory_ops (sample_env []) sample_forwarder sample_inbound 1 ''POST'' ''/v2/crawl''
     (Some fallback) (ib_body sample_inbound) None rs sample_begun) = Inr (to_fastapi_response (sample_reply 200))"
  "rs_api_key_id (fst (snd (forward_with_fallback memory_ops (sample_env []) sample_forwarder sample_inbound 1 ''POST''
     ''/v2/crawl'' (Some fallback) (ib_body sample_inbound) None rs sample_begun))) = Some 1"
  using sample_forward
  by (auto simp: forward_with_fallback_def sample_crawl_call_def note_result_def result_of_def gone_or_not_allowed_def
      to_fastapi_response_def sample_reply_def split: prod.splits)

lemma sample_response [simp]:
  "hr_body (to_fastapi_response (sample_reply st)) = ''{\"id\": \"job-1\"}''"
  "extract_id_from_response (to_fastapi_response (sample_reply 200)) = Some ''job-1''"
  by (simp add: to_fastapi_response_def sample_reply_def) code_simp

definition sample_answered :: "memory app" where
  "sample_answered = snd (snd (v2_crawl memory_ops (sample_env []) sample_forwarder sample_inbound 1 rstate_init
     sample_app))"

definition sample_noted :: rstate where
  "sample_noted = fst (snd (v2_crawl memory_ops (sample_env []) sample_forwarder sample_inbound 1 rstate_init
     sample_app))"

lemma sample_crawl:
  "v2_crawl memory_ops (sample_env []) sample_forwarder sample_inbound 1 rstate_init sample_app =
     (Inr (to_fastapi_response (sample_reply 200)), sample_noted, sample_answered)"
proof -
  have "with_query sample_inbound p = p" for p by (simp add: with_query_def sample_inbound_def)
  then have "fst (v2_crawl memory_ops (sample_env []) sample_forwarder sample_inbound 1 rstate_init sample_app) =
      Inr (to_fastapi_response (sample_reply 200))"
    using sample_fallback(1) [of "''/v2/crawl/start''" "rstate_init\<lparr>rs_endpoint := Some ''crawl''\<rparr>"]
    by (simp add: v2_crawl_def idempotent_route_def Let_def sample_inbound_key sample_start create_v2_def
        case_prod_beta)
  then show ?thesis by (simp add: prod_eq_iff sample_noted_def sample_answered_def)
qed

lemma sample_answered_calm: "calm sample_answered"
  by (rule idempotent_route_calm [OF sample_calm(1) _ _ _ sample_inbound_key idem_body_create
        sample_crawl [unfolded v2_crawl_def]])
    (simp_all add: sample_tables_def idempotency_default_def)

lemma sample_begun_bindings: "find (binding_match 1 ''crawl'' (strip ''job-1'')) (t_bindings (cur (sess sample_begun))) = None"
  by code_simp

lemma prod3_collapse: "p = (fst p, fst (snd p), snd (snd p))"
  by simp

text \<open>Without a master key the crawl raises after its record began.\<close>

lemma sample_crawl_error:
  "v2_crawl memory_ops (sample_env []) (sample_forwarder\<lparr>fw_master_key := None\<rparr>) sample_inbound 1 rstate_init
     sample_app = (Inl (fcam 503 ''NOT_READY'' ''Master key not configured''),
       rstate_init\<lparr>rs_endpoint := Some ''crawl''\<rparr>, sample_begun)"
  by (simp add: v2_crawl_def idempotent_route_def Let_def sample_inbound_key sample_start create_v2_def
      forward_with_fallback_def forward_def)

definition sample_secrets :: secrets where
  "sample_secrets = \<lparr>sec_admin_token = Some ''admin'', sec_master_key = Some ''master''\<rparr>"

text \<open>A series of selections on the deployment, with only the rotation index moving on.\<close>

definition sample_next :: "memory app \<Rightarrow> memory app" where
  "sample_next t = sample_app\<lparr>rr := rr (snd (select memory_ops (sample_env []) sample_config (Some 1) ''firecrawl'' t))\<rparr>"

definition sample_series :: "nat \<Rightarrow> memory app" where
  "sample_series j = (sample_next ^^ j) sample_app"

lemma sample_series_rr: "\<exists>f. sample_series j = sample_app\<lparr>rr := f\<rparr>"
proof (cases j)
  case 0
  then show ?thesis by (intro exI [of _ Map.empty]) (simp add: sample_series_def sample_app_def)
next
  case (Suc i)
  then show ?thesis by (simp add: sample_series_def) (metis sample_next_def)
qed

lemma sample_pool:
  "pool_ids (Some 1) ''firecrawl'' (sess sample_app) = [1, 2]"
  "pool_standings (sample_env []) sample_config (Some 1) ''firecrawl'' sample_app = [Eligible, Eligible]"
  by code_simp+

lemma sample_selection_series:
  "selection_series memory_ops (sample_env []) sample_config (Some 1) ''firecrawl'' [1, 2] 1 sample_series"
  unfolding selection_series_def
proof (intro allI conjI)
  fix j
  obtain f where f: "sample_series j = sample_app\<lparr>rr := f\<rparr>" using sample_series_rr by blast
  have "ok_rows (sample_app\<lparr>rr := f\<rparr>) = ok_rows sample_app" by (simp add: ok_rows_def)
  then show "ok_rows (sample_series j)" by (simp add: f)
  show "faults (sess (sample_series j)) = []" "unique_ok (cur (sess (sample_series j)))"
    by (simp_all add: f sample_unique)
  show "pool_ids (Some 1) ''firecrawl'' (sess (sample_series j)) = [1, 2]" using sample_pool(1) by (simp add: f)
  have "pool_standings (sample_env []) sample_config (Some 1) ''firecrawl'' (sample_app\<lparr>rr := f\<rparr>) =
      pool_standings (sample_env []) sample_config (Some 1) ''firecrawl'' sample_app"
    by (simp add: pool_standings_def cong: option.case_cong)
  then show "pool_standings (sample_env []) sample_config (Some 1) ''firecrawl'' (sample_series j) ! 1 = Eligible"
    by (simp add: f sample_pool(2))
  show "rr (sample_series (Suc j)) (scope_of (Some 1) ''firecrawl'') =
      rr (snd (select memory_ops (sample_env []) sample_config (Some 1) ''firecrawl'' (sample_series j)))
        (scope_of (Some 1) ''firecrawl'')"
    by (simp add: sample_series_def sample_next_def)
qed

end
