(* ===== verification/Redis_Backend.thy ===== *)
theory Redis_Backend
  imports App_State
begin

text \<open>
  The backend of \<open>state.mode = "redis"\<close>: \<open>RedisTokenBucketRateLimiter\<close> (\<open>app/core/rate_limit.py\<close>),
  \<open>RedisConcurrencyManager\<close> (\<open>app/core/concurrency.py\<close>) and \<open>RedisCooldownStore\<close>
  (\<open>app/core/cooldown.py\<close>), with the Lua scripts they run on the server and the fallbacks for a server
  without \<open>EVAL\<close>.

  The store is the part of the server's data the three classes keep: the sorted sets of leases, the
  hashes of the buckets and the cool-down keys, as the commands used are documented. \<open>EXPIRE\<close> on a
  lease set or a bucket only frees memory (every lease of a set has run out when the set expires, and a
  bucket untouched for 120 seconds is full, \<open>idle_bucket_full\<close>), so it is left out. \<open>rd_outcomes\<close> says
  how the next commands to the server end (\<open>Raises msg\<close>: an exception with that text; an exhausted
  list means they work), \<open>rd_conflicts\<close> whether the next transactions of a pipeline meet a \<open>WatchError\<close>.
  Two fields only record what has happened: the tokens issued so far and those whose release failed
  (\<open>rd_orphans\<close>), which stay in the set until they run out.
\<close>

subsection \<open>The server's data\<close>

datatype redis_outcome = Works | Raises string

type_synonym zset = "(string \<times> int) list"

record redis =
  rd_leases :: "string \<Rightarrow> zset"
  rd_buckets :: "string \<Rightarrow> (rat \<times> int) option"
  rd_cooldowns :: "string \<Rightarrow> instant option"
  rd_issued :: "string list"
  rd_orphans :: "(string \<times> string) list"
  rd_outcomes :: "redis_outcome list"
  rd_conflicts :: "bool list"

text \<open>
  The settings of the classes: \<open>__init__\<close> strips the colons and bounds the lifetime of a lease from
  below; \<open>rc_ttl\<close> is how the server's \<open>TTL\<close> turns the microseconds left into seconds.
\<close>

record redis_conf =
  rc_prefix :: string
  rc_scope :: string
  rc_lease_ttl_ms :: int
  rc_ttl :: "int \<Rightarrow> int"

definition strip_colons :: "string \<Rightarrow> string" where
  "strip_colons s = strip_chars (\<lambda>c. c = CHR '':'') s"

definition redis_conf_init :: "string \<Rightarrow> string \<Rightarrow> int \<Rightarrow> (int \<Rightarrow> int) \<Rightarrow> redis_conf" where
  "redis_conf_init key_prefix scope lease_ttl_ms ttl =
     \<lparr>rc_prefix = strip_colons (if key_prefix = [] then ''fcam'' else key_prefix),
      rc_scope = strip_colons scope, rc_lease_ttl_ms = max lease_ttl_ms 1000, rc_ttl = ttl\<rparr>"

definition safe_key :: "string \<Rightarrow> string" where
  "safe_key key = (if strip_colons key = [] then ''unknown'' else strip_colons key)"

definition limit_key :: "redis_conf \<Rightarrow> string \<Rightarrow> string" where
  "limit_key rc key = rc_prefix rc @ '':rate_limit:'' @ rc_scope rc @ '':'' @ safe_key key"

definition lease_key :: "redis_conf \<Rightarrow> string \<Rightarrow> string" where
  "lease_key rc key = rc_prefix rc @ '':concurrency:'' @ rc_scope rc @ '':'' @ safe_key key"

definition cooldown_key :: "redis_conf \<Rightarrow> int \<Rightarrow> string" where
  "cooldown_key rc key_id = rc_prefix rc @ '':cooldown:'' @ rc_scope rc @ '':'' @ show_int key_id"

text \<open>\<open>int(time.time() * 1000)\<close>, for the instants after the epoch the clock gives.\<close>

definition epoch_ms :: "instant \<Rightarrow> int" where
  "epoch_ms t = t div 1000"

definition next_outcome :: "redis \<Rightarrow> redis_outcome \<times> redis" where
  "next_outcome b = (case rd_outcomes b of [] \<Rightarrow> (Works, b) | x # xs \<Rightarrow> (x, b\<lparr>rd_outcomes := xs\<rparr>))"

definition next_conflict :: "redis \<Rightarrow> bool \<times> redis" where
  "next_conflict b = (case rd_conflicts b of [] \<Rightarrow> (False, b) | x # xs \<Rightarrow> (x, b\<lparr>rd_conflicts := xs\<rparr>))"

text \<open>\<open>"unknown command" in msg and "eval" in msg\<close>, on the lower-case text.\<close>

definition no_eval :: "string \<Rightarrow> bool" where
  "no_eval msg \<longleftrightarrow> substr ''unknown command'' (lower msg) \<and> substr ''eval'' (lower msg)"

subsection \<open>The rate limiter\<close>

text \<open>\<open>_ALLOW_LUA\<close> on the hash of one key.\<close>

definition allow_lua ::
  "int \<Rightarrow> rat \<Rightarrow> rat \<Rightarrow> (rat \<times> int) option \<Rightarrow> (int \<times> int) \<times> (rat \<times> int) option" where
  "allow_lua now capacity refill_per_ms data =
     (if capacity \<le> 0 then ((1, 0), data)
      else
        (let (tk, lst) = (case data of None \<Rightarrow> (capacity, now) | Some d \<Rightarrow> d);
             elapsed = (if now - lst < 0 then 0 else now - lst);
             tk1 = min capacity (tk + of_int elapsed * refill_per_ms)
         in if 1 \<le> tk1 then ((1, 0), Some (tk1 - 1, now))
            else
              (let ms_needed = (1 - tk1) / refill_per_ms;
                   retry_after = \<lceil>ms_needed / 1000\<rceil>
               in ((0, if retry_after < 1 then 1 else retry_after), Some (tk1, now)))))"

text \<open>The body of \<open>_allow_fallback\<close>'s loop, between \<open>watch\<close> and \<open>execute\<close>.\<close>

definition allow_turn ::
  "int \<Rightarrow> rat \<Rightarrow> rat \<Rightarrow> (rat \<times> int) option \<Rightarrow> (int \<times> int) \<times> (rat \<times> int)" where
  "allow_turn now_ms capacity refill_per_ms raw =
     (let tk = (case raw of None \<Rightarrow> capacity | Some d \<Rightarrow> fst d);
          lst = (case raw of None \<Rightarrow> now_ms | Some d \<Rightarrow> snd d);
          elapsed = max (now_ms - lst) 0;
          tk1 = min capacity (tk + of_int elapsed * refill_per_ms)
      in if 1 \<le> tk1 then ((1, 0), (tk1 - 1, now_ms))
         else
           (let ms_needed = (1 - tk1) / refill_per_ms
            in ((0, max \<lceil>ms_needed / 1000\<rceil> 1), (tk1, now_ms))))"

fun allow_fallback ::
  "nat \<Rightarrow> string \<Rightarrow> int \<Rightarrow> rat \<Rightarrow> rat \<Rightarrow> redis \<Rightarrow> (fcam_error + int \<times> int) \<times> redis" where
  "allow_fallback 0 redis_key now_ms capacity refill_per_ms b = (Inl backend_unavailable, b)"
| "allow_fallback (Suc n) redis_key now_ms capacity refill_per_ms b =
     (let (res, bucket) = allow_turn now_ms capacity refill_per_ms (rd_buckets b redis_key);
          (conflict, b1) = next_conflict b
      in if conflict then allow_fallback n redis_key now_ms capacity refill_per_ms b1
         else (Inr res, b1\<lparr>rd_buckets := (rd_buckets b1)(redis_key \<mapsto> bucket)\<rparr>))"

definition redis_allow ::
  "redis_conf \<Rightarrow> instant \<Rightarrow> string \<Rightarrow> int \<Rightarrow> redis \<Rightarrow> (fcam_error + bool \<times> int) \<times> redis" where
  "redis_allow rc now key rate_per_min b =
     (if rate_per_min \<le> 0 then (Inr (True, 0), b)
      else
        (let now_ms = epoch_ms now;
             capacity = of_int rate_per_min;
             refill_per_ms = capacity / 60000;
             redis_key = limit_key rc key;
             (res, b2) =
               (case next_outcome b of
                  (Works, b1) \<Rightarrow>
                    (let (res, data) = allow_lua now_ms capacity refill_per_ms (rd_buckets b1 redis_key)
                     in (Inr res, b1\<lparr>rd_buckets := (rd_buckets b1)(redis_key := data)\<rparr>))
                | (Raises msg, b1) \<Rightarrow>
                    if no_eval msg then allow_fallback 5 redis_key now_ms capacity refill_per_ms b1
                    else (Inl backend_unavailable, b1))
         in (case res of
               Inl e \<Rightarrow> (Inl e, b2)
             | Inr (allowed, retry_after) \<Rightarrow> (Inr (allowed \<noteq> 0, retry_after), b2))))"

subsection \<open>The concurrency manager\<close>

text \<open>The commands on a sorted set whose scores are the expiry times of leases.\<close>

definition zremrange :: "int \<Rightarrow> zset \<Rightarrow> zset" where
  "zremrange now z = filter (\<lambda>(token, score). now < score) z"

definition zadd :: "int \<Rightarrow> string \<Rightarrow> zset \<Rightarrow> zset" where
  "zadd score token z = filter (\<lambda>x. fst x \<noteq> token) z @ [(token, score)]"

definition zrem :: "string \<Rightarrow> zset \<Rightarrow> zset" where
  "zrem token z = filter (\<lambda>x. fst x \<noteq> token) z"

definition on_leases :: "string \<Rightarrow> (zset \<Rightarrow> zset) \<Rightarrow> redis \<Rightarrow> redis" where
  "on_leases redis_key f b = b\<lparr>rd_leases := (rd_leases b)(redis_key := f (rd_leases b redis_key))\<rparr>"

text \<open>
  \<open>uuid.uuid4().hex\<close>: a text no lease has had before. Only that it is new matters, so it is one longer
  than every token issued or stored under the key.
\<close>

definition longest :: "string list \<Rightarrow> nat" where
  "longest ts = foldr (\<lambda>t n. max (length t) n) ts 0"

definition new_token :: "string \<Rightarrow> redis \<Rightarrow> string \<times> redis" where
  "new_token redis_key b =
     (let token = replicate (Suc (longest (rd_issued b @ map snd (rd_orphans b) @ map fst (rd_leases b redis_key)))) (CHR ''0'')
      in (token, b\<lparr>rd_issued := token # rd_issued b\<rparr>))"

text \<open>\<open>_ACQUIRE_LUA\<close> on the sorted set of one key.\<close>

definition acquire_lua :: "int \<Rightarrow> int \<Rightarrow> int \<Rightarrow> string \<Rightarrow> zset \<Rightarrow> int \<times> zset" where
  "acquire_lua now ttl maximum token z =
     (let z1 = zremrange now z; count = int (length z1)
      in if maximum \<le> count then (0, z1) else (1, zadd (now + ttl) token z1))"

fun acquire_fallback ::
  "nat \<Rightarrow> string \<Rightarrow> int \<Rightarrow> int \<Rightarrow> int \<Rightarrow> string \<Rightarrow> redis \<Rightarrow> (fcam_error + int) \<times> redis" where
  "acquire_fallback 0 redis_key maximum now_ms ttl_ms token b = (Inl backend_unavailable, b)"
| "acquire_fallback (Suc n) redis_key maximum now_ms ttl_ms token b =
     (let b1 = on_leases redis_key (zremrange now_ms) b;
          count = int (length (rd_leases b1 redis_key))
      in if maximum \<le> count then (Inr 0, b1)
         else
           (let (conflict, b2) = next_conflict b1
            in if conflict then acquire_fallback n redis_key maximum now_ms ttl_ms token b2
               else (Inr 1, on_leases redis_key (zadd (now_ms + ttl_ms) token) b2)))"

definition redis_try_acquire ::
  "redis_conf \<Rightarrow> instant \<Rightarrow> string \<Rightarrow> int \<Rightarrow> redis \<Rightarrow> (fcam_error + lease option) \<times> redis" where
  "redis_try_acquire rc now key maximum b =
     (if maximum \<le> 0 then (Inr (Some Noop_lease), b)
      else
        (let redis_key = lease_key rc key;
             (token, b0) = new_token redis_key b;
             now_ms = epoch_ms now;
             ttl_ms = rc_lease_ttl_ms rc;
             (ok, b2) =
               (case next_outcome b0 of
                  (Works, b1) \<Rightarrow>
                    (let (ok, z) = acquire_lua now_ms ttl_ms maximum token (rd_leases b1 redis_key)
                     in (Inr ok, on_leases redis_key (\<lambda>_. z) b1))
                | (Raises msg, b1) \<Rightarrow>
                    if no_eval msg then acquire_fallback 5 redis_key maximum now_ms ttl_ms token b1
                    else (Inl backend_unavailable, b1))
         in (case ok of
               Inl e \<Rightarrow> (Inl e, b2)
             | Inr n \<Rightarrow> (Inr (if n \<noteq> 1 then None else Some (Token_lease key token)), b2))))"

text \<open>The closure \<open>_release\<close> of a lease; an exception is logged and the lease left to run out.\<close>

fun redis_release :: "redis_conf \<Rightarrow> lease \<Rightarrow> redis \<Rightarrow> redis" where
  "redis_release rc (Token_lease key token) b =
     (case next_outcome b of
        (Works, b1) \<Rightarrow> on_leases (lease_key rc key) (zrem token) b1
      | (Raises msg, b1) \<Rightarrow> b1\<lparr>rd_orphans := (lease_key rc key, token) # rd_orphans b1\<rparr>)"
| "redis_release rc l b = b"

text \<open>\<open>current\<close>: \<open>_CURRENT_LUA\<close>, the two commands, or zero.\<close>

definition redis_current :: "redis_conf \<Rightarrow> instant \<Rightarrow> string \<Rightarrow> redis \<Rightarrow> int \<times> redis" where
  "redis_current rc now key b =
     (let redis_key = lease_key rc key;
          purged = (\<lambda>b. on_leases redis_key (zremrange (epoch_ms now)) b);
          counted = (\<lambda>b. (int (length (rd_leases b redis_key)), b))
      in (case next_outcome b of
            (Works, b1) \<Rightarrow> counted (purged b1)
          | (Raises _, b1) \<Rightarrow>
              (case next_outcome b1 of
                 (Works, b2) \<Rightarrow> counted (purged b2)
               | (Raises _, b2) \<Rightarrow> (0, b2))))"

subsection \<open>The cool-down store\<close>

definition redis_set_cooldown ::
  "redis_conf \<Rightarrow> instant \<Rightarrow> int \<Rightarrow> int \<Rightarrow> redis \<Rightarrow> (fcam_error + unit) \<times> redis" where
  "redis_set_cooldown rc now key_id cooldown_seconds b =
     (let secs = max cooldown_seconds 0
      in (case next_outcome b of
            (Works, b1) \<Rightarrow>
              (Inr (), b1\<lparr>rd_cooldowns := (rd_cooldowns b1)
                 (cooldown_key rc key_id := (if secs \<le> 0 then None else Some (now + seconds secs)))\<rparr>)
          | (Raises _, b1) \<Rightarrow> (Inl backend_unavailable, b1)))"

text \<open>\<open>TTL\<close> of a key that is absent or has run out is negative.\<close>

definition redis_remaining ::
  "redis_conf \<Rightarrow> instant \<Rightarrow> int \<Rightarrow> redis \<Rightarrow> (fcam_error + int option) \<times> redis" where
  "redis_remaining rc now key_id b =
     (case next_outcome b of
        (Works, b1) \<Rightarrow>
          (let ttl = (case rd_cooldowns b1 (cooldown_key rc key_id) of
                        None \<Rightarrow> - 2
                      | Some until \<Rightarrow> if until \<le> now then - 2 else rc_ttl rc (until - now))
           in (Inr (if ttl \<le> 0 then None else Some ttl), b1))
      | (Raises _, b1) \<Rightarrow> (Inl backend_unavailable, b1))"

definition redis_ops :: "redis_conf \<Rightarrow> redis backend" where
  "redis_ops rc = \<lparr>
     be_allow = (\<lambda>c k r b. redis_allow rc (fst c) k r b),
     be_acquire = (\<lambda>c k m b. redis_try_acquire rc (fst c) k m b),
     be_release = (\<lambda>c l b. redis_release rc l b),
     be_set_cooldown = (\<lambda>c kid n b. redis_set_cooldown rc (fst c) kid n b),
     be_remaining = (\<lambda>c kid b. redis_remaining rc (fst c) kid b),
     be_current = (\<lambda>c k b. redis_current rc (fst c) k b)\<rparr>"

text \<open>\<open>main.py\<close>: how long a lease lives, from the timeouts of the upstream calls.\<close>

definition lease_ttl_ms_of :: "app_config \<Rightarrow> int" where
  "lease_ttl_ms_of cfg =
     (max (fc_timeout (c_firecrawl cfg)) 1 * (max (fc_max_retries (c_firecrawl cfg)) 0 + 1) + 10) * 1000"

subsection \<open>The contract of a backend\<close>

text \<open>The leases of a key that have neither been released nor run out.\<close>

definition redis_held :: "redis_conf \<Rightarrow> instant \<Rightarrow> redis \<Rightarrow> string \<Rightarrow> nat" where
  "redis_held rc t b key =
     length (filter (\<lambda>(token, score). epoch_ms t < score \<and> (lease_key rc key, token) \<notin> set (rd_orphans b))
       (rd_leases b (lease_key rc key)))"

named_theorems redis_frame \<open>what the commands leave of the leases\<close>

lemma longest_ge: "t \<in> set ts \<Longrightarrow> length t \<le> longest ts"
  by (induction ts) (auto simp: longest_def max_def)

lemma new_token_fresh:
  assumes "new_token rk b = (tk, b')"
  shows "tk \<notin> fst ` set (rd_leases b rk)" "tk \<notin> snd ` set (rd_orphans b)" "tk \<notin> set (rd_issued b)"
    "rd_leases b' = rd_leases b" "rd_orphans b' = rd_orphans b" "rd_issued b' = tk # rd_issued b"
    "rd_outcomes b' = rd_outcomes b" "rd_conflicts b' = rd_conflicts b" "rd_buckets b' = rd_buckets b"
proof -
  let ?ts = "rd_issued b @ map snd (rd_orphans b) @ map fst (rd_leases b rk)"
  have tk: "length tk = Suc (longest ?ts)" using assms by (auto simp: new_token_def Let_def)
  have "tk \<notin> set ?ts"
  proof
    assume "tk \<in> set ?ts"
    from longest_ge [OF this] tk show False by linarith
  qed
  then show "tk \<notin> fst ` set (rd_leases b rk)" "tk \<notin> snd ` set (rd_orphans b)" "tk \<notin> set (rd_issued b)"
    by auto
qed (use assms in \<open>auto simp: new_token_def Let_def\<close>)

lemma next_outcome_frame [redis_frame]:
  "rd_leases (snd (next_outcome b)) = rd_leases b" "rd_orphans (snd (next_outcome b)) = rd_orphans b"
  "rd_buckets (snd (next_outcome b)) = rd_buckets b" "rd_issued (snd (next_outcome b)) = rd_issued b"
  "rd_conflicts (snd (next_outcome b)) = rd_conflicts b" "rd_cooldowns (snd (next_outcome b)) = rd_cooldowns b"
  by (simp_all add: next_outcome_def split: list.split)

lemma next_outcome_eq:
  assumes "next_outcome b = (x, b')"
  shows "rd_leases b' = rd_leases b" "rd_orphans b' = rd_orphans b" "rd_buckets b' = rd_buckets b"
    "rd_conflicts b' = rd_conflicts b" "rd_cooldowns b' = rd_cooldowns b"
  using next_outcome_frame [of b] assms by simp_all

lemma next_conflict_eq:
  assumes "next_conflict b = (x, b')"
  shows "rd_leases b' = rd_leases b" "rd_orphans b' = rd_orphans b" "rd_buckets b' = rd_buckets b"
  using assms by (auto simp: next_conflict_def split: list.splits)

text \<open>Removing what has run out, at a time that is past, does not change what counts later.\<close>

lemma zremrange_later:
  assumes "now \<le> epoch_ms t"
  shows "filter (\<lambda>(token, score). epoch_ms t < score \<and> P token) (zremrange now z) =
    filter (\<lambda>(token, score). epoch_ms t < score \<and> P token) z"
  using assms by (induction z) (auto simp: zremrange_def)

lemma epoch_ms_mono: "s \<le> t \<Longrightarrow> epoch_ms s \<le> epoch_ms t"
  unfolding epoch_ms_def by (rule zdiv_mono1) simp_all

lemma redis_held_same:
  "rd_leases b' = rd_leases b \<Longrightarrow> rd_orphans b' = rd_orphans b \<Longrightarrow> redis_held rc t b' = redis_held rc t b"
  by (simp add: redis_held_def fun_eq_iff)

lemma on_leases_orphans [simp]: "rd_orphans (on_leases rk f b) = rd_orphans b"
  by (simp add: on_leases_def)

lemma on_leases_at [simp]: "rd_leases (on_leases rk f b) = (rd_leases b)(rk := f (rd_leases b rk))"
  by (simp add: on_leases_def)

lemma redis_held_purge:
  "now \<le> t \<Longrightarrow> redis_held rc t (on_leases rk (zremrange (epoch_ms now)) b) = redis_held rc t b"
  by (simp add: redis_held_def fun_eq_iff epoch_ms_mono zremrange_later)

text \<open>What the server holds after a request for a lease, on both paths.\<close>

definition granted_at :: "int \<Rightarrow> int \<Rightarrow> string \<Rightarrow> zset \<Rightarrow> zset" where
  "granted_at now ttl token z = zadd (now + ttl) token (zremrange now z)"

lemma acquire_fallback_effect:
  assumes "acquire_fallback n rk m now ttl tk b = (r, b')"
  shows "rd_orphans b' = rd_orphans b \<and>
    (\<forall>k. k \<noteq> rk \<longrightarrow> rd_leases b' k = rd_leases b k) \<and>
    (r = Inr 1 \<longrightarrow> int (length (zremrange now (rd_leases b rk))) < m \<and>
       rd_leases b' rk = granted_at now ttl tk (rd_leases b rk)) \<and>
    (r \<noteq> Inr 1 \<longrightarrow> rd_leases b' rk = zremrange now (rd_leases b rk) \<or> rd_leases b' rk = rd_leases b rk) \<and>
    (\<forall>i. r = Inr i \<longrightarrow> i = 0 \<or> i = 1) \<and>
    (r = Inr 0 \<longrightarrow> m \<le> int (length (zremrange now (rd_leases b rk)))) \<and>
    (\<forall>e. r = Inl e \<longrightarrow> e = backend_unavailable)"
  using assms
proof (induction n arbitrary: b)
  case 0
  then show ?case by auto
next
  case (Suc n)
  let ?b1 = "on_leases rk (zremrange now) b"
  have idem: "zremrange now (zremrange now z) = zremrange now z" for z by (simp add: zremrange_def)
  show ?case
  proof (cases "m \<le> int (length (zremrange now (rd_leases b rk)))")
    case True
    with Suc.prems have "r = Inr 0" "b' = ?b1" by (auto simp: Let_def)
    with True show ?thesis by auto
  next
    case False
    obtain c b2 where c: "next_conflict ?b1 = (c, b2)" by (cases "next_conflict ?b1")
    note b2 = next_conflict_eq [OF c]
    show ?thesis
    proof (cases c)
      case True
      with Suc.prems False c have "acquire_fallback n rk m now ttl tk b2 = (r, b')" by (auto simp: Let_def)
      from Suc.IH [OF this] show ?thesis
        by (auto simp: b2 idem granted_at_def)
    next
      case 2: False
      with Suc.prems False c have "r = Inr 1" "b' = on_leases rk (zadd (now + ttl) tk) b2"
        by (auto simp: Let_def)
      with False show ?thesis by (auto simp: b2 granted_at_def)
    qed
  qed
qed

lemma redis_try_acquire_effect:
  assumes "redis_try_acquire rc now key m b = (r, b')" and "0 < m"
  shows "rd_orphans b' = rd_orphans b \<and>
    (\<forall>k. k \<noteq> lease_key rc key \<longrightarrow> rd_leases b' k = rd_leases b k) \<and>
    (case r of
       Inr (Some l) \<Rightarrow> (\<exists>tk. l = Token_lease key tk \<and> tk \<notin> snd ` set (rd_orphans b) \<and>
           tk \<notin> fst ` set (rd_leases b (lease_key rc key)) \<and>
           int (length (zremrange (epoch_ms now) (rd_leases b (lease_key rc key)))) < m \<and>
           rd_leases b' (lease_key rc key) =
             granted_at (epoch_ms now) (rc_lease_ttl_ms rc) tk (rd_leases b (lease_key rc key)))
     | Inr None \<Rightarrow> m \<le> int (length (zremrange (epoch_ms now) (rd_leases b (lease_key rc key)))) \<and>
          (rd_leases b' (lease_key rc key) = zremrange (epoch_ms now) (rd_leases b (lease_key rc key)) \<or>
            rd_leases b' (lease_key rc key) = rd_leases b (lease_key rc key))
     | Inl e \<Rightarrow> e = backend_unavailable \<and>
          (rd_leases b' (lease_key rc key) = zremrange (epoch_ms now) (rd_leases b (lease_key rc key)) \<or>
            rd_leases b' (lease_key rc key) = rd_leases b (lease_key rc key)))"
proof -
  let ?rk = "lease_key rc key" and ?now = "epoch_ms now"
  obtain tk b0 where tk: "new_token ?rk b = (tk, b0)" by (cases "new_token ?rk b")
  note fr = new_token_fresh [OF tk]
  obtain x b1 where x: "next_outcome b0 = (x, b1)" by (cases "next_outcome b0")
  note xf = next_outcome_eq [OF x]
  show ?thesis
  proof (cases x)
    case Works
    with assms tk x show ?thesis
      by (auto simp: redis_try_acquire_def Let_def acquire_lua_def xf fr granted_at_def split: if_splits)
  next
    case (Raises msg)
    show ?thesis
    proof (cases "no_eval msg")
      case False
      with Raises assms tk x have "r = Inl backend_unavailable \<and> b' = b1"
        by (simp add: redis_try_acquire_def Let_def)
      then show ?thesis by (simp add: xf fr)
    next
      case True
      obtain q b2 where q: "acquire_fallback 5 ?rk m ?now (rc_lease_ttl_ms rc) tk b1 = (q, b2)"
        by (cases "acquire_fallback 5 ?rk m ?now (rc_lease_ttl_ms rc) tk b1")
      have "(r, b') = (case q of Inl e \<Rightarrow> (Inl e, b2)
          | Inr n \<Rightarrow> (Inr (if n \<noteq> 1 then None else Some (Token_lease key tk)), b2))"
        using Raises True assms tk x q by (simp add: redis_try_acquire_def Let_def)
      with acquire_fallback_effect [OF q] show ?thesis
        by (cases q) (auto simp: xf fr)
    qed
  qed
qed

lemma fresh_filter:
  "tk \<notin> fst ` set z \<Longrightarrow> filter (\<lambda>x. fst x \<noteq> tk) (zremrange now z) = zremrange now z"
  by (induction z) (auto simp: zremrange_def)

text \<open>A lease just granted counts until it runs out; released, or its release lost, it does not count.\<close>

definition fresh_grant :: "string \<Rightarrow> string \<Rightarrow> int \<Rightarrow> int \<Rightarrow> redis \<Rightarrow> redis \<Rightarrow> bool" where
  "fresh_grant rk tk now ttl b b' \<longleftrightarrow>
     tk \<notin> snd ` set (rd_orphans b) \<and> tk \<notin> fst ` set (rd_leases b rk) \<and>
     (\<forall>k. rd_leases b' k = (if k = rk then granted_at now ttl tk (rd_leases b rk) else rd_leases b k)) \<and>
     rd_orphans b' = rd_orphans b"

lemma held_granted:
  assumes "fresh_grant rk tk now ttl b b'" and "now \<le> epoch_ms t"
  shows "redis_held rc t b' k = redis_held rc t b k + of_bool (lease_key rc k = rk \<and> epoch_ms t < now + ttl)"
proof -
  have "(lease_key rc k, tk) \<notin> set (rd_orphans b)" using assms(1) by (force simp: fresh_grant_def)
  with assms show ?thesis
    by (auto simp: redis_held_def fresh_grant_def granted_at_def zadd_def fresh_filter zremrange_later)
qed

lemma zrem_granted:
  "tk \<notin> fst ` set z \<Longrightarrow> zrem tk (granted_at now ttl tk z) = zremrange now z"
  by (simp add: zrem_def granted_at_def zadd_def fresh_filter)

lemma held_released:
  assumes "fresh_grant rk tk now ttl b b'" and "now \<le> epoch_ms t"
  shows "redis_held rc t (on_leases rk (zrem tk) b') = redis_held rc t b"
  using assms by (auto simp: redis_held_def fresh_grant_def zrem_granted zremrange_later fun_eq_iff)

text \<open>To lose a release is, for what is held, to make it.\<close>

lemma held_orphaned:
  "redis_held rc t (b\<lparr>rd_orphans := (lease_key rc key, tk) # rd_orphans b\<rparr>) =
     redis_held rc t (on_leases (lease_key rc key) (zrem tk) b)"
  by (simp add: redis_held_def fun_eq_iff zrem_def case_prod_unfold conj_ac)

lemma held_release_token:
  "redis_held rc t (redis_release rc (Token_lease key tk) b) =
     redis_held rc t (on_leases (lease_key rc key) (zrem tk) b)"
proof (cases "next_outcome b")
  case (Pair o1 b1)
  note f = next_outcome_eq [OF Pair]
  have "redis_held rc t (on_leases (lease_key rc key) (zrem tk) b1) =
      redis_held rc t (on_leases (lease_key rc key) (zrem tk) b)"
    by (rule redis_held_same) (simp_all add: f)
  with Pair show ?thesis by (cases o1) (simp_all add: held_orphaned)
qed

lemma granted_fresh:
  assumes "redis_try_acquire rc now key m b = (Inr (Some (Token_lease key' tk)), b')"
  shows "key' = key \<and> fresh_grant (lease_key rc key) tk (epoch_ms now) (rc_lease_ttl_ms rc) b b'"
proof -
  have m: "0 < m" using assms by (auto simp: redis_try_acquire_def split: if_splits)
  from redis_try_acquire_effect [OF assms m] show ?thesis by (auto simp: fresh_grant_def)
qed

lemma granted_lease:
  assumes "redis_try_acquire rc now key m b = (Inr (Some l), b')"
  shows "l = Noop_lease \<and> m \<le> 0 \<and> b' = b \<or> 0 < m \<and> (\<exists>tk. l = Token_lease key tk)"
proof (cases "m \<le> 0")
  case True
  then show ?thesis using assms by (simp add: redis_try_acquire_def)
next
  case False
  then have m: "0 < m" by simp
  from redis_try_acquire_effect [OF assms m] m show ?thesis by auto
qed

lemma held_not_granted:
  assumes "redis_try_acquire rc now key m b = (r, b')" and "r = Inr None \<or> (\<exists>e. r = Inl e)" and "now \<le> t"
  shows "redis_held rc t b' = redis_held rc t b"
proof -
  have m: "0 < m" using assms(1,2) by (auto simp: redis_try_acquire_def split: if_splits)
  have "rd_orphans b' = rd_orphans b \<and> (\<forall>k. k \<noteq> lease_key rc key \<longrightarrow> rd_leases b' k = rd_leases b k) \<and>
      (rd_leases b' (lease_key rc key) = zremrange (epoch_ms now) (rd_leases b (lease_key rc key)) \<or>
       rd_leases b' (lease_key rc key) = rd_leases b (lease_key rc key))"
    using redis_try_acquire_effect [OF assms(1) m] assms(2) by auto
  then have o: "rd_orphans b' = rd_orphans b"
    and l: "rd_leases b' k = rd_leases b k \<or> rd_leases b' k = zremrange (epoch_ms now) (rd_leases b k)" for k
    by metis+
  have "redis_held rc t b' k = redis_held rc t b k" for k
    using l [of "lease_key rc k"] epoch_ms_mono [OF assms(3)] by (auto simp: redis_held_def o zremrange_later)
  then show ?thesis ..
qed

lemma allow_leases:
  assumes "redis_allow rc now key r b = (a, b')"
  shows "rd_leases b' = rd_leases b \<and> rd_orphans b' = rd_orphans b"
proof -
  have fb: "rd_leases b2 = rd_leases b1 \<and> rd_orphans b2 = rd_orphans b1"
    if "allow_fallback n rk t c f b1 = (x, b2)" for n rk t c f b1 x b2
    using that
  proof (induction n arbitrary: b1)
    case (Suc n)
    obtain q b3 where q: "next_conflict b1 = (q, b3)" by (cases "next_conflict b1")
    note f3 = next_conflict_eq [OF q]
    show ?case
    proof (cases q)
      case True
      with Suc.prems q have "allow_fallback n rk t c f b3 = (x, b2)" by (auto split: prod.splits)
      from Suc.IH [OF this] show ?thesis by (simp add: f3)
    next
      case False
      with Suc.prems q show ?thesis by (auto simp: f3 split: prod.splits)
    qed
  qed simp
  obtain x b1 where x: "next_outcome b = (x, b1)" by (cases "next_outcome b")
  note f1 = next_outcome_eq [OF x]
  show ?thesis
  proof (cases "x = Works \<or> r \<le> 0")
    case True
    with assms x show ?thesis by (auto simp: redis_allow_def Let_def f1 split: if_splits prod.splits)
  next
    case False
    then obtain msg where msg: "x = Raises msg" by (cases x) auto
    show ?thesis
    proof (cases "no_eval msg")
      case True
      with assms x msg False show ?thesis
        by (auto simp: redis_allow_def Let_def f1 split: prod.splits sum.splits dest: fb)
    next
      case no: False
      with assms x msg False have "b' = b1" by (simp add: redis_allow_def Let_def)
      with f1 show ?thesis by simp
    qed
  qed
qed

lemma held_release_same:
  assumes "rd_leases b' = rd_leases b" and "rd_orphans b' = rd_orphans b"
  shows "redis_held rc t (redis_release rc l b') = redis_held rc t (redis_release rc l b)"
proof (cases l)
  case (Token_lease key tk)
  have "redis_held rc t (on_leases (lease_key rc key) (zrem tk) b') =
      redis_held rc t (on_leases (lease_key rc key) (zrem tk) b)"
    by (rule redis_held_same) (simp_all add: assms)
  then show ?thesis by (simp add: Token_lease held_release_token del: redis_release.simps)
qed (use redis_held_same [OF assms] in simp_all)

lemma redis_current_held:
  assumes "redis_current rc now key b = (n, b')" and "now \<le> t"
  shows "redis_held rc t b' = redis_held rc t b"
proof -
  obtain x b1 where x: "next_outcome b = (x, b1)" by (cases "next_outcome b")
  obtain y b2 where y: "next_outcome b1 = (y, b2)" by (cases "next_outcome b1")
  have h: "redis_held rc t b1 = redis_held rc t b" "redis_held rc t b2 = redis_held rc t b"
    using redis_held_same [OF next_outcome_eq(1,2) [OF x], of rc t]
      redis_held_same [OF next_outcome_eq(1,2) [OF y], of rc t] by simp_all
  show ?thesis
    using assms x y h by (auto simp: redis_current_def Let_def redis_held_purge split: redis_outcome.splits)
qed

interpretation red: lease_backend "redis_ops rc" "redis_held rc" for rc
proof unfold_locales
  fix c k m b l b' t c'
  assume a: "be_acquire (redis_ops rc) c k m b = (Inr (Some l), b')" and t: "fst c \<le> t"
  then have a: "redis_try_acquire rc (fst c) k m b = (Inr (Some l), b')" by (simp add: redis_ops_def)
  show "redis_held rc t (be_release (redis_ops rc) c' l b') = redis_held rc t b"
  proof (cases "0 < m")
    case True
    with granted_lease [OF a] obtain tk where l: "l = Token_lease k tk"
      using granted_fresh a by (metis not_less)
    with granted_fresh a have "fresh_grant (lease_key rc k) tk (epoch_ms (fst c)) (rc_lease_ttl_ms rc) b b'"
      by blast
    from held_released [OF this epoch_ms_mono [OF t]] show ?thesis
      by (simp add: redis_ops_def l held_release_token del: redis_release.simps)
  next
    case False
    with granted_lease [OF a] show ?thesis by (auto simp: redis_ops_def)
  qed
next
  fix c k m b e b' t
  assume "be_acquire (redis_ops rc) c k m b = (Inl e, b')" and "fst c \<le> t"
  then show "redis_held rc t b' = redis_held rc t b"
    by (intro held_not_granted [where r = "Inl e"]) (auto simp: redis_ops_def)
next
  fix c k m b b' t
  assume "be_acquire (redis_ops rc) c k m b = (Inr None, b')" and "fst c \<le> t"
  then show "redis_held rc t b' = redis_held rc t b"
    by (intro held_not_granted [where r = "Inr None"]) (auto simp: redis_ops_def)
next
  fix c k r b a b' c' t and l :: lease
  assume "be_allow (redis_ops rc) c k r b = (a, b')"
  then have "rd_leases b' = rd_leases b \<and> rd_orphans b' = rd_orphans b"
    by (intro allow_leases [where a = a]) (simp add: redis_ops_def)
  then show "redis_held rc t (be_release (redis_ops rc) c' l b') = redis_held rc t (be_release (redis_ops rc) c' l b)"
    "redis_held rc t b' = redis_held rc t b"
    using held_release_same [of b' b rc t l] redis_held_same [of b' b rc t] by (simp_all add: redis_ops_def)
next
  fix c kid n b u b' t
  assume "be_set_cooldown (redis_ops rc) c kid n b = (u, b')"
  then show "redis_held rc t b' = redis_held rc t b"
    by (intro redis_held_same)
      (auto simp: redis_ops_def redis_set_cooldown_def Let_def dest: next_outcome_eq split: prod.splits redis_outcome.splits)
next
  fix c kid b q b' t
  assume "be_remaining (redis_ops rc) c kid b = (q, b')"
  then show "redis_held rc t b' = redis_held rc t b"
    by (intro redis_held_same)
      (auto simp: redis_ops_def redis_remaining_def Let_def dest: next_outcome_eq split: prod.splits redis_outcome.splits)
next
  fix c k b n b' t
  assume "be_current (redis_ops rc) c k b = (n, b')" and "fst c \<le> t"
  then show "redis_held rc t b' = redis_held rc t b"
    by (intro redis_current_held [where n = n and now = "fst c" and key = k]) (auto simp: redis_ops_def)
qed

subsection \<open>The two paths to the server\<close>

text \<open>
  The server answers a limiter or a lease request when the script runs, or when it knows no \<open>EVAL\<close> and
  one of the five transactions meets no conflict.
\<close>

fun streak :: "bool list \<Rightarrow> nat" where
  "streak (True # xs) = Suc (streak xs)"
| "streak _ = 0"

definition redis_answers :: "redis \<Rightarrow> bool" where
  "redis_answers b \<longleftrightarrow>
     (case rd_outcomes b of
        Raises msg # _ \<Rightarrow> no_eval msg \<and> streak (rd_conflicts b) < 5
      | _ \<Rightarrow> True)"

lemma next_conflict_streak:
  assumes "next_conflict b = (c, b')"
  shows "c \<longrightarrow> streak (rd_conflicts b) = Suc (streak (rd_conflicts b'))"
  using assms by (auto simp: next_conflict_def split: list.splits)




text \<open>The buckets of the server as buckets of \<open>TokenBucketRateLimiter\<close>, on a clock that ticks milliseconds.\<close>

definition ms_clock :: "instant \<Rightarrow> rat" where
  "ms_clock now = of_int (epoch_ms now) / 1000"

definition redis_buckets :: "redis \<Rightarrow> buckets" where
  "redis_buckets b = (\<lambda>k. map_option (\<lambda>(tk, lst). \<lparr>tokens = tk, last_refill = of_int lst / 1000\<rparr>) (rd_buckets b k))"

lemma ms_refill:
  "max (of_int n / 1000 - of_int l / 1000) 0 * (c / 60) = of_int (max (n - l) 0) * (c / 60000)" for c :: rat
proof -
  have "max (of_int n / 1000 - of_int l / 1000) 0 = of_int (max (n - l) 0) / (1000 :: rat)"
    by (simp add: max_def diff_divide_distrib)
  then show ?thesis by simp
qed


lemma redis_level:
  "level (ms_clock now) rate k (redis_buckets b) =
     min (of_int rate)
       ((case rd_buckets b k of None \<Rightarrow> of_int rate | Some d \<Rightarrow> fst d) +
        of_int (max (epoch_ms now - (case rd_buckets b k of None \<Rightarrow> epoch_ms now | Some d \<Rightarrow> snd d)) 0)
          * (of_int rate / 60000))"
proof (cases "rd_buckets b k")
  case (Some d)
  then show ?thesis
    by (cases d) (simp only: level_def refilled_def bucket_at_def redis_buckets_def ms_clock_def ms_refill
        option.map option.case prod.case fst_conv snd_conv bucket.simps)
qed (simp add: level_def refilled_def bucket_at_def redis_buckets_def)


text \<open>A bucket idle for a minute is full: the expiry after 120 seconds forgets nothing.\<close>

lemma idle_bucket_full:
  assumes "0 < rate" and "rd_buckets b k = Some (tk, lst)" and "0 \<le> tk" and "lst + 60000 \<le> epoch_ms now"
  shows "level (ms_clock now) rate k (redis_buckets b) = of_int rate"
proof -
  have "of_int 60000 \<le> (of_int (max (epoch_ms now - lst) 0) :: rat)"
    unfolding of_int_le_iff using assms(4) by simp
  then have "60000 * (of_int rate / 60000) \<le> of_int (max (epoch_ms now - lst) 0) * (of_int rate / 60000 :: rat)"
    using assms(1) by (intro mult_right_mono) auto
  then have "of_int rate \<le> tk + of_int (max (epoch_ms now - lst) 0) * (of_int rate / 60000 :: rat)"
    using assms(3) by linarith
  then show ?thesis unfolding redis_level assms(2) option.case fst_conv snd_conv by (rule min_absorb1)
qed

subsection \<open>The number of leases\<close>

lemma acquire_fallback_answers:
  assumes "streak (rd_conflicts b) < n"
  shows "\<exists>b'. acquire_fallback n rk m now ttl tk b =
      (Inr (if m \<le> int (length (zremrange now (rd_leases b rk))) then 0 else 1), b') \<and>
    rd_leases b' rk = (if m \<le> int (length (zremrange now (rd_leases b rk))) then zremrange now (rd_leases b rk)
      else granted_at now ttl tk (rd_leases b rk))"
  using assms
proof (induction n arbitrary: b)
  case (Suc n)
  let ?b1 = "on_leases rk (zremrange now) b"
  have idem: "zremrange now (zremrange now z) = zremrange now z" for z by (simp add: zremrange_def)
  obtain q b2 where q: "next_conflict ?b1 = (q, b2)" by (cases "next_conflict ?b1")
  note f2 = next_conflict_eq [OF q]
  have cf: "rd_conflicts ?b1 = rd_conflicts b" by (simp add: on_leases_def)
  show ?case
  proof (cases "q \<and> \<not> m \<le> int (length (zremrange now (rd_leases b rk)))")
    case True
    with next_conflict_streak [OF q] Suc.prems cf have "streak (rd_conflicts b2) < n" by simp
    from Suc.IH [OF this] q True show ?thesis by (auto simp: f2 idem granted_at_def Let_def)
  next
    case False
    with q show ?thesis by (auto simp: f2 granted_at_def Let_def)
  qed
qed simp









lemma redis_try_acquire_answers:
  assumes "redis_answers b" and "0 < m" and "redis_try_acquire rc now key m b = (r, b')"
  shows "\<exists>tk. tk \<notin> fst ` set (rd_leases b (lease_key rc key)) \<and>
     (if m \<le> int (length (zremrange (epoch_ms now) (rd_leases b (lease_key rc key))))
      then r = Inr None \<and> rd_leases b' (lease_key rc key) = zremrange (epoch_ms now) (rd_leases b (lease_key rc key))
      else r = Inr (Some (Token_lease key tk)) \<and> rd_leases b' (lease_key rc key) =
        granted_at (epoch_ms now) (rc_lease_ttl_ms rc) tk (rd_leases b (lease_key rc key)))"
proof -
  let ?rk = "lease_key rc key" and ?now = "epoch_ms now"
  obtain tk b0 where tk: "new_token ?rk b = (tk, b0)" by (cases "new_token ?rk b")
  note fr = new_token_fresh [OF tk]
  obtain x b1 where x: "next_outcome b0 = (x, b1)" by (cases "next_outcome b0")
  note xf = next_outcome_eq [OF x]
  show ?thesis
  proof (cases x)
    case Works
    with assms tk x show ?thesis
      by (intro exI [of _ tk]) (auto simp: redis_try_acquire_def Let_def acquire_lua_def xf fr granted_at_def)
  next
    case (Raises msg)
    with x assms(1) have no: "no_eval msg" and st: "streak (rd_conflicts b1) < 5"
      using xf fr by (auto simp: redis_answers_def next_outcome_def split: list.splits)
    from acquire_fallback_answers [OF st, of ?rk m ?now "rc_lease_ttl_ms rc" tk] assms(2,3) tk x Raises no
    show ?thesis
      by (intro exI [of _ tk]) (auto simp: redis_try_acquire_def Let_def xf fr split: if_splits)
  qed
qed

subsection \<open>Properties\<close>

definition sample_conf :: redis_conf where
  "sample_conf = redis_conf_init '':fcam:'' ''key'' 40000 (\<lambda>d. (d + 500000) div 1000000)"

definition sample_redis :: redis where
  "sample_redis = \<lparr>rd_leases = (\<lambda>_. [])(''fcam:concurrency:key:7'' := [(''a'', 900), (''b'', 5000)]),
     rd_buckets = [''fcam:rate_limit:key:7'' \<mapsto> (1 / 2, 0)], rd_cooldowns = Map.empty,
     rd_issued = [''a'', ''b''], rd_orphans = [],
     rd_outcomes = [Raises ''ERR unknown command `EVAL`''], rd_conflicts = [True, False]\<rparr>"




text \<open>
  C32. A request for a lease of the Redis backend, when the server answers, on either path: with fewer
  unexpired leases than the limit it adds one under a token not in use, that runs out after the lease
  time; otherwise it is refused. Expired leases are dropped, other keys untouched.
\<close>

theorem redis_lease_granted_iff_free:
  assumes "redis_answers b" and "0 < m" and "redis_try_acquire rc now key m b = (r, b')"
  shows "\<exists>tk. tk \<notin> fst ` set (rd_leases b (lease_key rc key)) \<and>
    (let live = zremrange (epoch_ms now) (rd_leases b (lease_key rc key)) in
     if int (length live) < m
     then r = Inr (Some (Token_lease key tk)) \<and>
       rd_leases b' = (rd_leases b)(lease_key rc key := live @ [(tk, epoch_ms now + rc_lease_ttl_ms rc)])
     else r = Inr None \<and> rd_leases b' = (rd_leases b)(lease_key rc key := live))"
proof -
  let ?rk = "lease_key rc key"
  have others: "\<forall>k. k \<noteq> ?rk \<longrightarrow> rd_leases b' k = rd_leases b k"
    using redis_try_acquire_effect [OF assms(3,2)] by blast
  then have "rd_leases b' = (rd_leases b)(?rk := rd_leases b' ?rk)" by auto
  with redis_try_acquire_answers [OF assms] show ?thesis
    by (auto simp: Let_def not_le granted_at_def zadd_def fresh_filter split: if_splits)
qed

theorem redis_lease_granted_iff_free_witness:
  "\<exists>tk. tk \<notin> {''a'', ''b''} \<and> fst (redis_try_acquire sample_conf 1000000 ''7'' 2 sample_redis) =
     Inr (Some (Token_lease ''7'' tk))"
proof -
  have "redis_answers sample_redis" by code_simp
  moreover have "rd_leases sample_redis (lease_key sample_conf ''7'') = [(''a'', 900), (''b'', 5000)]" by code_simp
  ultimately show ?thesis
    using redis_lease_granted_iff_free [of sample_redis 2 sample_conf 1000000 "''7''", OF _ _ prod.collapse [symmetric]]
    by (auto simp: Let_def zremrange_def epoch_ms_def)
qed



end
