(* ===== verification/Civil.thy ===== *)
theory Civil
  imports Pystr
begin

text \<open>
  The part of Python's \<open>datetime\<close> the program uses on texts: the proleptic Gregorian calendar,
  \<open>datetime.isoformat\<close> of an instant in UTC, and \<open>datetime.fromisoformat\<close> of Python 3.11 (the
  interpreter of the \<open>Dockerfile\<close>) on the forms its documentation lists. A parsed text without an offset is naive: it is the instant it
  would be in UTC, with the flag \<open>False\<close>.
\<close>

subsection \<open>The calendar\<close>

definition leap :: "int \<Rightarrow> bool" where
  "leap y \<longleftrightarrow> y mod 4 = 0 \<and> (y mod 100 \<noteq> 0 \<or> y mod 400 = 0)"

definition month_lengths :: "int \<Rightarrow> int list" where
  "month_lengths y = [31, if leap y then 29 else 28, 31, 30, 31, 30, 31, 31, 30, 31, 30, 31]"

definition days_before_year :: "int \<Rightarrow> int" where
  "days_before_year y = (y - 1) * 365 + (y - 1) div 4 - (y - 1) div 100 + (y - 1) div 400"

definition days_before_month :: "int \<Rightarrow> int \<Rightarrow> int" where
  "days_before_month y m = sum_list (take (nat (m - 1)) (month_lengths y))"

text \<open>Days since the epoch of a date, and the date of such a day.\<close>

definition epoch_ordinal :: int where
  "epoch_ordinal = 719162"

definition day_of_date :: "int \<Rightarrow> int \<Rightarrow> int \<Rightarrow> date" where
  "day_of_date y m d = days_before_year y + days_before_month y m + (d - 1) - epoch_ordinal"

fun scan_month :: "int list \<Rightarrow> int \<Rightarrow> int \<Rightarrow> int \<times> int" where
  "scan_month [] m n = (m, n + 1)"
| "scan_month (l # ls) m n = (if n < l then (m, n + 1) else scan_month ls (m + 1) (n - l))"

text \<open>The year of a day and the day of the year, by whole cycles of 400, 100, 4 years and 1 year.\<close>

definition year_and_day :: "int \<Rightarrow> int \<times> int" where
  "year_and_day n =
     (let n400 = n div 146097; a = n mod 146097;
          n100 = a div 36524; b = a mod 36524;
          n4 = b div 1461; c = b mod 1461;
          n1 = c div 365; r = c mod 365;
          y = n400 * 400 + n100 * 100 + n4 * 4 + n1 + 1
      in if n1 = 4 \<or> n100 = 4 then (y - 1, 365) else (y, r))"

definition date_of_day :: "date \<Rightarrow> int \<times> int \<times> int" where
  "date_of_day day =
     (let (y, n) = year_and_day (day + epoch_ordinal); (m, d) = scan_month (month_lengths y) 1 n
      in (y, m, d))"

definition valid_date :: "int \<Rightarrow> int \<Rightarrow> int \<Rightarrow> bool" where
  "valid_date y m d \<longleftrightarrow> 1 \<le> y \<and> y \<le> 9999 \<and> 1 \<le> m \<and> m \<le> 12 \<and> 1 \<le> d \<and> d \<le> month_lengths y ! nat (m - 1)"

subsection \<open>Text of a date and an instant\<close>

definition pad :: "nat \<Rightarrow> int \<Rightarrow> string" where
  "pad w n = (let t = show_nat (nat n) in replicate (w - length t) (CHR ''0'') @ t)"

definition date_iso :: "date \<Rightarrow> string" where
  "date_iso day = (let (y, m, d) = date_of_day day in pad 4 y @ ''-'' @ pad 2 m @ ''-'' @ pad 2 d)"

definition time_iso :: "int \<Rightarrow> string" where
  "time_iso us =
     (let s = us div usec; f = us mod usec
      in pad 2 (s div 3600) @ '':'' @ pad 2 (s div 60 mod 60) @ '':'' @ pad 2 (s mod 60) @
         (if f = 0 then [] else CHR ''.'' # pad 6 f))"

text \<open>\<open>dt.astimezone(timezone.utc).isoformat().replace("+00:00", "Z")\<close>.\<close>

definition rfc3339 :: "instant \<Rightarrow> string" where
  "rfc3339 t = date_iso (t div day_usec) @ ''T'' @ time_iso (t mod day_usec) @ ''Z''"

subsection \<open>Reading\<close>

definition read_n :: "nat \<Rightarrow> string \<Rightarrow> (int \<times> string) option" where
  "read_n w s =
     (if length (take w s) = w \<and> list_all is_digit (take w s)
      then Some (int (read_digits (take w s)), drop w s) else None)"

definition eat :: "bool \<Rightarrow> char \<Rightarrow> string \<Rightarrow> string option" where
  "eat sep c s =
     (if sep then (case s of x # r \<Rightarrow> if x = c then Some r else None | [] \<Rightarrow> None)
      else (case s of x # r \<Rightarrow> if x = c then None else Some s | [] \<Rightarrow> Some s))"

text \<open>\<open>date.fromisocalendar\<close>: the Monday of the week with the year's first Thursday is day one.\<close>

definition iso_week_day :: "int \<Rightarrow> int \<Rightarrow> int \<Rightarrow> date option" where
  "iso_week_day y w d =
     (let jan1 = day_of_date y 1 1;
          first = (jan1 + 3) mod 7;
          monday = (if 3 < first then jan1 - first + 7 else jan1 - first);
          long = (first = 3 \<or> (first = 2 \<and> leap y))
      in if 1 \<le> y \<and> y \<le> 9999 \<and> 1 \<le> w \<and> (w \<le> 52 \<or> (w = 53 \<and> long)) \<and> 1 \<le> d \<and> d \<le> 7
         then Some (monday + (w - 1) * 7 + (d - 1)) else None)"

definition parse_iso_date :: "string \<Rightarrow> date option" where
  "parse_iso_date s =
     (case read_n 4 s of
        None \<Rightarrow> None
      | Some (y, r) \<Rightarrow>
          (let sep = (take 1 r = ''-''); r1 = (if sep then drop 1 r else r)
           in if take 1 r1 = ''W'' then
                (case read_n 2 (drop 1 r1) of
                   None \<Rightarrow> None
                 | Some (w, r2) \<Rightarrow>
                     if r2 = [] then iso_week_day y w 1
                     else
                       (case eat sep (CHR ''-'') r2 of
                          None \<Rightarrow> None
                        | Some r3 \<Rightarrow>
                            (case read_n 1 r3 of
                               Some (d, []) \<Rightarrow> iso_week_day y w d
                             | _ \<Rightarrow> None)))
              else
                (case read_n 2 r1 of
                   None \<Rightarrow> None
                 | Some (m, r2) \<Rightarrow>
                     (case eat sep (CHR ''-'') r2 of
                        None \<Rightarrow> None
                      | Some r3 \<Rightarrow>
                          (case read_n 2 r3 of
                             Some (d, []) \<Rightarrow> if valid_date y m d then Some (day_of_date y m d) else None
                           | _ \<Rightarrow> None)))))"

text \<open>Where the date ends: at 7, 8 or 10 characters, depending on its form.\<close>

definition date_length :: "string \<Rightarrow> nat option" where
  "date_length s =
     (let n = length s in
      if n < 7 then None
      else if n = 7 then Some 7
      else if s ! 4 = CHR ''-'' then
        (if s ! 5 = CHR ''W'' then
           (if 8 < n \<and> s ! 8 = CHR ''-'' then
              (if n = 9 then None else if 10 < n \<and> is_digit (s ! 10) then Some 8 else Some 10)
            else Some 8)
         else Some 10)
      else if s ! 4 = CHR ''W'' then
        (let idx = 7 + length (takeWhile is_digit (drop 7 s))
         in if idx < 9 then Some idx else if even idx then Some 7 else Some 8)
      else Some 8)"

text \<open>\<open>HH[:MM[:SS[.f]]]\<close> with or without the colons, in microseconds; the range of each part is not checked.\<close>

definition read_fraction :: "string \<Rightarrow> int option" where
  "read_fraction s =
     (if s = [] \<or> \<not> list_all is_digit s then None
      else (let t = take 6 s in Some (int (read_digits t) * 10 ^ (6 - length t))))"

definition read_time :: "string \<Rightarrow> (int \<times> int \<times> int \<times> int) option" where
  "read_time s =
     (case read_n 2 s of
        None \<Rightarrow> None
      | Some (h, []) \<Rightarrow> Some (h, 0, 0, 0)
      | Some (h, r) \<Rightarrow>
          (let sep = (take 1 r = '':'') in
           case read_n 2 (if sep then drop 1 r else r) of
             None \<Rightarrow> None
           | Some (m, []) \<Rightarrow> Some (h, m, 0, 0)
           | Some (m, r1) \<Rightarrow>
               if sep \<and> take 1 r1 \<noteq> '':'' then None
               else
                 (case read_n 2 (if sep then drop 1 r1 else r1) of
                    None \<Rightarrow> None
                  | Some (sec, []) \<Rightarrow> Some (h, m, sec, 0)
                  | Some (sec, c # r2) \<Rightarrow>
                      if c = CHR ''.'' \<or> c = CHR '','' then
                        map_option (\<lambda>f. (h, m, sec, f)) (read_fraction r2)
                      else None)))"

definition clock_usec :: "int \<times> int \<times> int \<times> int \<Rightarrow> int" where
  "clock_usec x = (case x of (h, m, s, f) \<Rightarrow> ((h * 60 + m) * 60 + s) * usec + f)"

definition valid_clock :: "int \<times> int \<times> int \<times> int \<Rightarrow> bool" where
  "valid_clock x \<longleftrightarrow> (case x of (h, m, s, f) \<Rightarrow> h < 24 \<and> m < 60 \<and> s < 60)"

definition zone_char :: "char \<Rightarrow> bool" where
  "zone_char c \<longleftrightarrow> c = CHR ''-'' \<or> c = CHR ''+'' \<or> c = CHR ''Z''"

text \<open>The time of day and, when the text has one, the offset, both in microseconds.\<close>

definition parse_iso_time :: "string \<Rightarrow> (int \<times> int option) option" where
  "parse_iso_time s =
     (let clock = takeWhile (\<lambda>c. \<not> zone_char c) s; rest = dropWhile (\<lambda>c. \<not> zone_char c) s
      in case read_time clock of
           None \<Rightarrow> None
         | Some x \<Rightarrow>
             if \<not> valid_clock x then None
             else
               (case rest of
                  [] \<Rightarrow> Some (clock_usec x, None)
                | c # z \<Rightarrow>
                    if c = CHR ''Z'' then (if z = [] then Some (clock_usec x, Some 0) else None)
                    else
                      (case read_time z of
                         None \<Rightarrow> None
                       | Some o' \<Rightarrow>
                           if clock_usec o' < day_usec
                           then Some (clock_usec x, Some (if c = CHR ''-'' then - clock_usec o' else clock_usec o'))
                           else None)))"

text \<open>\<open>datetime.fromisoformat\<close>: the instant and whether the text had an offset; \<open>None\<close> is a \<open>ValueError\<close>.\<close>

definition fromisoformat :: "string \<Rightarrow> (instant \<times> bool) option" where
  "fromisoformat s =
     (case date_length s of
        None \<Rightarrow> None
      | Some n \<Rightarrow>
          (case parse_iso_date (take n s) of
             None \<Rightarrow> None
           | Some day \<Rightarrow>
               (case drop (n + 1) s of
                  [] \<Rightarrow> Some (day * day_usec, False)
                | t \<Rightarrow>
                    (case parse_iso_time t of
                       None \<Rightarrow> None
                     | Some (us, None) \<Rightarrow> Some (day * day_usec + us, False)
                     | Some (us, Some off) \<Rightarrow> Some (day * day_usec + us - off, True)))))"

subsection \<open>What is written is read back\<close>

lemma div_of: "0 \<le> e \<Longrightarrow> e < k \<Longrightarrow> z = k * q + e \<Longrightarrow> z div k = q" for z k q e :: int
  by simp

lemma mod_of: "0 \<le> e \<Longrightarrow> e < k \<Longrightarrow> z = k * q + e \<Longrightarrow> z mod k = e" for z k q e :: int
  by simp

lemma year_and_day:
  assumes "year_and_day n = (y, r)" and "0 \<le> n"
  shows "days_before_year y + r = n" "0 \<le> r" "r < (if leap y then 366 else 365)" "1 \<le> y"
    "n < 3652059 \<Longrightarrow> y \<le> 9999"
proof -
  define a r1 where "a = n div 146097" and "r1 = n mod 146097"
  define b r2 where "b = r1 div 36524" and "r2 = r1 mod 36524"
  define c r3 where "c = r2 div 1461" and "r3 = r2 mod 1461"
  define d x where "d = r3 div 365" and "x = r3 mod 365"
  note defs = a_def r1_def b_def r2_def c_def r3_def d_def x_def
  have splits: "n = 146097 * a + r1" "r1 = 36524 * b + r2" "r2 = 1461 * c + r3" "r3 = 365 * d + x"
    unfolding defs by simp_all
  have rem: "0 \<le> r1" "r1 < 146097" "0 \<le> r2" "r2 < 36524" "0 \<le> r3" "r3 < 1461" "0 \<le> x" "x < 365"
    unfolding defs by simp_all
  have pos: "0 \<le> a" "0 \<le> b" "0 \<le> c" "0 \<le> d"
    unfolding a_def b_def c_def d_def using assms(2) rem by (simp_all add: pos_imp_zdiv_nonneg_iff)
  have n: "n = 146097 * a + 36524 * b + 1461 * c + 365 * d + x" using splits by simp
  have hi: "b \<le> 4" "c \<le> 24" "d \<le> 4" using splits rem pos by linarith+
  note bounds = pos rem(7,8) hi
  have b4: "b = 4 \<longrightarrow> c = 0 \<and> d = 0 \<and> x = 0"
  proof
    assume "b = 4"
    then have "r2 = 0" using splits rem by linarith
    then show "c = 0 \<and> d = 0 \<and> x = 0" by (simp add: c_def r3_def d_def x_def)
  qed
  have d4: "d = 4 \<longrightarrow> x = 0 \<and> c \<le> 23" using splits rem pos by linarith
  have y: "(if d = 4 \<or> b = 4 then (a * 400 + b * 100 + c * 4 + d + 1 - 1, 365)
      else (a * 400 + b * 100 + c * 4 + d + 1, x)) = (y, r)"
    using assms(1) unfolding year_and_day_def defs Let_def .
  have div: "z div 4 = 100 * a + 25 * b + c" "z div 100 = 4 * a + b" "z div 400 = a"
    if "z = 400 * a + 100 * b + 4 * c + e" "0 \<le> e" "e \<le> 3" "b \<le> 3" for z e
  proof -
    have "z = 4 * (100 * a + 25 * b + c) + e" "z = 100 * (4 * a + b) + (4 * c + e)"
      "z = 400 * a + (100 * b + 4 * c + e)" using that(1) by simp_all
    note z = this
    have "4 * c + e < 100" "100 * b + 4 * c + e < 400" "e < 4" "0 \<le> 4 * c + e" "0 \<le> 100 * b + 4 * c + e"
      using that(2-) bounds by linarith+
    then show "z div 4 = 100 * a + 25 * b + c" "z div 100 = 4 * a + b" "z div 400 = a"
      using that(2) by (simp_all only: div_of [OF _ _ z(1)] div_of [OF _ _ z(2)] div_of [OF _ _ z(3)])
  qed
  consider (year) "b \<noteq> 4" "d \<noteq> 4" | (long) "b = 4" | (leap) "b \<noteq> 4" "d = 4" by blast
  then have "days_before_year y + r = n \<and> 0 \<le> r \<and> r < (if leap y then 366 else 365) \<and> 1 \<le> y \<and>
      (n < 3652059 \<longrightarrow> y \<le> 9999)"
  proof cases
    case year
    then have yr: "y = a * 400 + b * 100 + c * 4 + d + 1" "r = x" using y by simp_all
    have lim: "d \<le> 3" "b \<le> 3" using year bounds by auto
    have "y - 1 = 400 * a + 100 * b + 4 * c + d" using yr by simp
    note dv = div [OF this bounds(4) lim]
    have "days_before_year y + r = n" unfolding days_before_year_def dv unfolding yr n by (simp add: algebra_simps)
    moreover have "n < 3652059 \<longrightarrow> y \<le> 9999"
    proof (rule impI, rule ccontr)
      assume lt: "n < 3652059" and "\<not> y \<le> 9999"
      then have big: "9999 \<le> 400 * a + 100 * b + 4 * c + d" using yr(1) by simp
      have "24 \<le> a" "a \<le> 24" using big lt n lim bounds by linarith+
      then have a: "a = 24" by simp
      have b: "b = 3" using big lim bounds unfolding a by linarith
      have c: "c = 24" using big lim bounds unfolding a b by linarith
      show False using big lt n bounds unfolding a b c by linarith
    qed
    ultimately show ?thesis using yr bounds by auto
  next
    case long
    then have yr: "y = a * 400 + 400" "r = 365" and z: "c = 0" "d = 0" "x = 0"
      using y b4 by simp_all
    have dv: "(y - 1) div 4 = 100 * a + 99" "(y - 1) div 100 = 4 * a + 3" "(y - 1) div 400 = a"
      unfolding yr(1) by (rule div_of [of 3] div_of [of 99] div_of [of 399]; simp)+
    have "days_before_year y + r = n" unfolding days_before_year_def dv unfolding yr n long z by simp
    moreover have "y = 400 * (a + 1)" "y = 4 * (100 * (a + 1))" using yr by simp_all
    then have "y mod 400 = 0" "y mod 4 = 0" by (metis mod_mult_self1_is_0)+
    then have "leap y" by (simp add: leap_def)
    moreover have "n < 3652059 \<longrightarrow> y \<le> 9999" using n long unfolding yr(1) z by linarith
    ultimately show ?thesis using yr bounds by simp
  next
    case leap
    then have yr: "y = a * 400 + b * 100 + c * 4 + 4" "r = 365" and z: "x = 0" "c \<le> 23"
      using y d4 by simp_all
    have b3: "b \<le> 3" using leap bounds by auto
    have "y - 1 = 400 * a + 100 * b + 4 * c + 3" using yr by simp
    then have dv: "(y - 1) div 4 = 100 * a + 25 * b + c" "(y - 1) div 100 = 4 * a + b" "(y - 1) div 400 = a"
      by (rule div; use b3 in simp)+
    have "days_before_year y + r = n" unfolding days_before_year_def dv unfolding yr n leap z by simp
    moreover have "leap y"
    proof -
      have "y = 100 * (4 * a + b) + (4 * c + 4)" using yr by simp
      then have "y mod 100 = 4 * c + 4" by (rule mod_of [rotated 2]) (use z bounds in simp_all)
      moreover have "y = 4 * (a * 100 + b * 25 + c + 1)" using yr by simp
      then have "y mod 4 = 0" by (metis mod_mult_self1_is_0)
      ultimately show ?thesis using bounds by (simp add: leap_def)
    qed
    moreover have "n < 3652059 \<longrightarrow> y \<le> 9999" using n bounds b3 leap z unfolding yr(1) by linarith
    ultimately show ?thesis using yr bounds by simp
  qed
  then show "days_before_year y + r = n" "0 \<le> r" "r < (if leap y then 366 else 365)" "1 \<le> y"
    "n < 3652059 \<Longrightarrow> y \<le> 9999" by auto
qed

lemma scan_month:
  assumes "scan_month ls k n = (m, d)" and "0 \<le> n" and "n < sum_list ls"
  shows "k \<le> m \<and> m < k + int (length ls) \<and> 1 \<le> d \<and> d \<le> ls ! nat (m - k) \<and>
    sum_list (take (nat (m - k)) ls) + (d - 1) = n"
  using assms
proof (induction ls arbitrary: k n)
  case (Cons l ls)
  show ?case
  proof (cases "n < l")
    case False
    with Cons have *: "k + 1 \<le> m \<and> m < k + 1 + int (length ls) \<and> 1 \<le> d \<and> d \<le> ls ! nat (m - (k + 1)) \<and>
        sum_list (take (nat (m - (k + 1))) ls) + (d - 1) = n - l"
      by simp
    from * have "nat (m - k) = Suc (nat (m - (k + 1)))" by linarith
    with * show ?thesis by simp
  qed (use Cons.prems in auto)
qed simp

lemma date_of_day:
  assumes "date_of_day day = (y, m, d)" and "0 \<le> day + epoch_ordinal" and "day + epoch_ordinal < 3652059"
  shows "valid_date y m d" and "day_of_date y m d = day"
proof -
  obtain r where yr: "year_and_day (day + epoch_ordinal) = (y, r)" and md: "scan_month (month_lengths y) 1 r = (m, d)"
    using assms(1) by (auto simp: date_of_day_def split: prod.splits)
  note Y = year_and_day [OF yr assms(2)]
  have "r < sum_list (month_lengths y)" using Y(3) by (simp add: month_lengths_def split: if_splits)
  from scan_month [OF md Y(2) this] Y assms(3)
  show "valid_date y m d" "day_of_date y m d = day"
    by (auto simp: valid_date_def day_of_date_def days_before_month_def month_lengths_def)
qed

lemma read_digits_zeros: "read_digits (replicate k (CHR ''0'') @ s) = read_digits s"
  by (induction k) (simp_all add: read_digits_def digit_val_def)

lemma show_nat_length: "n < 10 ^ w \<Longrightarrow> 0 < w \<Longrightarrow> length (show_nat n) \<le> w"
proof (induction n arbitrary: w rule: show_nat.induct)
  case (1 n)
  show ?case
  proof (cases "n < 10")
    case True
    with 1 show ?thesis by (subst show_nat.simps) simp
  next
    case False
    obtain v where w: "w = Suc v" using \<open>0 < w\<close> by (cases w) auto
    with False 1 have "n div 10 < 10 ^ v" "0 < v" by (auto simp: less_mult_imp_div_less) (cases v; simp)
    with 1(1) False w show ?thesis by (subst show_nat.simps) simp
  qed
qed

lemma pad_reads:
  assumes "0 \<le> n" and "n < 10 ^ w" and "0 < w"
  shows "length (pad w n) = w" "list_all is_digit (pad w n)" "read_digits (pad w n) = nat n"
proof -
  have "nat n < 10 ^ w" using assms(1,2) by (simp add: nat_less_iff)
  from show_nat_length [OF this assms(3)] show "length (pad w n) = w" by (simp add: pad_def Let_def)
  have "is_digit (CHR ''0'')" by (simp add: is_digit_def)
  then show "list_all is_digit (pad w n)"
    using show_nat_digits [of "nat n"] by (auto simp: pad_def Let_def list_all_iff)
  show "read_digits (pad w n) = nat n" by (simp add: pad_def Let_def read_digits_zeros read_show_nat)
qed

lemma read_n_pad: "0 \<le> n \<Longrightarrow> n < 10 ^ w \<Longrightarrow> 0 < w \<Longrightarrow> read_n w (pad w n @ r) = Some (n, r)"
  by (simp add: read_n_def pad_reads)

lemma parse_date_iso:
  assumes "0 \<le> day + epoch_ordinal" and "day + epoch_ordinal < 3652059"
  shows "parse_iso_date (date_iso day) = Some day" and "length (date_iso day) = 10"
    and "date_length (date_iso day @ CHR ''T'' # t) = Some 10"
proof -
  obtain y m d where D: "date_of_day day = (y, m, d)" by (cases "date_of_day day")
  note V = date_of_day [OF D assms]
  have "month_lengths y ! i \<le> 31" if "i < 12" for i
    using that by (auto simp: month_lengths_def less_Suc_eq numeral_eq_Suc)
  from this [of "nat (m - 1)"] V(1) have R: "0 \<le> y" "y < 10 ^ 4" "0 \<le> m" "m < 10 ^ 2" "0 \<le> d" "d < 10 ^ 2"
    by (auto simp: valid_date_def nat_less_iff)
  have i: "date_iso day = pad 4 y @ CHR ''-'' # pad 2 m @ CHR ''-'' # pad 2 d"
    by (simp add: date_iso_def D)
  have L: "length (pad 4 y) = 4" "length (pad 2 m) = 2" "length (pad 2 d) = 2" using R by (simp_all add: pad_reads)
  then obtain m1 m2 where pm: "pad 2 m = [m1, m2]" by (auto simp: numeral_2_eq_2 length_Suc_conv)
  have "is_digit m1" using pad_reads(2) [of m 2] R pm by simp
  then have m1: "m1 \<noteq> CHR ''W''" by (auto simp: is_digit_def)
  have rd: "read_n 2 (pad 2 d) = Some (d, [])" using read_n_pad [of d 2 "[]"] R by simp
  have rm: "read_n 2 (m1 # m2 # r) = Some (m, r)" for r using read_n_pad [of m 2 r] R pm by simp
  show "parse_iso_date (date_iso day) = Some day"
    unfolding i parse_iso_date_def pm
    using V R m1 by (simp add: read_n_pad rm rd eat_def)
  show len: "length (date_iso day) = 10" using L by (simp add: i)
  have "(date_iso day @ CHR ''T'' # t) ! 4 = CHR ''-''" "(date_iso day @ CHR ''T'' # t) ! 5 = m1"
    using L by (simp_all add: i nth_append pm)
  then show "date_length (date_iso day @ CHR ''T'' # t) = Some 10"
    using len m1 by (simp add: date_length_def)
qed

lemma pad2: "0 \<le> n \<Longrightarrow> n < 100 \<Longrightarrow> \<exists>a b. pad 2 n = [a, b] \<and> is_digit a \<and> is_digit b"
  using pad_reads [of n 2] by (cases "pad 2 n") (auto simp: length_Suc_conv numeral_2_eq_2)

lemma parse_time_iso:
  assumes "0 \<le> us" and "us < day_usec"
    and "z = ''Z'' \<or> z = ''+00:00''"
  shows "parse_iso_time (time_iso us @ z) = Some (us, Some 0)"
proof -
  define s f where "s = us div usec" and "f = us mod usec"
  have us: "us = s * usec + f" and f: "0 \<le> f" "f < usec" unfolding s_def f_def by simp_all
  have s: "0 \<le> s" "s < 86400"
    using assms(1) by (simp add: s_def pos_imp_zdiv_nonneg_iff) (use assms(2) us f in linarith)
  have cut: "s = 3600 * (s div 3600) + s mod 3600" "0 \<le> s mod 3600" by simp_all
  have R: "0 \<le> s div 3600" "s div 3600 < 24" "0 \<le> s div 60 mod 60" "s div 60 mod 60 < 60"
      "0 \<le> s mod 60" "s mod 60 < 60"
    using s(1) by (simp_all add: pos_imp_zdiv_nonneg_iff) (use s(2) cut in linarith)
  have "s div 3600 = s div 60 div 60" using zdiv_zmult2_eq [of 60 s 60] by simp
  then have "s div 60 = s div 3600 * 60 + s div 60 mod 60" by (metis div_mult_mod_eq)
  then have hms: "((s div 3600 * 60 + s div 60 mod 60) * 60 + s mod 60) = s" by (metis div_mult_mod_eq)
  have nz: "\<not> zone_char c" if "is_digit c" for c using that by (auto simp: zone_char_def is_digit_def)
  obtain h1 h2 where H: "pad 2 (s div 3600) = [h1, h2]" "is_digit h1" "is_digit h2" using pad2 [of "s div 3600"] R by auto
  obtain m1 m2 where M: "pad 2 (s div 60 mod 60) = [m1, m2]" "is_digit m1" "is_digit m2" using pad2 [of "s div 60 mod 60"] R by auto
  obtain s1 s2 where S: "pad 2 (s mod 60) = [s1, s2]" "is_digit s1" "is_digit s2" using pad2 [of "s mod 60"] R by auto
  have rd: "read_n 2 (h1 # h2 # r) = Some (s div 3600, r)" "read_n 2 (m1 # m2 # r) = Some (s div 60 mod 60, r)"
    "read_n 2 (s1 # s2 # r) = Some (s mod 60, r)" for r
    using read_n_pad [of "s div 3600" 2 r] read_n_pad [of "s div 60 mod 60" 2 r] read_n_pad [of "s mod 60" 2 r] R H M S by simp_all
  define frac where "frac = (if f = 0 then [] else CHR ''.'' # pad 6 f)"
  have F: "length (pad 6 f) = 6" "list_all is_digit (pad 6 f)" "read_digits (pad 6 f) = nat f"
    using pad_reads [of f 6] f by simp_all
  have t: "time_iso us = [h1, h2] @ '':'' @ [m1, m2] @ '':'' @ [s1, s2] @ frac"
    by (simp add: time_iso_def Let_def H M S frac_def flip: s_def f_def)
  have ok: "\<forall>c \<in> set (time_iso us). \<not> zone_char c"
    using H M S F(2) unfolding t by (auto simp: frac_def list_all_iff nz) (auto simp: zone_char_def)
  have tw: "takeWhile (\<lambda>c. \<not> zone_char c) (time_iso us @ z) = time_iso us"
    "dropWhile (\<lambda>c. \<not> zone_char c) (time_iso us @ z) = z"
  proof -
    have "takeWhile (\<lambda>c. \<not> zone_char c) z = []" "dropWhile (\<lambda>c. \<not> zone_char c) z = z"
      using assms(3) by (auto simp: zone_char_def)
    then show "takeWhile (\<lambda>c. \<not> zone_char c) (time_iso us @ z) = time_iso us"
      "dropWhile (\<lambda>c. \<not> zone_char c) (time_iso us @ z) = z"
      using ok by (simp_all add: takeWhile_append2 dropWhile_append2)
  qed
  have z0: "read_time ''00:00'' = Some (0, 0, 0, 0)" by code_simp
  have fr: "read_fraction (pad 6 f) = Some f" using F f by (auto simp: read_fraction_def Let_def)
  have rt: "read_time (time_iso us) = Some (s div 3600, s div 60 mod 60, s mod 60, f)"
    unfolding t by (auto simp: read_time_def rd frac_def fr Let_def)
  have "clock_usec (s div 3600, s div 60 mod 60, s mod 60, f) = us"
    by (simp only: clock_usec_def prod.case hms us)
  moreover have "valid_clock (s div 3600, s div 60 mod 60, s mod 60, f)" using R by (simp add: valid_clock_def)
  ultimately show ?thesis
    using assms(3) by (auto simp: parse_iso_time_def tw rt Let_def z0 clock_usec_def)
qed

text \<open>The instants Python's \<open>datetime\<close> can hold in UTC.\<close>

definition datetime_range :: "instant \<Rightarrow> bool" where
  "datetime_range t \<longleftrightarrow> 0 \<le> t div day_usec + epoch_ordinal \<and> t div day_usec + epoch_ordinal < 3652059"

lemma fromisoformat_iso:
  assumes "datetime_range t" and z: "z = ''Z'' \<or> z = ''+00:00''"
  shows "fromisoformat (date_iso (t div day_usec) @ ''T'' @ time_iso (t mod day_usec) @ z) = Some (t, True)"
proof -
  let ?d = "t div day_usec" and ?u = "t mod day_usec"
  let ?s = "date_iso ?d @ ''T'' @ time_iso ?u @ z"
  note D = parse_date_iso [OF assms(1) [unfolded datetime_range_def, THEN conjunct1]
      assms(1) [unfolded datetime_range_def, THEN conjunct2]]
  have u: "0 \<le> ?u" "?u < day_usec" by simp_all
  have tk: "take 10 ?s = date_iso ?d" "drop 11 ?s = time_iso ?u @ z" by (simp_all add: D(2))
  obtain c cs where cs: "time_iso ?u @ z = c # cs" using z by (cases "time_iso ?u @ z") auto
  have dl: "date_length ?s = Some 10" using D(3) by simp
  have pt: "parse_iso_time (c # cs) = Some (?u, Some 0)" using parse_time_iso [OF u z] cs by simp
  show ?thesis unfolding fromisoformat_def dl by (simp add: tk [simplified] D(1) D(2) cs pt)
qed

lemma fromisoformat_rfc3339: "datetime_range t \<Longrightarrow> fromisoformat (rfc3339 t) = Some (t, True)"
  using fromisoformat_iso [of t "''Z''"] by (simp add: rfc3339_def)

end
