(* ===== verification/Admin_Common.thy ===== *)
theory Admin_Common
  imports Key_Test Governance Civil
begin

text \<open>
  What the handlers of \<open>app/api/control_plane.py\<close> share: the audit trail, the JSON items of keys and
  clients, and the shape \<open>try: ... db.commit() ... except: db.rollback(); raise\<close> all of them end with.
\<close>

subsection \<open>Transactions\<close>

text \<open>
  The body of a \<open>try\<close> block over the database: a list of steps, each of which may raise; the handler of
  the exception rolls back.
\<close>

type_synonym 'b db_op = "'b app \<Rightarrow> db_exc option \<times> 'b app"

fun attempt :: "'b db_op list \<Rightarrow> 'b app \<Rightarrow> db_exc option \<times> 'b app" where
  "attempt [] s = (None, s)"
| "attempt (f # fs) s =
     (case f s of
        (None, s1) \<Rightarrow> attempt fs s1
      | (Some exc, s1) \<Rightarrow> (Some exc, s1\<lparr>sess := rollback (sess s1)\<rparr>))"

definition op_do :: "('b app \<Rightarrow> 'b app) \<Rightarrow> 'b db_op" where
  "op_do f s = (None, f s)"

text \<open>\<open>db.flush()\<close> sends the pending rows, \<open>db.commit()\<close> makes them permanent, \<open>db.refresh(row)\<close> reads.\<close>

definition op_read :: "'b db_op" where
  "op_read s =
     (let (f, ss) = next_fault (sess s) in (if f then Some Db_error else None, s\<lparr>sess := ss\<rparr>))"

definition op_flush :: "'b db_op" where
  "op_flush s =
     (case op_read s of
        (None, s1) \<Rightarrow> (if unique_ok (cur (sess s1)) then None else Some Integrity_error, s1)
      | r \<Rightarrow> r)"

definition op_commit :: "'b db_op" where
  "op_commit s = (let (r, ss) = commit (sess s) in (r, s\<lparr>sess := ss\<rparr>))"

definition db_failure :: "fcam_error \<Rightarrow> db_exc \<Rightarrow> fcam_error" where
  "db_failure integrity exc = (case exc of Integrity_error \<Rightarrow> integrity | Db_error \<Rightarrow> db_unavailable)"

text \<open>A query inside a \<open>try\<close> whose handler only raises.\<close>

definition db_query :: "('b app \<Rightarrow> 'a) \<Rightarrow> 'b app \<Rightarrow> (fcam_error + 'a) \<times> 'b app" where
  "db_query q s =
     (case op_read s of (None, s1) \<Rightarrow> (Inr (q s1), s1) | (Some _, s1) \<Rightarrow> (Inl db_unavailable, s1))"

definition not_found :: fcam_error where
  "not_found = fcam 404 ''NOT_FOUND'' ''Not found''"

definition master_key_missing :: fcam_error where
  "master_key_missing = fcam 503 ''NOT_READY'' ''Master key not configured''"

definition validation_error :: "string \<Rightarrow> fcam_error" where
  "validation_error msg = fcam 400 ''VALIDATION_ERROR'' msg"

definition admin_limit :: "int \<Rightarrow> fcam_error + int" where
  "admin_limit n =
     (if n \<le> 0 then Inl (validation_error ''limit must be positive'')
      else if 200 < n then Inl (validation_error ''limit too large'')
      else Inr n)"

subsection \<open>The audit trail\<close>

text \<open>What \<open>_audit\<close> and the handlers read of the request.\<close>

record admin_request =
  ar_ip :: "string option"
  ar_user_agent :: "string option"
  ar_request_id :: string

definition on_tables :: "(tables \<Rightarrow> tables) \<Rightarrow> 'b app \<Rightarrow> 'b app" where
  "on_tables f s = s\<lparr>sess := (sess s)\<lparr>cur := f (cur (sess s))\<rparr>\<rparr>"

definition audit :: "admin_request \<Rightarrow> string \<Rightarrow> string \<Rightarrow> string \<Rightarrow> 'b app \<Rightarrow> 'b app" where
  "audit ar action resource_type resource_id s =
     on_tables (\<lambda>t. t\<lparr>t_audit := t_audit t @
       [\<lparr>a_id = fresh_id (map a_id (t_audit t)), a_actor_type = ''admin'', a_actor_id = Some ''admin'',
         a_action = action, a_resource_type = Some resource_type, a_resource_id = Some resource_id,
         a_ip = ar_ip ar, a_user_agent = ar_user_agent ar, a_created_at = wall s\<rparr>]\<rparr>) s"

definition key_audit :: "admin_request \<Rightarrow> string \<Rightarrow> api_key \<Rightarrow> 'b app \<Rightarrow> 'b app" where
  "key_audit ar action k = audit ar action (''api_key:'' @ k_provider k) (show_int (k_id k))"

definition client_audit :: "admin_request \<Rightarrow> string \<Rightarrow> int \<Rightarrow> 'b app \<Rightarrow> 'b app" where
  "client_audit ar action cid = audit ar action ''client'' (show_int cid)"

subsection \<open>Items\<close>

fun status_text :: "key_status \<Rightarrow> string" where
  "status_text Active = ''active''"
| "status_text Cooling = ''cooling''"
| "status_text Failed = ''failed''"
| "status_text Quota_exceeded = ''quota_exceeded''"
| "status_text Disabled = ''disabled''"
| "status_text Decrypt_failed = ''decrypt_failed''"

fun client_status_text :: "client_status \<Rightarrow> string" where
  "client_status_text Cl_active = ''active''"
| "client_status_text Cl_disabled = ''disabled''"
| "client_status_text Cl_deleted = ''deleted''"

definition dt_to_rfc3339 :: "instant option \<Rightarrow> json" where
  "dt_to_rfc3339 dt = str_opt (map_option rfc3339 dt)"

definition date_to_iso :: "date option \<Rightarrow> json" where
  "date_to_iso d = str_opt (map_option date_iso d)"

text \<open>The first successful snapshot of a key, by time (rows of one time in the order of the table).\<close>

definition first_snapshot :: "int \<Rightarrow> tables \<Rightarrow> credit_snapshot option" where
  "first_snapshot kid t =
     (case sort_key cs_snapshot_at (filter (\<lambda>c. cs_api_key_id c = kid \<and> cs_fetch_success c) (t_snapshots t)) of
        [] \<Rightarrow> None | c # _ \<Rightarrow> Some c)"

text \<open>
  \<open>_key_item\<close> looks for the first snapshot in a session of its own, that is in the committed rows; an
  exception there leaves the total at \<open>None\<close>.
\<close>

definition cached_total :: "api_key \<Rightarrow> 'b app \<Rightarrow> int option \<times> 'b app" where
  "cached_total k s =
     (case op_read s of
        (None, s1) \<Rightarrow>
          (case first_snapshot (k_id k) (db (sess s1)) of
             Some c \<Rightarrow> (Some (cs_remaining c), s1)
           | None \<Rightarrow> (k_cached_remaining k, s1))
      | (Some _, s1) \<Rightarrow> (None, s1))"

definition key_fields :: "api_key \<Rightarrow> int \<Rightarrow> int option \<Rightarrow> (string \<times> json) list" where
  "key_fields k current_concurrent tot =
     [(''id'', JInt (k_id k)),
      (''client_id'', int_opt (k_client_id k)),
      (''name'', str_opt (k_name k)),
      (''api_key_masked'', JStr (mask_api_key_last4 (k_last4 k))),
      (''account_username'', str_opt (k_account_username k)),
      (''account_verified_at'', dt_to_rfc3339 (k_account_verified_at k)),
      (''plan_type'', JStr (k_plan_type k)),
      (''is_active'', JBool (k_is_active k)),
      (''status'', JStr (status_text (k_status k))),
      (''daily_quota'', int_opt (k_daily_quota k)),
      (''daily_usage'', JInt (k_daily_usage k)),
      (''quota_reset_at'', date_to_iso (k_quota_reset_at k)),
      (''max_concurrent'', JInt (k_max_concurrent k)),
      (''current_concurrent'', JInt current_concurrent),
      (''rate_limit_per_min'', JInt (k_rate_limit_per_min k)),
      (''cooldown_until'', dt_to_rfc3339 (k_cooldown_until k)),
      (''total_requests'', JInt (k_total_requests k)),
      (''last_used_at'', dt_to_rfc3339 (k_last_used_at k)),
      (''created_at'', dt_to_rfc3339 (Some (k_created_at k))),
      (''last_credit_snapshot_id'', int_opt (k_last_credit_snapshot_id k)),
      (''last_credit_check_at'', dt_to_rfc3339 (k_last_credit_check_at k)),
      (''cached_remaining_credits'', int_opt (k_cached_remaining k)),
      (''cached_plan_credits'', int_opt (k_cached_plan k)),
      (''cached_total_credits'', int_opt tot),
      (''next_refresh_at'', dt_to_rfc3339 (k_next_refresh_at k)),
      (''provider'', JStr (k_provider k))]"

definition key_item :: "'b backend \<Rightarrow> api_key \<Rightarrow> 'b app \<Rightarrow> (string \<times> json) list \<times> 'b app" where
  "key_item ops k s =
     (let (n, b) = be_current ops (clk_of s) (show_int (k_id k)) (kback s);
          (tot, s2) = cached_total k (s\<lparr>kback := b\<rparr>)
      in (key_fields k n tot, s2))"

definition client_item :: "client \<Rightarrow> json" where
  "client_item c = JObj
     [(''id'', JInt (c_id c)),
      (''name'', JStr (c_name c)),
      (''is_active'', JBool (c_is_active c)),
      (''status'', JStr (client_status_text (c_status c))),
      (''daily_quota'', int_opt (c_daily_quota c)),
      (''daily_usage'', JInt (c_daily_usage c)),
      (''quota_reset_at'', date_to_iso (c_quota_reset_at c)),
      (''rate_limit_per_min'', JInt (c_rate_limit_per_min c)),
      (''max_concurrent'', JInt (c_max_concurrent c)),
      (''created_at'', dt_to_rfc3339 (Some (c_created_at c))),
      (''last_used_at'', dt_to_rfc3339 (c_last_used_at c))]"

text \<open>The item of the row as it is now (after \<open>db.refresh\<close>), as the answer of a handler.\<close>

definition answer_key :: "'b backend \<Rightarrow> int \<Rightarrow> 'b app \<Rightarrow> (fcam_error + json) \<times> 'b app" where
  "answer_key ops kid s =
     (case key_row kid s of
        None \<Rightarrow> (Inl db_unavailable, s)
      | Some k \<Rightarrow> (let (item, s1) = key_item ops k s in (Inr (JObj item), s1)))"

subsection \<open>Facts\<close>

lemma op_read_views:
  assumes "op_read s = (r, s')"
  shows "cur (sess s') = cur (sess s) \<and> db (sess s') = db (sess s) \<and> wall s' = wall s \<and> kback s' = kback s
    \<and> sent s' = sent s"
  using assms by (auto simp: op_read_def split: prod.splits dest: next_fault_views)

lemma op_flush_views:
  assumes "op_flush s = (r, s')"
  shows "cur (sess s') = cur (sess s) \<and> db (sess s') = db (sess s) \<and> wall s' = wall s \<and>
    (r = None \<longrightarrow> unique_ok (cur (sess s)))"
  using assms op_read_views [of s] by (auto simp: op_flush_def split: prod.splits option.splits if_splits)

lemma op_commit_views:
  assumes "op_commit s = (r, s')"
  shows "cur (sess s') = cur (sess s) \<and> wall s' = wall s \<and>
    (if r = None then db (sess s') = cur (sess s) \<and> unique_ok (cur (sess s)) else db (sess s') = db (sess s))"
  using assms by (auto simp: op_commit_def commit_def split: prod.splits if_splits dest: next_fault_views)

lemma on_tables_sel [simp]:
  "cur (sess (on_tables f s)) = f (cur (sess s))" "db (sess (on_tables f s)) = db (sess s)"
  "wall (on_tables f s) = wall s" "kback (on_tables f s) = kback s" "faults (sess (on_tables f s)) = faults (sess s)"
  "sent (on_tables f s) = sent s"
  by (simp_all add: on_tables_def)

text \<open>An audit entry adds a row to its own table.\<close>

lemma audit_sel [simp]:
  "t_keys (cur (sess (audit ar a rt ri s))) = t_keys (cur (sess s))"
  "t_clients (cur (sess (audit ar a rt ri s))) = t_clients (cur (sess s))"
  "t_logs (cur (sess (audit ar a rt ri s))) = t_logs (cur (sess s))"
  "t_snapshots (cur (sess (audit ar a rt ri s))) = t_snapshots (cur (sess s))"
  "t_idem (cur (sess (audit ar a rt ri s))) = t_idem (cur (sess s))"
  "t_bindings (cur (sess (audit ar a rt ri s))) = t_bindings (cur (sess s))"
  "db (sess (audit ar a rt ri s)) = db (sess s)" "wall (audit ar a rt ri s) = wall s"
  "faults (sess (audit ar a rt ri s)) = faults (sess s)"
  by (simp_all add: audit_def)

lemma audit_trail:
  "map a_action (t_audit (cur (sess (audit ar a rt ri s)))) = map a_action (t_audit (cur (sess s))) @ [a]"
  by (simp add: audit_def)

lemma unique_ok_audit [simp]: "unique_ok (cur (sess (audit ar a rt ri s))) = unique_ok (cur (sess s))"
  by (simp add: unique_ok_def)

text \<open>
  The transactions of the handlers. Either the pending work is committed as a whole (the read that may
  follow can still fail), or the committed rows are as before and the session is back on them.
\<close>

lemma attempt_append:
  "attempt (fs @ gs) s = (case attempt fs s of (None, s1) \<Rightarrow> attempt gs s1 | r \<Rightarrow> r)"
  by (induction fs arbitrary: s) (auto split: prod.splits option.splits)

lemma op_do_simp [simp]: "attempt (op_do f # fs) s = attempt fs (f s)"
  by (simp add: op_do_def)

lemma commit_saved:
  assumes "attempt [op_commit] s = (r, s')"
  obtains (saved) "r = None" "db (sess s') = cur (sess s)" "cur (sess s') = cur (sess s)" "unique_ok (cur (sess s))"
      "wall s' = wall s"
    | (lost) exc where "r = Some exc" "db (sess s') = db (sess s)" "cur (sess s') = db (sess s)" "wall s' = wall s"
proof -
  obtain x t where x: "op_commit s = (x, t)" by (cases "op_commit s")
  note v = op_commit_views [OF x]
  show thesis
  proof (cases x)
    case None
    with assms x v show thesis by (intro saved) auto
  next
    case (Some e)
    with assms x v show thesis by (intro lost [of e]) (auto simp: rollback_def)
  qed
qed

lemma commit_read_saved:
  assumes "attempt [op_commit, op_read] s = (r, s')"
  obtains (saved) "r = None \<or> r = Some Db_error" "db (sess s') = cur (sess s)" "cur (sess s') = cur (sess s)"
      "unique_ok (cur (sess s))" "wall s' = wall s"
    | (lost) exc where "r = Some exc" "db (sess s') = db (sess s)" "cur (sess s') = db (sess s)" "wall s' = wall s"
proof -
  obtain x t where x: "attempt [op_commit] s = (x, t)" by (cases "attempt [op_commit] s")
  have a: "attempt [op_commit, op_read] s = (case attempt [op_commit] s of (None, s1) \<Rightarrow> attempt [op_read] s1 | q \<Rightarrow> q)"
    using attempt_append [of "[op_commit]" "[op_read]" s] by simp
  from x show thesis
  proof (cases rule: commit_saved)
    case saved
    obtain y u where y: "op_read t = (y, u)" by (cases "op_read t")
    note v = op_read_views [OF y]
    have "y = None \<or> y = Some Db_error" using y by (auto simp: op_read_def Let_def split: prod.splits)
    with assms a x y v saved show thesis by (intro that(1)) (auto simp: rollback_def)
  next
    case (lost exc)
    with assms a x show thesis by (intro that(2) [of exc]) auto
  qed
qed

lemma flush_then:
  assumes "attempt (op_flush # fs) s = (r, s')"
  obtains (flushed) t where "attempt fs t = (r, s')" "cur (sess t) = cur (sess s)" "db (sess t) = db (sess s)"
      "wall t = wall s" "unique_ok (cur (sess s))"
    | (lost) exc where "r = Some exc" "db (sess s') = db (sess s)" "cur (sess s') = db (sess s)" "wall s' = wall s"
proof -
  obtain x t where x: "op_flush s = (x, t)" by (cases "op_flush s")
  note v = op_flush_views [OF x]
  show thesis
  proof (cases x)
    case None
    with assms x v show thesis by (intro flushed [of t]) auto
  next
    case (Some e)
    with assms x v show thesis by (intro lost [of e]) (auto simp: rollback_def)
  qed
qed

end
