(* ===== verification/Key_Import.thy ===== *)
theory Key_Import
  imports Civil
begin

text \<open>
  \<open>app/core/key_import.py\<close>: the lines of an import text, one key each, as parsed lines and failures.
\<close>

record parsed_line =
  pl_line_no :: nat
  pl_raw :: string
  pl_api_key :: string
  pl_account_username :: "string option"
  pl_account_password :: "string option"
  pl_account_verified_at :: "instant option"

record parse_failure =
  pf_line_no :: nat
  pf_raw :: string
  pf_message :: string

text \<open>\<open>str.splitlines\<close> and \<open>str.split\<close> without an argument.\<close>

definition line_break :: "char \<Rightarrow> bool" where
  "line_break c = (let n = (of_char c :: nat) in (10 \<le> n \<and> n \<le> 13) \<or> (28 \<le> n \<and> n \<le> 30) \<or> n = 133)"

fun lines_from :: "string \<Rightarrow> string \<Rightarrow> string list" where
  "lines_from acc [] = (if acc = [] then [] else [rev acc])"
| "lines_from acc [c] = (if line_break c then [rev acc] else [rev (c # acc)])"
| "lines_from acc (c # d # s) =
     (if line_break c then
        rev acc # (if c = char_of (13 :: nat) \<and> d = char_of (10 :: nat) then lines_from [] s else lines_from [] (d # s))
      else lines_from (c # acc) (d # s))"

definition splitlines :: "string \<Rightarrow> string list" where
  "splitlines s = lines_from [] s"

fun words_from :: "string \<Rightarrow> string \<Rightarrow> string list" where
  "words_from acc [] = (if acc = [] then [] else [rev acc])"
| "words_from acc (c # s) =
     (if py_space c then (if acc = [] then words_from [] s else rev acc # words_from [] s)
      else words_from (c # acc) s)"

definition split_fields :: "string \<Rightarrow> string list" where
  "split_fields line =
     map strip
       (if CHR ''|'' \<in> set line then split_on (CHR ''|'') line
        else if char_of (9 :: nat) \<in> set line then split_on (char_of (9 :: nat)) line
        else if CHR '','' \<in> set line then split_on (CHR '','') line
        else words_from [] line)"

definition date_only :: "string \<Rightarrow> bool" where
  "date_only s \<longleftrightarrow> length s = 10 \<and> s ! 4 = CHR ''-'' \<and> s ! 7 = CHR ''-'' \<and>
     list_all is_digit (take 4 s @ take 2 (drop 5 s) @ drop 8 s)"

text \<open>
  \<open>_parse_datetime_utc\<close>, after its rewriting of the text; a naive result is taken as UTC, and one out of
  the range of a \<open>datetime\<close> in UTC is an exception as a text that is no date is.
\<close>

definition iso_rewrite :: "string \<Rightarrow> string" where
  "iso_rewrite s =
     (if date_only s then s @ ''T00:00:00+00:00''
      else if endswith s ''Z'' then butlast s @ ''+00:00''
      else if CHR '' '' \<in> set s \<and> CHR ''T'' \<notin> set s \<and> CHR ''+'' \<notin> set s then
        takeWhile (\<lambda>c. c \<noteq> CHR '' '') s @ CHR ''T'' # tl (dropWhile (\<lambda>c. c \<noteq> CHR '' '') s)
      else s)"

definition parse_datetime_utc :: "string \<Rightarrow> instant option" where
  "parse_datetime_utc raw =
     (let s = strip raw in
      if s = [] then None
      else
        (case fromisoformat (iso_rewrite s) of
           None \<Rightarrow> None
         | Some (t, aware) \<Rightarrow> if datetime_range t then Some t else None))"

text \<open>
  The body of the loop for a line that is neither blank nor a comment: \<open>iso_message s\<close> is the text of
  Python's exception for a date it cannot read. Empty fields are dropped before they are counted.
\<close>

definition parse_fields ::
  "(string \<Rightarrow> string) \<Rightarrow> string list \<Rightarrow> string + (string \<times> string option \<times> string option \<times> instant option)" where
  "parse_fields iso_message parts =
     (case parts of
        [k] \<Rightarrow> Inr (k, None, None, None)
      | [u, k] \<Rightarrow> Inr (k, Some u, None, None)
      | [u, p, k] \<Rightarrow> Inr (k, Some u, Some p, None)
      | [u, p, k, v] \<Rightarrow>
          (if v = [] then Inr (k, Some u, Some p, None)
           else (case parse_datetime_utc v of
                   None \<Rightarrow> Inl (iso_message v)
                 | Some t \<Rightarrow> Inr (k, Some u, Some p, Some t)))
      | _ \<Rightarrow> Inl ''expect 1/2/3/4 fields per line'')"

definition clean :: "string option \<Rightarrow> string option" where
  "clean x = or_none (strip (case x of None \<Rightarrow> [] | Some s \<Rightarrow> s))"

definition parse_line :: "(string \<Rightarrow> string) \<Rightarrow> nat \<Rightarrow> string \<Rightarrow> (parse_failure + parsed_line) option" where
  "parse_line iso_message line_no raw =
     (let line = strip raw in
      if line = [] \<or> startswith line ''#'' then None
      else
        Some (case parse_fields iso_message (filter (\<lambda>p. p \<noteq> []) (split_fields line)) of
          Inl msg \<Rightarrow> Inl \<lparr>pf_line_no = line_no, pf_raw = raw, pf_message = msg\<rparr>
        | Inr (k, u, p, v) \<Rightarrow>
            (let api_key = strip k in
             if length api_key < 8 then
               Inl \<lparr>pf_line_no = line_no, pf_raw = raw, pf_message = ''api_key too short''\<rparr>
             else
               Inr \<lparr>pl_line_no = line_no, pl_raw = raw, pl_api_key = api_key, pl_account_username = clean u,
                     pl_account_password = clean p, pl_account_verified_at = v\<rparr>)))"

fun parse_lines :: "(string \<Rightarrow> string) \<Rightarrow> nat \<Rightarrow> string list \<Rightarrow> parsed_line list \<times> parse_failure list" where
  "parse_lines iso_message n [] = ([], [])"
| "parse_lines iso_message n (raw # raws) =
     (let (items, failures) = parse_lines iso_message (Suc n) raws
      in (case parse_line iso_message n raw of
            None \<Rightarrow> (items, failures)
          | Some (Inl f) \<Rightarrow> (items, f # failures)
          | Some (Inr i) \<Rightarrow> (i # items, failures)))"

definition parse_keys_text :: "(string \<Rightarrow> string) \<Rightarrow> string \<Rightarrow> parsed_line list \<times> parse_failure list" where
  "parse_keys_text iso_message text = parse_lines iso_message 1 (splitlines text)"

subsection \<open>Facts\<close>

text \<open>What is asked of a field: it is kept by \<open>strip\<close>, not empty, and without a separator.\<close>

definition plain_field :: "string \<Rightarrow> bool" where
  "plain_field s \<longleftrightarrow> s \<noteq> [] \<and> strip s = s \<and> CHR ''|'' \<notin> set s"

lemma split_on_absent: "c \<notin> set s \<Longrightarrow> split_on c s = [s]"
  by (induction s) auto

lemma split_on_sep: "c \<notin> set s \<Longrightarrow> split_on c (s @ c # r) = s # split_on c r"
  by (induction s) (auto split: list.splits)

text \<open>A parsed line has a key of at least eight characters without outer white space.\<close>

lemma parse_line_item:
  assumes "parse_line msg n raw = Some (Inr i)"
  shows "8 \<le> length (pl_api_key i)" "strip (pl_api_key i) = pl_api_key i" "pl_line_no i = n" "pl_raw i = raw"
  using assms by (auto simp: parse_line_def Let_def split: if_splits sum.splits prod.splits)

text \<open>The items and failures together are the lines that are neither blank nor comments, by number.\<close>

definition significant :: "string \<Rightarrow> bool" where
  "significant raw \<longleftrightarrow> strip raw \<noteq> [] \<and> \<not> startswith (strip raw) ''#''"

lemma parse_line_significant: "(parse_line msg n raw = None) = (\<not> significant raw)"
  by (auto simp: parse_line_def significant_def Let_def)

lemma parse_lines_count:
  assumes "parse_lines msg n raws = (items, failures)"
  shows "length items + length failures = length (filter significant raws)"
  using assms
proof (induction raws arbitrary: n items failures)
  case (Cons raw raws)
  obtain it fl where r: "parse_lines msg (Suc n) raws = (it, fl)" by (cases "parse_lines msg (Suc n) raws")
  from Cons.IH [OF r] Cons.prems r show ?case
    using parse_line_significant [of msg n raw]
    by (auto split: option.splits sum.splits)
qed simp

lemma parse_lines_items:
  assumes "parse_lines msg n raws = (items, failures)" and "i \<in> set items"
  shows "8 \<le> length (pl_api_key i) \<and> n \<le> pl_line_no i \<and> pl_line_no i < n + length raws \<and>
    pl_raw i = raws ! (pl_line_no i - n)"
  using assms
proof (induction raws arbitrary: n items failures)
  case (Cons raw raws)
  obtain it fl where r: "parse_lines msg (Suc n) raws = (it, fl)" by (cases "parse_lines msg (Suc n) raws")
  show ?case
  proof (cases "i \<in> set it")
    case True
    from Cons.IH [OF r True] have *: "8 \<le> length (pl_api_key i)" "Suc n \<le> pl_line_no i"
      "pl_line_no i < Suc n + length raws" "pl_raw i = raws ! (pl_line_no i - Suc n)" by auto
    then have "pl_line_no i - n = Suc (pl_line_no i - Suc n)" by simp
    with * show ?thesis by simp
  next
    case False
    with Cons.prems r have "parse_line msg n raw = Some (Inr i)" by (auto split: option.splits sum.splits)
    from parse_line_item [OF this] show ?thesis by simp
  qed
qed simp

lemma strip_clean:
  assumes "plain_field u" shows "clean (Some u) = Some u"
  using assms by (simp add: plain_field_def clean_def or_none_def)

lemma pad_digits: "c \<in> set (pad w n) \<Longrightarrow> is_digit c"
  using show_nat_digits [of "nat n"] by (auto simp: pad_def Let_def is_digit_def)

lemma rfc3339_chars: "c \<in> set (rfc3339 t) \<Longrightarrow> is_digit c \<or> c \<in> set ''-:.TZ''"
  by (auto simp: rfc3339_def date_iso_def time_iso_def Let_def split: prod.splits if_splits dest: pad_digits)

lemma rfc3339_plain: "plain_field (rfc3339 t)"
proof -
  have bar: "CHR ''|'' \<notin> set (rfc3339 t)" using rfc3339_chars [of "CHR ''|''" t] by (auto simp: is_digit_def)
  have last: "last (rfc3339 t) = CHR ''Z''" by (simp add: rfc3339_def)
  have ne: "rfc3339 t \<noteq> []" by (simp add: rfc3339_def)
  have "\<not> py_space (hd (rfc3339 t))"
    using rfc3339_chars [of "hd (rfc3339 t)" t] ne by (auto simp: is_digit_def py_space_def Let_def)
  with last ne have "strip (rfc3339 t) = rfc3339 t" by (intro strip_id) (simp_all add: py_space_def)
  with bar ne show ?thesis by (simp add: plain_field_def)
qed

lemma parse_rfc3339_utc:
  assumes "datetime_range t"
  shows "parse_datetime_utc (rfc3339 t) = Some t"
proof -
  let ?d = "date_iso (t div day_usec) @ ''T'' @ time_iso (t mod day_usec)"
  have r: "rfc3339 t = ?d @ ''Z''" by (simp add: rfc3339_def)
  have len: "length (date_iso (t div day_usec)) = 10"
    using parse_date_iso(2) [of "t div day_usec"] assms by (simp add: datetime_range_def)
  have "\<not> date_only (rfc3339 t)" unfolding r date_only_def by (simp add: len)
  moreover have "endswith (rfc3339 t) ''Z''" by (simp add: r endswith_def)
  moreover have "butlast (rfc3339 t) = ?d" unfolding r by (rule butlast_snoc)
  ultimately have w: "iso_rewrite (rfc3339 t) = ?d @ ''+00:00''" by (simp only: iso_rewrite_def if_True if_False)
  have s: "strip (rfc3339 t) = rfc3339 t" "rfc3339 t \<noteq> []"
    using rfc3339_plain [of t] by (simp_all add: plain_field_def)
  have "fromisoformat (?d @ ''+00:00'') = Some (t, True)" using fromisoformat_iso [OF assms] by simp
  then show ?thesis using assms by (simp add: parse_datetime_utc_def s w)
qed

text \<open>
  C34. A line \<open>user|password|key|verified_at\<close> of plain fields, with a key of at least eight characters and the
  instant as the control plane prints it, is read back field by field.
\<close>

theorem import_line_roundtrip:
  assumes "plain_field u" and "plain_field p" and "plain_field k" and "8 \<le> length k"
    and "hd u \<noteq> CHR ''#''" and "datetime_range t"
  shows "parse_line msg n (u @ ''|'' @ p @ ''|'' @ k @ ''|'' @ rfc3339 t) =
    Some (Inr \<lparr>pl_line_no = n, pl_raw = u @ ''|'' @ p @ ''|'' @ k @ ''|'' @ rfc3339 t, pl_api_key = k,
      pl_account_username = Some u, pl_account_password = Some p, pl_account_verified_at = Some t\<rparr>)"
proof -
  let ?v = "rfc3339 t"
  define l where "l = u @ ''|'' @ p @ ''|'' @ k @ ''|'' @ ?v"
  note pf = assms(1-3) rfc3339_plain [of t]
  then have ne: "u \<noteq> []" "p \<noteq> []" "k \<noteq> []" "?v \<noteq> []"
    and st: "strip u = u" "strip p = p" "strip k = k" "strip ?v = ?v"
    and nb: "CHR ''|'' \<notin> set u" "CHR ''|'' \<notin> set p" "CHR ''|'' \<notin> set k" "CHR ''|'' \<notin> set ?v"
    by (simp_all add: plain_field_def)
  have "\<not> py_space (hd u)" "\<not> py_space (last ?v)"
    using strip_ends(1) [of u] strip_ends(2) [of ?v] st ne by simp_all
  then have line: "strip l = l" "l \<noteq> []" using ne unfolding l_def by (auto intro: strip_id)
  have "split_on (CHR ''|'') l = [u, p, k, ?v]"
    using nb by (simp add: l_def split_on_sep split_on_absent)
  then have fields: "split_fields l = [u, p, k, ?v]" by (simp add: split_fields_def st l_def)
  have hash: "\<not> startswith l ''#''" using assms(5) ne by (cases u) (simp_all add: l_def startswith_def)
  show ?thesis
    unfolding l_def [symmetric]
    using parse_rfc3339_utc [OF assms(6)] assms(4) pf ne
    by (simp add: parse_line_def line fields hash parse_fields_def st strip_clean Let_def)
qed

theorem import_line_roundtrip_witness:
  "parse_line (\<lambda>s. s) 3 (''ada'' @ ''|'' @ ''pw'' @ ''|'' @ ''fc-12345'' @ ''|'' @ rfc3339 1700000000123456) =
    Some (Inr \<lparr>pl_line_no = 3, pl_raw = ''ada'' @ ''|'' @ ''pw'' @ ''|'' @ ''fc-12345'' @ ''|'' @ rfc3339 1700000000123456,
      pl_api_key = ''fc-12345'', pl_account_username = Some ''ada'', pl_account_password = Some ''pw'',
      pl_account_verified_at = Some 1700000000123456\<rparr>)"
  by (rule import_line_roundtrip)
    (code_simp | simp add: datetime_range_def epoch_ordinal_def)+

end
