(* ===== verification/Admin_Keys.thy ===== *)
theory Admin_Keys
  imports Admin_Common Key_Import
begin

text \<open>
  The handlers of \<open>app/api/control_plane.py\<close> that administer upstream keys: listing, creation, import,
  update, deletion, purge, test, batch operations and the quota reset. Payloads are as pydantic has
  validated them; random bytes (\<open>os.urandom\<close>) are arguments.
\<close>

subsection \<open>Listing\<close>

text \<open>SQL's \<open>LIKE\<close>: \<open>%\<close> is any text, \<open>_\<close> any character; the pattern is not escaped.\<close>

function (sequential) like :: "string \<Rightarrow> string \<Rightarrow> bool" where
  "like [] s = (s = [])"
| "like (p # ps) [] = (p = CHR ''%'' \<and> like ps [])"
| "like (p # ps) (c # s) =
     (if p = CHR ''%'' then like ps (c # s) \<or> like (p # ps) s
      else (p = CHR ''_'' \<or> p = c) \<and> like ps s)"
  by pat_completeness auto
termination
  by (relation "measure (\<lambda>(p, s). length p + length s)") auto

definition search_text :: "string option \<Rightarrow> string option" where
  "search_text q = (case q of None \<Rightarrow> None | Some t \<Rightarrow> or_none (strip t))"

definition matches :: "string \<Rightarrow> string \<Rightarrow> bool" where
  "matches q_raw text = like (''%'' @ lower q_raw @ ''%'') (lower text)"

record list_query =
  lq_client_id :: "int option"
  lq_page :: "int option"
  lq_page_size :: "int option"
  lq_q :: "string option"
  lq_provider :: "string option"

definition listed :: "list_query \<Rightarrow> api_key \<Rightarrow> bool" where
  "listed q k \<longleftrightarrow>
     (case lq_provider q of None \<Rightarrow> True | Some p \<Rightarrow> k_provider k = p) \<and>
     (case lq_client_id q of None \<Rightarrow> True
      | Some c \<Rightarrow> if c = 0 then k_client_id k = None else k_client_id k = Some c) \<and>
     (case search_text (lq_q q) of None \<Rightarrow> True
      | Some t \<Rightarrow> matches t (case k_name k of None \<Rightarrow> [] | Some n \<Rightarrow> n))"

definition by_id_desc :: "('r \<Rightarrow> int) \<Rightarrow> 'r list \<Rightarrow> 'r list" where
  "by_id_desc f rows = sort_key (\<lambda>r. - f r) rows"

text \<open>The fields a list item has besides those of \<open>_key_item\<close>, from the key's last snapshot.\<close>

definition period_fields :: "tables \<Rightarrow> api_key \<Rightarrow> (string \<times> json) list" where
  "period_fields t k =
     (let snap = (case k_last_credit_snapshot_id k of
                    None \<Rightarrow> None
                  | Some sid \<Rightarrow> if sid = 0 then None else find (\<lambda>c. cs_id c = sid) (t_snapshots t))
      in (case snap of
            None \<Rightarrow> [(''cached_is_estimated'', JBool False), (''billing_period_start'', JNull),
                     (''billing_period_end'', JNull)]
          | Some c \<Rightarrow>
              [(''cached_is_estimated'',
                 JBool (case k_cached_remaining k of None \<Rightarrow> False | Some r \<Rightarrow> r \<noteq> cs_remaining c)),
               (''billing_period_start'', dt_to_rfc3339 (cs_period_start c)),
               (''billing_period_end'', dt_to_rfc3339 (cs_period_end c))]))"

fun list_items :: "'b backend \<Rightarrow> api_key list \<Rightarrow> 'b app \<Rightarrow> json list \<times> 'b app" where
  "list_items ops [] s = ([], s)"
| "list_items ops (k # ks) s =
     (let (item, s1) = key_item ops k s;
          (items, s2) = list_items ops ks s1
      in (JObj (item @ period_fields (cur (sess s)) k) # items, s2))"

definition page_of :: "int \<Rightarrow> int \<Rightarrow> 'r list \<Rightarrow> 'r list" where
  "page_of page page_size rows = take (nat page_size) (drop (nat ((page - 1) * page_size)) rows)"

definition list_keys :: "'b backend \<Rightarrow> list_query \<Rightarrow> 'b app \<Rightarrow> (fcam_error + json) \<times> 'b app" where
  "list_keys ops q s =
     (if (case search_text (lq_q q) of None \<Rightarrow> False | Some t \<Rightarrow> 200 < length t)
      then (Inl (validation_error ''q too long''), s)
      else
        (case db_query (\<lambda>s. by_id_desc k_id (filter (listed q) (t_keys (cur (sess s))))) s of
           (Inl err, s1) \<Rightarrow> (Inl err, s1)
         | (Inr keys, s1) \<Rightarrow>
             if lq_page q = None \<and> lq_page_size q = None \<and> search_text (lq_q q) = None then
               (let (items, s2) = list_items ops keys s1 in (Inr (JObj [(''items'', JArr items)]), s2))
             else
               (let page = (case lq_page q of None \<Rightarrow> 1 | Some n \<Rightarrow> if n = 0 then 1 else n);
                    page_size = (case lq_page_size q of None \<Rightarrow> 20 | Some n \<Rightarrow> if n = 0 then 20 else n);
                    total_items = int (length keys);
                    total_pages = (total_items + page_size - 1) div page_size;
                    (items, s2) = list_items ops (page_of page page_size keys) s1
                in (Inr (JObj
                     [(''items'', JArr items),
                      (''pagination'', JObj
                        [(''page'', JInt page), (''page_size'', JInt page_size),
                         (''total_items'', JInt total_items), (''total_pages'', JInt total_pages)])]), s2))))"

subsection \<open>Creation\<close>

definition valid_providers :: "string list" where
  "valid_providers = [''exa'', ''firecrawl'']"

definition invalid_provider :: "string \<Rightarrow> fcam_error" where
  "invalid_provider p = validation_error (''Invalid provider '' @ [CHR 0x27] @ p @ [CHR 0x27] @ ''. Allowed: exa, firecrawl'')"

definition client_missing :: fcam_error where
  "client_missing = fcam 404 ''NOT_FOUND'' ''Client not found''"

text \<open>The client a payload names; zero means unassigned.\<close>

definition resolve_client :: "int option \<Rightarrow> 'b app \<Rightarrow> fcam_error + int option" where
  "resolve_client cid s =
     (case cid of
        None \<Rightarrow> Inr None
      | Some c \<Rightarrow> if c = 0 then Inr None
                  else if get_client c (sess s) = None then Inl client_missing else Inr (Some c))"

record key_settings =
  ks_plan_type :: string
  ks_daily_quota :: int
  ks_max_concurrent :: int
  ks_rate_limit_per_min :: int
  ks_is_active :: bool
  ks_provider :: string

record create_key_request =
  ck_api_key :: string
  ck_client_id :: "int option"
  ck_name :: "string option"
  ck_settings :: key_settings

definition last4 :: "string \<Rightarrow> string" where
  "last4 s = drop (length s - 4) s"

definition active_status :: "bool \<Rightarrow> key_status" where
  "active_status b = (if b then Active else Disabled)"

text \<open>The row of a new key, with the column defaults of \<open>ApiKey\<close>.\<close>

definition new_key ::
  "crypto \<Rightarrow> bytes \<Rightarrow> bytes \<Rightarrow> string \<Rightarrow> int option \<Rightarrow> string option \<Rightarrow> key_settings \<Rightarrow> date \<Rightarrow> int \<Rightarrow> instant \<Rightarrow> api_key" where
  "new_key cr mk nonce plaintext client_id name ks today kid now =
     \<lparr>k_id = kid, k_client_id = client_id, k_ciphertext = encrypt_api_key cr mk nonce plaintext,
      k_hash = cr_hmac_hex cr mk plaintext, k_last4 = last4 plaintext, k_account_username = None,
      k_account_password_ciphertext = None, k_account_verified_at = None, k_name = name,
      k_plan_type = ks_plan_type ks, k_is_active = ks_is_active ks, k_daily_quota = Some (ks_daily_quota ks),
      k_daily_usage = 0, k_quota_reset_at = Some today, k_max_concurrent = ks_max_concurrent ks,
      k_rate_limit_per_min = ks_rate_limit_per_min ks, k_cooldown_until = None, k_total_requests = 0,
      k_last_used_at = None, k_created_at = now, k_last_credit_snapshot_id = None,
      k_last_credit_check_at = None, k_cached_remaining = None, k_cached_plan = None,
      k_next_refresh_at = None, k_provider = ks_provider ks, k_status = active_status (ks_is_active ks)\<rparr>"

definition duplicate_key :: fcam_error where
  "duplicate_key = fcam 409 ''API_KEY_DUPLICATE'' ''Duplicate api key''"

definition add_key :: "api_key \<Rightarrow> 'b app \<Rightarrow> 'b app" where
  "add_key k = on_tables (\<lambda>t. t\<lparr>t_keys := t_keys t @ [k]\<rparr>)"

definition next_key_id :: "'b app \<Rightarrow> int" where
  "next_key_id s = fresh_id (map k_id (t_keys (cur (sess s))))"

definition create_key ::
  "'b backend \<Rightarrow> env \<Rightarrow> admin_request \<Rightarrow> app_config \<Rightarrow> secrets \<Rightarrow> bytes \<Rightarrow> create_key_request \<Rightarrow> 'b app
     \<Rightarrow> (fcam_error + json) \<times> 'b app" where
  "create_key ops e ar cfg secrets nonce payload s =
     (case set_secret (sec_master_key secrets) of
        None \<Rightarrow> (Inl master_key_missing, s)
      | Some master \<Rightarrow>
          if ks_provider (ck_settings payload) \<notin> set valid_providers
          then (Inl (invalid_provider (ks_provider (ck_settings payload))), s)
          else
            (case resolve_client (ck_client_id payload) s of
               Inl err \<Rightarrow> (Inl err, s)
             | Inr client_id \<Rightarrow>
                 (let mk = derive_master_key_bytes (en_crypto e) master;
                      today = today_in_timezone (en_zone e) (qt_timezone (c_quota cfg)) (wall s);
                      kid = next_key_id s;
                      k = new_key (en_crypto e) mk nonce (ck_api_key payload) client_id (ck_name payload)
                            (ck_settings payload) today kid (wall s)
                  in (case attempt [op_do (add_key k), op_flush, op_do (key_audit ar ''key.create'' k),
                            op_commit, op_read] s of
                        (Some exc, s1) \<Rightarrow> (Inl (db_failure duplicate_key exc), s1)
                      | (None, s1) \<Rightarrow> answer_key ops kid s1))))"

subsection \<open>Import\<close>

record import_request =
  ir_client_id :: "int option"
  ir_text :: string
  ir_settings :: key_settings

record import_state =
  im_created :: int
  im_updated :: int
  im_skipped :: int
  im_failures :: "parse_failure list"

definition item_failure :: "parsed_line \<Rightarrow> string \<Rightarrow> parse_failure" where
  "item_failure i msg = \<lparr>pf_line_no = pl_line_no i, pf_raw = pl_raw i, pf_message = msg\<rparr>"

definition fail_item :: "parsed_line \<Rightarrow> string \<Rightarrow> import_state \<Rightarrow> import_state" where
  "fail_item i msg im = im\<lparr>im_failures := im_failures im @ [item_failure i msg]\<rparr>"

text \<open>\<open>with db.begin_nested()\<close>: an exception undoes the work inside, nothing else.\<close>

definition savepoint :: "'b db_op \<Rightarrow> 'b db_op" where
  "savepoint f s =
     (case f s of
        (None, s1) \<Rightarrow> (None, s1)
      | (Some exc, s1) \<Rightarrow> (Some exc, s1\<lparr>sess := (sess s1)\<lparr>cur := cur (sess s)\<rparr>\<rparr>))"

definition imported_key ::
  "crypto \<Rightarrow> bytes \<Rightarrow> (nat \<Rightarrow> bytes) \<Rightarrow> int option \<Rightarrow> key_settings \<Rightarrow> date \<Rightarrow> int \<Rightarrow> instant \<Rightarrow> nat \<Rightarrow> parsed_line \<Rightarrow> api_key" where
  "imported_key cr mk nonce client_id ks today kid now n i =
     (new_key cr mk (nonce (2 * n)) (pl_api_key i) client_id None ks today kid now)
       \<lparr>k_account_username := pl_account_username i,
        k_account_password_ciphertext :=
          map_option (encrypt_account_password cr mk (nonce (2 * n + 1))) (pl_account_password i),
        k_account_verified_at := pl_account_verified_at i\<rparr>"

text \<open>What an import fills in on a key that exists: fields that are empty, and a client if it has none.\<close>

definition unset :: "string option \<Rightarrow> bool" where
  "unset x \<longleftrightarrow> given x = None"

definition merge_existing :: "int option \<Rightarrow> api_key \<Rightarrow> api_key \<Rightarrow> api_key \<times> bool" where
  "merge_existing client_id new k =
     (let c1 = (client_id \<noteq> None \<and> k_client_id k = None);
          k1 = (if c1 then k\<lparr>k_client_id := client_id\<rparr> else k);
          c2 = (\<not> unset (k_account_username new) \<and> unset (k_account_username k1));
          k2 = (if c2 then k1\<lparr>k_account_username := k_account_username new\<rparr> else k1);
          c3 = (k_account_password_ciphertext new \<noteq> None \<and> k_account_password_ciphertext k2 = None);
          k3 = (if c3 then k2\<lparr>k_account_password_ciphertext := k_account_password_ciphertext new\<rparr> else k2);
          c4 = (k_account_verified_at new \<noteq> None \<and> k_account_verified_at k3 = None);
          k4 = (if c4 then k3\<lparr>k_account_verified_at := k_account_verified_at new\<rparr> else k3)
      in (k4, c1 \<or> c2 \<or> c3 \<or> c4))"

definition import_duplicate ::
  "admin_request \<Rightarrow> (db_exc \<Rightarrow> string) \<Rightarrow> int option \<Rightarrow> parsed_line \<Rightarrow> api_key \<Rightarrow> import_state \<Rightarrow> 'b app
     \<Rightarrow> import_state \<times> 'b app" where
  "import_duplicate ar exc_text client_id i new im s =
     (case find (\<lambda>k. k_hash k = k_hash new) (t_keys (cur (sess s))) of
        None \<Rightarrow> (fail_item i ''duplicate api key but existing record missing'' im, s)
      | Some k \<Rightarrow>
          if client_id \<noteq> None \<and> k_client_id k \<noteq> None \<and> k_client_id k \<noteq> client_id then
            (fail_item i ''api key already bound to a different client'' im, s)
          else
            (let (k', changed) = merge_existing client_id new k in
             if changed then
               (case savepoint (\<lambda>s. op_flush (key_audit ar ''key.import_text.update'' k'
                        (on_key (k_id k) (\<lambda>_. k') s))) s of
                  (None, s1) \<Rightarrow> (im\<lparr>im_updated := im_updated im + 1\<rparr>, s1)
                | (Some exc, s1) \<Rightarrow> (fail_item i (exc_text exc) (im\<lparr>im_updated := im_updated im + 1\<rparr>), s1))
             else (im\<lparr>im_skipped := im_skipped im + 1\<rparr>, s)))"

definition import_item ::
  "env \<Rightarrow> admin_request \<Rightarrow> (db_exc \<Rightarrow> string) \<Rightarrow> bytes \<Rightarrow> (nat \<Rightarrow> bytes) \<Rightarrow> date \<Rightarrow> int option \<Rightarrow> key_settings
     \<Rightarrow> nat \<Rightarrow> parsed_line \<Rightarrow> import_state \<Rightarrow> 'b app \<Rightarrow> import_state \<times> 'b app" where
  "import_item e ar exc_text mk nonce today client_id ks n i im s =
     (let k = imported_key (en_crypto e) mk nonce client_id ks today (next_key_id s) (wall s) n i
      in (case savepoint (\<lambda>s. op_flush (add_key k s)) s of
            (None, s1) \<Rightarrow>
              (im\<lparr>im_created := im_created im + 1\<rparr>, key_audit ar ''key.import_text.create'' k s1)
          | (Some Integrity_error, s1) \<Rightarrow> import_duplicate ar exc_text client_id i k im s1
          | (Some Db_error, s1) \<Rightarrow> (fail_item i (exc_text Db_error) im, s1)))"

fun import_items ::
  "env \<Rightarrow> admin_request \<Rightarrow> (db_exc \<Rightarrow> string) \<Rightarrow> bytes \<Rightarrow> (nat \<Rightarrow> bytes) \<Rightarrow> date \<Rightarrow> int option \<Rightarrow> key_settings
     \<Rightarrow> nat \<Rightarrow> parsed_line list \<Rightarrow> import_state \<Rightarrow> 'b app \<Rightarrow> import_state \<times> 'b app" where
  "import_items e ar exc_text mk nonce today client_id ks n [] im s = (im, s)"
| "import_items e ar exc_text mk nonce today client_id ks n (i # items) im s =
     (let (im1, s1) = import_item e ar exc_text mk nonce today client_id ks n i im s
      in import_items e ar exc_text mk nonce today client_id ks (Suc n) items im1 s1)"

definition import_report :: "import_state \<Rightarrow> json" where
  "import_report im = JObj
     [(''created'', JInt (im_created im)), (''updated'', JInt (im_updated im)),
      (''skipped'', JInt (im_skipped im)), (''failed'', JInt (int (length (im_failures im)))),
      (''failures'', JArr (map (\<lambda>f. JObj [(''line_no'', JInt (int (pf_line_no f))), (''raw'', JStr (pf_raw f)),
                                          (''message'', JStr (pf_message f))]) (im_failures im)))]"

text \<open>\<open>iso_message\<close> and \<open>exc_text\<close> are the texts of Python's and the database's exceptions.\<close>

definition import_keys_text ::
  "env \<Rightarrow> admin_request \<Rightarrow> app_config \<Rightarrow> secrets \<Rightarrow> (string \<Rightarrow> string) \<Rightarrow> (db_exc \<Rightarrow> string) \<Rightarrow> (nat \<Rightarrow> bytes)
     \<Rightarrow> import_request \<Rightarrow> 'b app \<Rightarrow> (fcam_error + import_state) \<times> 'b app" where
  "import_keys_text e ar cfg secrets iso_message exc_text nonce payload s =
     (case set_secret (sec_master_key secrets) of
        None \<Rightarrow> (Inl master_key_missing, s)
      | Some master \<Rightarrow>
          if ks_provider (ir_settings payload) \<notin> set valid_providers
          then (Inl (invalid_provider (ks_provider (ir_settings payload))), s)
          else
            (case resolve_client (ir_client_id payload) s of
               Inl err \<Rightarrow> (Inl err, s)
             | Inr client_id \<Rightarrow>
                 (let (items, failures) = parse_keys_text iso_message (ir_text payload) in
                  if items = [] \<and> failures \<noteq> []
                  then (Inl (validation_error ''No valid lines to import''), s)
                  else
                    (let mk = derive_master_key_bytes (en_crypto e) master;
                         today = today_in_timezone (en_zone e) (qt_timezone (c_quota cfg)) (wall s);
                         (im, s1) = import_items e ar exc_text mk nonce today client_id (ir_settings payload) 0 items
                           \<lparr>im_created = 0, im_updated = 0, im_skipped = 0, im_failures = failures\<rparr> s
                     in (case attempt [op_commit] s1 of
                           (Some exc, s2) \<Rightarrow> (Inl db_unavailable, s2)
                         | (None, s2) \<Rightarrow> (Inr im, s2))))))"

end
