(* ===== verification/Admin_Key_Ops.thy ===== *)
theory Admin_Key_Ops
  imports Admin_Keys "HOL-Library.List_Lexorder" "HOL-Library.Char_ord"
begin

text \<open>
  The handlers of \<open>app/api/control_plane.py\<close> that change keys: update, deletion, purge, test, batch
  operations and the quota reset.
\<close>

subsection \<open>Update\<close>

text \<open>\<open>UpdateKeyRequest\<close>; a field that is \<open>None\<close> is left alone.\<close>

record update_key_request =
  uk_client_id :: "int option"
  uk_name :: "string option"
  uk_plan_type :: "string option"
  uk_daily_quota :: "int option"
  uk_max_concurrent :: "int option"
  uk_rate_limit_per_min :: "int option"
  uk_is_active :: "bool option"
  uk_api_key :: "string option"

definition opt_set :: "('v \<Rightarrow> 'r \<Rightarrow> 'r) \<Rightarrow> 'v option \<Rightarrow> 'r \<Rightarrow> 'r" where
  "opt_set f x r = (case x of None \<Rightarrow> r | Some v \<Rightarrow> f v r)"

definition set_daily_quota :: "int \<Rightarrow> api_key \<Rightarrow> api_key" where
  "set_daily_quota q k =
     (let k1 = k\<lparr>k_daily_quota := Some q\<rparr> in
      if q \<le> k_daily_usage k then k1\<lparr>k_status := Quota_exceeded\<rparr> else k1)"

definition set_is_active :: "bool \<Rightarrow> api_key \<Rightarrow> api_key" where
  "set_is_active b k =
     (let k1 = k\<lparr>k_is_active := b\<rparr> in
      if \<not> b then k1\<lparr>k_status := Disabled\<rparr>
      else if k_status k = Disabled then k1\<lparr>k_status := Active\<rparr>
      else k1)"

definition apply_update :: "update_key_request \<Rightarrow> api_key \<Rightarrow> api_key" where
  "apply_update p k =
     opt_set set_is_active (uk_is_active p)
       (opt_set (\<lambda>n k. k\<lparr>k_rate_limit_per_min := n\<rparr>) (uk_rate_limit_per_min p)
         (opt_set (\<lambda>n k. k\<lparr>k_max_concurrent := n\<rparr>) (uk_max_concurrent p)
           (opt_set set_daily_quota (uk_daily_quota p)
             (opt_set (\<lambda>t k. k\<lparr>k_plan_type := t\<rparr>) (uk_plan_type p)
               (opt_set (\<lambda>n k. k\<lparr>k_name := Some n\<rparr>) (uk_name p) k)))))"

text \<open>The rotation of the upstream key; the new text is encrypted under a new nonce.\<close>

definition replace_api_key :: "crypto \<Rightarrow> bytes \<Rightarrow> bytes \<Rightarrow> string \<Rightarrow> api_key \<Rightarrow> api_key" where
  "replace_api_key cr mk nonce plaintext k =
     k\<lparr>k_ciphertext := encrypt_api_key cr mk nonce plaintext, k_hash := cr_hmac_hex cr mk plaintext,
       k_last4 := last4 plaintext\<rparr>"

definition assign_client :: "int option \<Rightarrow> api_key \<Rightarrow> 'b app \<Rightarrow> fcam_error + api_key" where
  "assign_client cid k s =
     (case cid of
        None \<Rightarrow> Inr k
      | Some c \<Rightarrow> if c = 0 then Inr (k\<lparr>k_client_id := None\<rparr>)
                  else if get_client c (sess s) = None then Inl client_missing
                  else Inr (k\<lparr>k_client_id := Some c\<rparr>))"

definition update_key ::
  "'b backend \<Rightarrow> env \<Rightarrow> admin_request \<Rightarrow> secrets \<Rightarrow> bytes \<Rightarrow> int \<Rightarrow> update_key_request \<Rightarrow> 'b app
     \<Rightarrow> (fcam_error + json) \<times> 'b app" where
  "update_key ops e ar secrets nonce key_id p s =
     (case key_row key_id s of
        None \<Rightarrow> (Inl not_found, s)
      | Some k \<Rightarrow>
          (case assign_client (uk_client_id p) k s of
             Inl err \<Rightarrow> (Inl err, s)
           | Inr k1 \<Rightarrow>
               (let s1 = on_key key_id (\<lambda>_. k1) s;
                    rotated =
                      (case uk_api_key p of
                         None \<Rightarrow> Some (k1, s1)
                       | Some plaintext \<Rightarrow>
                           (case set_secret (sec_master_key secrets) of
                              None \<Rightarrow> None
                            | Some master \<Rightarrow>
                                (let mk = derive_master_key_bytes (en_crypto e) master;
                                     k2 = replace_api_key (en_crypto e) mk nonce plaintext k1
                                 in Some (k2, key_audit ar ''key.rotate'' k2 s1))))
                in (case rotated of
                      None \<Rightarrow> (Inl master_key_missing, s1)
                    | Some (k2, s2) \<Rightarrow>
                        (let k3 = apply_update p k2; s3 = on_key key_id (\<lambda>_. k3) s2
                         in (case attempt [op_do (key_audit ar ''key.update'' k3), op_commit, op_read] s3 of
                               (Some exc, s4) \<Rightarrow> (Inl (db_failure duplicate_key exc), s4)
                             | (None, s4) \<Rightarrow> answer_key ops key_id s4))))))"

subsection \<open>Deletion and purge\<close>

definition soft_delete_key :: "api_key \<Rightarrow> api_key" where
  "soft_delete_key k = k\<lparr>k_is_active := False, k_status := Disabled\<rparr>"

definition delete_key :: "admin_request \<Rightarrow> int \<Rightarrow> 'b app \<Rightarrow> (fcam_error + unit) \<times> 'b app" where
  "delete_key ar key_id s =
     (case key_row key_id s of
        None \<Rightarrow> (Inl not_found, s)
      | Some k \<Rightarrow>
          (case attempt [op_do (key_audit ar ''key.delete'' k), op_commit] (on_key key_id soft_delete_key s) of
             (Some exc, s1) \<Rightarrow> (Inl db_unavailable, s1)
           | (None, s1) \<Rightarrow> (Inr (), s1)))"

text \<open>
  \<open>fk\<close> says whether the database enforces the foreign keys of the schema (PostgreSQL does, SQLite as the
  program opens it does not): a deletion that leaves a reference behind is then an \<open>IntegrityError\<close>. The
  snapshots of a key go with it (\<open>cascade="all, delete-orphan"\<close>).
\<close>

definition op_check_refs :: "bool \<Rightarrow> 'b db_op" where
  "op_check_refs fk s =
     (let t = cur (sess s);
          dangling =
            (\<exists>b \<in> set (t_bindings t). b_api_key_id b \<notin> k_id ` set (t_keys t) \<or>
               b_client_id b \<notin> c_id ` set (t_clients t)) \<or>
            (\<exists>r \<in> set (t_idem t). i_client_id r \<notin> c_id ` set (t_clients t)) \<or>
            (\<exists>l \<in> set (t_logs t). (\<exists>i. l_api_key_id l = Some i \<and> i \<notin> k_id ` set (t_keys t)) \<or>
               (\<exists>i. l_client_id l = Some i \<and> i \<notin> c_id ` set (t_clients t)))
      in (if fk \<and> dangling then Some Integrity_error else None, s))"

definition unlink_key_logs :: "int \<Rightarrow> tables \<Rightarrow> tables" where
  "unlink_key_logs kid t =
     t\<lparr>t_logs := upd_where (\<lambda>l. l_api_key_id l = Some kid) (\<lambda>l. l\<lparr>l_api_key_id := None\<rparr>) (t_logs t)\<rparr>"

definition remove_key :: "int \<Rightarrow> tables \<Rightarrow> tables" where
  "remove_key kid t =
     t\<lparr>t_keys := filter (\<lambda>k. k_id k \<noteq> kid) (t_keys t),
       t_snapshots := filter (\<lambda>c. cs_api_key_id c \<noteq> kid) (t_snapshots t)\<rparr>"

definition purge_key :: "bool \<Rightarrow> admin_request \<Rightarrow> int \<Rightarrow> 'b app \<Rightarrow> (fcam_error + unit) \<times> 'b app" where
  "purge_key fk ar key_id s =
     (case key_row key_id s of
        None \<Rightarrow> (Inl not_found, s)
      | Some k \<Rightarrow>
          (case attempt [op_do (on_tables (unlink_key_logs key_id)), op_do (key_audit ar ''key.purge'' k),
                  op_do (on_tables (remove_key key_id)), op_check_refs fk, op_commit] s of
             (Some exc, s1) \<Rightarrow> (Inl db_unavailable, s1)
           | (None, s1) \<Rightarrow> (Inr (), s1)))"

subsection \<open>Test\<close>

definition upstream_unavailable :: fcam_error where
  "upstream_unavailable = fcam 503 ''UPSTREAM_UNAVAILABLE'' ''Upstream unavailable''"

definition test_summary :: "int \<Rightarrow> key_test_result \<Rightarrow> json" where
  "test_summary key_id r = JObj
     [(''key_id'', JInt key_id), (''ok'', JBool (kt_ok r)),
      (''upstream_status_code'', int_opt (kt_upstream_status r)), (''latency_ms'', JInt (kt_latency_ms r)),
      (''observed'', JObj [(''cooldown_until'', dt_to_rfc3339 (kt_observed_cooldown r)),
                           (''status'', JStr (status_text (kt_observed_status r)))])]"

definition test_key_handler ::
  "'b backend \<Rightarrow> env \<Rightarrow> forwarder \<Rightarrow> admin_request \<Rightarrow> int \<Rightarrow> string \<Rightarrow> string \<Rightarrow> 'b app
     \<Rightarrow> (fcam_error + json) \<times> 'b app" where
  "test_key_handler ops e fw ar key_id mode test_url s =
     (case key_row key_id s of
        None \<Rightarrow> (Inl not_found, s)
      | Some k \<Rightarrow>
          (case test_key ops e fw (ar_request_id ar) k mode test_url s of
             (Inl err, s1) \<Rightarrow> (Inl err, s1)
           | (Inr r, s1) \<Rightarrow>
               (case attempt [op_do (key_audit ar ''key.test'' k), op_commit, op_read] s1 of
                  (Some exc, s2) \<Rightarrow> (Inl upstream_unavailable, s2)
                | (None, s2) \<Rightarrow> (Inr (test_summary key_id r), s2))))"

subsection \<open>Batches\<close>

text \<open>\<open>BatchKeyPatch\<close> as \<open>model_dump(exclude_unset=True)\<close>: a name may be set to \<open>None\<close>.\<close>

record key_patch =
  kp_name :: "string option option"
  kp_plan_type :: "string option"
  kp_daily_quota :: "int option"
  kp_max_concurrent :: "int option"
  kp_rate_limit_per_min :: "int option"
  kp_is_active :: "bool option"

record batch_request =
  bq_ids :: "int list"
  bq_patch :: "key_patch option"
  bq_reset_cooldown :: bool
  bq_soft_delete :: bool
  bq_test :: "(string \<times> string) option"

definition reset_cooldown :: "api_key \<Rightarrow> api_key" where
  "reset_cooldown k =
     (let k1 = k\<lparr>k_cooldown_until := None\<rparr> in
      if (k_status k = Cooling \<or> k_status k = Failed) \<and> k_is_active k then k1\<lparr>k_status := Active\<rparr> else k1)"

definition apply_patch :: "key_patch \<Rightarrow> api_key \<Rightarrow> api_key" where
  "apply_patch p k =
     opt_set set_is_active (kp_is_active p)
       (opt_set (\<lambda>n k. k\<lparr>k_rate_limit_per_min := n\<rparr>) (kp_rate_limit_per_min p)
         (opt_set (\<lambda>n k. k\<lparr>k_max_concurrent := n\<rparr>) (kp_max_concurrent p)
           (opt_set set_daily_quota (kp_daily_quota p)
             (opt_set (\<lambda>t k. k\<lparr>k_plan_type := t\<rparr>) (kp_plan_type p)
               (opt_set (\<lambda>n k. k\<lparr>k_name := n\<rparr>) (kp_name p) k)))))"

definition patch_changes :: "key_patch \<Rightarrow> bool" where
  "patch_changes p \<longleftrightarrow> kp_name p \<noteq> None \<or> kp_plan_type p \<noteq> None \<or> kp_daily_quota p \<noteq> None \<or>
     kp_max_concurrent p \<noteq> None \<or> kp_rate_limit_per_min p \<noteq> None \<or> kp_is_active p \<noteq> None"

definition batch_changed :: "batch_request \<Rightarrow> bool" where
  "batch_changed q \<longleftrightarrow> bq_reset_cooldown q \<or>
     (case bq_patch q of None \<Rightarrow> False | Some p \<Rightarrow> patch_changes p) \<or> bq_soft_delete q"

definition batch_change :: "batch_request \<Rightarrow> api_key \<Rightarrow> api_key" where
  "batch_change q k =
     (let k1 = (if bq_reset_cooldown q then reset_cooldown k else k);
          k2 = (case bq_patch q of None \<Rightarrow> k1 | Some p \<Rightarrow> apply_patch p k1)
      in if bq_soft_delete q then soft_delete_key k2 else k2)"

datatype batch_row =
    Row_ok int json json
  | Row_failed int string string

definition internal_row :: "int \<Rightarrow> batch_row" where
  "internal_row kid = Row_failed kid ''INTERNAL_ERROR'' ''Internal error''"

definition error_row :: "int \<Rightarrow> fcam_error \<Rightarrow> batch_row" where
  "error_row kid err = Row_failed kid (e_code err) (e_message err)"

fun row_id :: "batch_row \<Rightarrow> int" where
  "row_id (Row_ok kid item test) = kid"
| "row_id (Row_failed kid code msg) = kid"

fun row_ok :: "batch_row \<Rightarrow> bool" where
  "row_ok (Row_ok kid item test) = True"
| "row_ok (Row_failed kid code msg) = False"

definition batch_one :: "'b backend \<Rightarrow> admin_request \<Rightarrow> batch_request \<Rightarrow> int \<Rightarrow> 'b app \<Rightarrow> batch_row \<times> 'b app" where
  "batch_one ops ar q key_id s =
     (case key_row key_id s of
        None \<Rightarrow> (error_row key_id not_found, rollback_app s)
      | Some k \<Rightarrow>
          (let k' = batch_change q k;
               s1 = on_key key_id (\<lambda>_. k') s;
               (r, s2) = (if batch_changed q
                          then attempt [op_do (key_audit ar ''key.batch'' k'), op_commit, op_read] s1
                          else (None, s1))
           in (case r of
                 Some exc \<Rightarrow> (internal_row key_id, s2)
               | None \<Rightarrow>
                   (case answer_key ops key_id s2 of
                      (Inl err, s3) \<Rightarrow> (internal_row key_id, s3)
                    | (Inr item, s3) \<Rightarrow> (Row_ok key_id item JNull, s3)))))"

fun batch_all :: "'b backend \<Rightarrow> admin_request \<Rightarrow> batch_request \<Rightarrow> int list \<Rightarrow> 'b app \<Rightarrow> batch_row list \<times> 'b app" where
  "batch_all ops ar q [] s = ([], s)"
| "batch_all ops ar q (kid # ids) s =
     (let (row, s1) = batch_one ops ar q kid s; (rows, s2) = batch_all ops ar q ids s1 in (row # rows, s2))"

text \<open>
  \<open>_test_one\<close>, in a session of its own. The pool of threads is one order of the tests, that of the rows;
  they share the backend, the upstream and the database only.
\<close>

definition test_one ::
  "'b backend \<Rightarrow> env \<Rightarrow> forwarder \<Rightarrow> admin_request \<Rightarrow> string \<Rightarrow> string \<Rightarrow> int \<Rightarrow> 'b app \<Rightarrow> batch_row \<times> 'b app" where
  "test_one ops e fw ar mode test_url key_id s0 =
     (let s = s0\<lparr>sess := open_session (db (sess s0)) (faults (sess s0))\<rparr> in
      case key_row key_id s of
        None \<Rightarrow> (error_row key_id not_found, s)
      | Some k \<Rightarrow>
          (case test_key ops e fw (ar_request_id ar) k mode test_url s of
             (Inl err, s1) \<Rightarrow> (error_row key_id err, rollback_app s1)
           | (Inr r, s1) \<Rightarrow>
               (case attempt [op_do (key_audit ar ''key.test'' k), op_commit, op_read] s1 of
                  (Some exc, s2) \<Rightarrow> (internal_row key_id, s2)
                | (None, s2) \<Rightarrow>
                    (case answer_key ops key_id s2 of
                       (Inl err, s3) \<Rightarrow> (internal_row key_id, s3)
                     | (Inr item, s3) \<Rightarrow>
                         (Row_ok key_id item (JObj [(''ok'', JBool (kt_ok r)),
                            (''upstream_status_code'', int_opt (kt_upstream_status r)),
                            (''latency_ms'', JInt (kt_latency_ms r))]), s3)))))"

fun test_rows ::
  "'b backend \<Rightarrow> env \<Rightarrow> forwarder \<Rightarrow> admin_request \<Rightarrow> string \<Rightarrow> string \<Rightarrow> batch_row list \<Rightarrow> 'b app
     \<Rightarrow> batch_row list \<times> 'b app" where
  "test_rows ops e fw ar mode test_url [] s = ([], s)"
| "test_rows ops e fw ar mode test_url (row # rows) s =
     (let (row1, s1) = (if row_ok row then test_one ops e fw ar mode test_url (row_id row) s else (row, s));
          (rows2, s2) = test_rows ops e fw ar mode test_url rows s1
      in (row1 # rows2, s2))"

fun row_json :: "batch_row \<Rightarrow> json" where
  "row_json (Row_ok kid item test) =
     JObj [(''id'', JInt kid), (''ok'', JBool True), (''key'', item), (''test'', test)]"
| "row_json (Row_failed kid code msg) =
     JObj [(''id'', JInt kid), (''ok'', JBool False),
           (''error'', JObj [(''code'', JStr code), (''message'', JStr msg)])]"

definition batch_providers :: "int list \<Rightarrow> 'b app \<Rightarrow> string list" where
  "batch_providers ids s =
     remdups (map k_provider (filter (\<lambda>k. k_id k \<in> set ids) (t_keys (cur (sess s)))))"

definition mixed_providers :: "string list \<Rightarrow> fcam_error" where
  "mixed_providers ps =
     fcam 400 ''MIXED_PROVIDER_BATCH'' (''Batch test does not support mixed providers: '' @ join '', '' ps)"

definition batch_keys ::
  "'b backend \<Rightarrow> env \<Rightarrow> forwarder \<Rightarrow> admin_request \<Rightarrow> batch_request \<Rightarrow> 'b app
     \<Rightarrow> (fcam_error + batch_row list) \<times> 'b app" where
  "batch_keys ops e fw ar q s =
     (case bq_test q of
        None \<Rightarrow> (let (rows, s1) = batch_all ops ar q (bq_ids q) s in (Inr rows, s1))
      | Some (mode, test_url) \<Rightarrow>
          if mode \<noteq> ''scrape'' then (Inl (validation_error ''Unsupported test mode''), s)
          else if 1 < length (bq_ids q) \<and> 1 < length (batch_providers (bq_ids q) s)
          then (Inl (mixed_providers (sort (batch_providers (bq_ids q) s))), s)
          else
            (let (rows, s1) = batch_all ops ar q (bq_ids q) s;
                 (rows2, s2) = test_rows ops e fw ar mode test_url rows s1
             in (Inr rows2, s2)))"

definition batch_report :: "batch_request \<Rightarrow> batch_row list \<Rightarrow> json" where
  "batch_report q rows =
     (let succeeded = int (length (filter row_ok rows)) in
      JObj [(''requested'', JInt (int (length (bq_ids q)))), (''succeeded'', JInt succeeded),
            (''failed'', JInt (int (length rows) - succeeded)), (''results'', JArr (map row_json rows))])"

subsection \<open>The quota reset\<close>

definition reset_quota :: "date \<Rightarrow> api_key \<Rightarrow> api_key" where
  "reset_quota today k =
     (let k1 = k\<lparr>k_daily_usage := 0, k_quota_reset_at := Some today\<rparr> in
      if k_status k = Quota_exceeded \<and> k_is_active k then k1\<lparr>k_status := Active\<rparr> else k1)"

definition reset_keys_quota ::
  "env \<Rightarrow> admin_request \<Rightarrow> app_config \<Rightarrow> 'b app \<Rightarrow> (fcam_error + json) \<times> 'b app" where
  "reset_keys_quota e ar cfg s =
     (let today = today_in_timezone (en_zone e) (qt_timezone (c_quota cfg)) (wall s);
          n = length (t_keys (cur (sess s)))
      in (case attempt [op_read, op_do (on_tables (\<lambda>t. t\<lparr>t_keys := map (reset_quota today) (t_keys t)\<rparr>)),
                 op_do (audit ar ''quota.reset'' ''api_key'' ''all''), op_commit] s of
            (Some exc, s1) \<Rightarrow> (Inl db_unavailable, s1)
          | (None, s1) \<Rightarrow>
              (Inr (JObj [(''ok'', JBool True),
                          (''reset_at'', JStr (rfc3339 (wall s1 div day_usec * day_usec))),
                          (''affected_keys'', JInt (int n))]), s1)))"

end
