(* ===== verification/Admin_Clients.thy ===== *)
theory Admin_Clients
  imports Admin_Key_Ops
begin

text \<open>
  The handlers of \<open>app/api/control_plane.py\<close> that administer clients, with
  \<open>app/core/batch_clients.py\<close>. The random token (\<open>secrets.token_urlsafe(32)\<close>) is an argument.
\<close>

subsection \<open>Listing, creation, update\<close>

definition list_clients :: "'b app \<Rightarrow> (fcam_error + json) \<times> 'b app" where
  "list_clients s =
     (case db_query (\<lambda>s. by_id_desc c_id (filter (\<lambda>c. c_status c \<noteq> Cl_deleted) (t_clients (cur (sess s))))) s of
        (Inl err, s1) \<Rightarrow> (Inl err, s1)
      | (Inr cs, s1) \<Rightarrow> (Inr (JObj [(''items'', JArr (map client_item cs))]), s1))"

record create_client_request =
  cc_name :: string
  cc_daily_quota :: "int option"
  cc_rate_limit_per_min :: int
  cc_max_concurrent :: int
  cc_is_active :: bool

definition client_token :: "string \<Rightarrow> string" where
  "client_token random = ''fcam_client_'' @ random"

definition token_hash :: "crypto \<Rightarrow> string \<Rightarrow> string \<Rightarrow> string" where
  "token_hash cr master token = cr_hmac_hex cr (derive_master_key_bytes cr master) token"

definition client_state :: "bool \<Rightarrow> client_status" where
  "client_state b = (if b then Cl_active else Cl_disabled)"

definition new_client :: "create_client_request \<Rightarrow> string \<Rightarrow> date \<Rightarrow> int \<Rightarrow> instant \<Rightarrow> client" where
  "new_client p hash today cid now =
     \<lparr>c_id = cid, c_name = cc_name p, c_token_hash = hash, c_is_active = cc_is_active p,
      c_daily_quota = cc_daily_quota p, c_daily_usage = 0, c_quota_reset_at = Some today,
      c_rate_limit_per_min = cc_rate_limit_per_min p, c_max_concurrent = cc_max_concurrent p,
      c_created_at = now, c_last_used_at = None, c_status = client_state (cc_is_active p)\<rparr>"

definition add_client :: "client \<Rightarrow> 'b app \<Rightarrow> 'b app" where
  "add_client c = on_tables (\<lambda>t. t\<lparr>t_clients := t_clients t @ [c]\<rparr>)"

definition client_exists :: fcam_error where
  "client_exists = validation_error ''Client already exists''"

text \<open>The row as it is now (after \<open>db.refresh\<close>).\<close>

definition answer_client :: "int \<Rightarrow> (json \<Rightarrow> json) \<Rightarrow> 'b app \<Rightarrow> (fcam_error + json) \<times> 'b app" where
  "answer_client cid f s =
     (case get_client cid (sess s) of
        None \<Rightarrow> (Inl db_unavailable, s)
      | Some c \<Rightarrow> (Inr (f (client_item c)), s))"

definition create_client ::
  "env \<Rightarrow> admin_request \<Rightarrow> app_config \<Rightarrow> secrets \<Rightarrow> string \<Rightarrow> create_client_request \<Rightarrow> 'b app
     \<Rightarrow> (fcam_error + json) \<times> 'b app" where
  "create_client e ar cfg secrets random p s =
     (case set_secret (sec_master_key secrets) of
        None \<Rightarrow> (Inl master_key_missing, s)
      | Some master \<Rightarrow>
          (let token = client_token random;
               today = today_in_timezone (en_zone e) (qt_timezone (c_quota cfg)) (wall s);
               cid = fresh_id (map c_id (t_clients (cur (sess s))));
               c = new_client p (token_hash (en_crypto e) master token) today cid (wall s)
           in (case attempt [op_do (add_client c), op_flush, op_do (client_audit ar ''client.create'' cid),
                     op_commit, op_read] s of
                 (Some exc, s1) \<Rightarrow> (Inl (db_failure client_exists exc), s1)
               | (None, s1) \<Rightarrow>
                   answer_client cid (\<lambda>item. JObj [(''client'', item), (''token'', JStr token)]) s1)))"

text \<open>
  \<open>UpdateClientRequest\<close> as \<open>model_dump(exclude_unset=True)\<close>: \<open>Some None\<close> is a field given as \<open>null\<close>. A
  quota may be \<open>null\<close>; for the two limits the column forbids it, so the commit fails; \<open>bool(None)\<close> is false.
\<close>

record update_client_request =
  uc_daily_quota :: "int option option"
  uc_rate_limit_per_min :: "int option option"
  uc_max_concurrent :: "int option option"
  uc_is_active :: "bool option option"

definition apply_client_update :: "update_client_request \<Rightarrow> client \<Rightarrow> client" where
  "apply_client_update p c =
     (let c1 = (case uc_daily_quota p of None \<Rightarrow> c | Some q \<Rightarrow> c\<lparr>c_daily_quota := q\<rparr>);
          c2 = (case uc_rate_limit_per_min p of Some (Some n) \<Rightarrow> c1\<lparr>c_rate_limit_per_min := n\<rparr> | _ \<Rightarrow> c1);
          c3 = (case uc_max_concurrent p of Some (Some n) \<Rightarrow> c2\<lparr>c_max_concurrent := n\<rparr> | _ \<Rightarrow> c2)
      in (case uc_is_active p of
            None \<Rightarrow> c3
          | Some b \<Rightarrow> c3\<lparr>c_is_active := (b = Some True), c_status := client_state (b = Some True)\<rparr>))"

definition nulls_limit :: "update_client_request \<Rightarrow> bool" where
  "nulls_limit p \<longleftrightarrow> uc_rate_limit_per_min p = Some None \<or> uc_max_concurrent p = Some None"

definition op_not_null :: "bool \<Rightarrow> 'b db_op" where
  "op_not_null violated s = (if violated then Some Integrity_error else None, s)"

definition update_client ::
  "admin_request \<Rightarrow> int \<Rightarrow> update_client_request \<Rightarrow> 'b app \<Rightarrow> (fcam_error + json) \<times> 'b app" where
  "update_client ar client_id p s =
     (case get_client client_id (sess s) of
        None \<Rightarrow> (Inl not_found, s)
      | Some c \<Rightarrow>
          if c_status c = Cl_deleted then (Inl not_found, s)
          else
            (case attempt [op_do (client_audit ar ''client.update'' client_id), op_not_null (nulls_limit p),
                     op_commit, op_read]
                    (on_client client_id (apply_client_update p) s) of
               (Some exc, s1) \<Rightarrow> (Inl db_unavailable, s1)
             | (None, s1) \<Rightarrow> answer_client client_id (\<lambda>item. item) s1))"

subsection \<open>Deletion, purge, rotation\<close>

definition delete_client_row :: "client \<Rightarrow> client" where
  "delete_client_row c = c\<lparr>c_is_active := False, c_status := Cl_deleted\<rparr>"

definition delete_client :: "admin_request \<Rightarrow> int \<Rightarrow> 'b app \<Rightarrow> (fcam_error + unit) \<times> 'b app" where
  "delete_client ar client_id s =
     (if get_client client_id (sess s) = None then (Inl not_found, s)
      else
        (case attempt [op_do (client_audit ar ''client.delete'' client_id), op_commit]
                (on_client client_id delete_client_row s) of
           (Some exc, s1) \<Rightarrow> (Inl db_unavailable, s1)
         | (None, s1) \<Rightarrow> (Inr (), s1)))"

definition unlink_client :: "int \<Rightarrow> tables \<Rightarrow> tables" where
  "unlink_client cid t =
     t\<lparr>t_keys := upd_where (\<lambda>k. k_client_id k = Some cid) (\<lambda>k. k\<lparr>k_client_id := None\<rparr>) (t_keys t),
       t_logs := upd_where (\<lambda>l. l_client_id l = Some cid) (\<lambda>l. l\<lparr>l_client_id := None\<rparr>) (t_logs t),
       t_idem := filter (\<lambda>r. i_client_id r \<noteq> cid) (t_idem t)\<rparr>"

definition remove_client :: "int \<Rightarrow> tables \<Rightarrow> tables" where
  "remove_client cid t = t\<lparr>t_clients := filter (\<lambda>c. c_id c \<noteq> cid) (t_clients t)\<rparr>"

definition purge_client :: "bool \<Rightarrow> admin_request \<Rightarrow> int \<Rightarrow> 'b app \<Rightarrow> (fcam_error + unit) \<times> 'b app" where
  "purge_client fk ar client_id s =
     (if get_client client_id (sess s) = None then (Inl not_found, s)
      else
        (case attempt [op_do (on_tables (unlink_client client_id)),
                  op_do (client_audit ar ''client.purge'' client_id),
                  op_do (on_tables (remove_client client_id)), op_check_refs fk, op_commit] s of
           (Some exc, s1) \<Rightarrow> (Inl db_unavailable, s1)
         | (None, s1) \<Rightarrow> (Inr (), s1)))"

definition rotate_client_token ::
  "env \<Rightarrow> admin_request \<Rightarrow> secrets \<Rightarrow> string \<Rightarrow> int \<Rightarrow> 'b app \<Rightarrow> (fcam_error + string) \<times> 'b app" where
  "rotate_client_token e ar secrets random client_id s =
     (case set_secret (sec_master_key secrets) of
        None \<Rightarrow> (Inl master_key_missing, s)
      | Some master \<Rightarrow>
          if get_client client_id (sess s) = None then (Inl not_found, s)
          else
            (let token = client_token random;
                 s1 = on_client client_id (\<lambda>c. c\<lparr>c_token_hash := token_hash (en_crypto e) master token\<rparr>) s
             in (case attempt [op_do (client_audit ar ''client.rotate'' client_id), op_commit] s1 of
                   (Some exc, s2) \<Rightarrow> (Inl db_unavailable, s2)
                 | (None, s2) \<Rightarrow> (Inr token, s2))))"

definition rotate_answer :: "int \<Rightarrow> string \<Rightarrow> json" where
  "rotate_answer client_id token = JObj [(''client_id'', JInt client_id), (''token'', JStr token)]"

subsection \<open>Batches\<close>

text \<open>\<open>list(dict.fromkeys(client_ids))\<close>: the first occurrence of each id, in order.\<close>

fun dedup_from :: "int list \<Rightarrow> int list \<Rightarrow> int list" where
  "dedup_from seen [] = []"
| "dedup_from seen (x # xs) = (if x \<in> set seen then dedup_from seen xs else x # dedup_from (x # seen) xs)"

definition deduplicate_client_ids :: "int list \<Rightarrow> int list" where
  "deduplicate_client_ids ids = dedup_from [] ids"

datatype batch_action = Enable | Disable | Delete

fun action_text :: "batch_action \<Rightarrow> string" where
  "action_text Enable = ''enable''"
| "action_text Disable = ''disable''"
| "action_text Delete = ''delete''"

definition apply_batch_action_to_client :: "string \<Rightarrow> client \<Rightarrow> string + client" where
  "apply_batch_action_to_client action c =
     (if action = ''enable'' then Inr (c\<lparr>c_is_active := True, c_status := Cl_active\<rparr>)
      else if action = ''disable'' then Inr (c\<lparr>c_is_active := False, c_status := Cl_disabled\<rparr>)
      else if action = ''delete'' then Inr (c\<lparr>c_is_active := False, c_status := Cl_deleted\<rparr>)
      else Inl (''Unknown batch action: '' @ action))"

record batch_outcome =
  bo_success_count :: int
  bo_failed_count :: int
  bo_failed_items :: "(int \<times> string) list"

definition batch_failed :: "int \<Rightarrow> string \<Rightarrow> batch_outcome \<Rightarrow> batch_outcome" where
  "batch_failed cid msg o1 =
     o1\<lparr>bo_failed_count := bo_failed_count o1 + 1, bo_failed_items := bo_failed_items o1 @ [(cid, msg)]\<rparr>"

fun batch_clients ::
  "admin_request \<Rightarrow> string \<Rightarrow> int list \<Rightarrow> batch_outcome \<Rightarrow> 'b app \<Rightarrow> batch_outcome \<times> 'b app" where
  "batch_clients ar action [] o1 s = (o1, s)"
| "batch_clients ar action (cid # ids) o1 s =
     (case get_client cid (sess s) of
        None \<Rightarrow> batch_clients ar action ids o1 s
      | Some c \<Rightarrow>
          (case apply_batch_action_to_client action c of
             Inl msg \<Rightarrow> batch_clients ar action ids (batch_failed cid msg o1) s
           | Inr c' \<Rightarrow>
               batch_clients ar action ids (o1\<lparr>bo_success_count := bo_success_count o1 + 1\<rparr>)
                 (client_audit ar (''client.batch.'' @ action) cid (on_client cid (\<lambda>_. c') s))))"

definition missing_clients :: "int list \<Rightarrow> 'b app \<Rightarrow> batch_outcome" where
  "missing_clients ids s =
     foldl (\<lambda>o1 cid. if get_client cid (sess s) = None then batch_failed cid ''Client not found'' o1 else o1)
       \<lparr>bo_success_count = 0, bo_failed_count = 0, bo_failed_items = []\<rparr> ids"

definition batch_update_clients ::
  "admin_request \<Rightarrow> int list \<Rightarrow> batch_action \<Rightarrow> 'b app \<Rightarrow> (fcam_error + batch_outcome) \<times> 'b app" where
  "batch_update_clients ar client_ids action s =
     (let ids = deduplicate_client_ids client_ids;
          (o1, s1) = batch_clients ar (action_text action) ids (missing_clients ids s) s
      in (case attempt [op_commit] s1 of
            (Some exc, s2) \<Rightarrow> (Inl db_unavailable, s2)
          | (None, s2) \<Rightarrow> (Inr o1, s2)))"

text \<open>The loop that removes duplicates is the specification: each id once, in the order of first use.\<close>

lemma remdups_snoc: "remdups (ys @ [x]) = filter (\<lambda>y. y \<noteq> x) (remdups ys) @ [x]"
  by (induction ys) auto

lemma dedup_from: "dedup_from seen xs = filter (\<lambda>x. x \<notin> set seen) (rev (remdups (rev xs)))"
proof (induction xs arbitrary: seen)
  case (Cons x xs)
  have "filter P (rev (remdups (rev (x # xs)))) =
      (if P x then [x] else []) @ filter (\<lambda>y. P y \<and> y \<noteq> x) (rev (remdups (rev xs)))" for P
    by (simp add: remdups_snoc rev_filter conj_commute)
  with Cons show ?case by (auto simp: conj_commute intro!: filter_cong)
qed simp

lemma deduplicate_reference: "deduplicate_client_ids ids = rev (remdups (rev ids))"
  by (simp add: deduplicate_client_ids_def dedup_from)

lemma deduplicate_sel [simp]:
  "set (deduplicate_client_ids ids) = set ids" "distinct (deduplicate_client_ids ids)"
  by (simp_all add: deduplicate_reference)

end
