(* ===== verification/Admin_Facts.thy ===== *)
theory Admin_Facts
  imports Admin_Clients Data_Plane_Facts
begin

text \<open>
  What the handlers of the control plane keep. \<open>table_invariant\<close> is the interface: a predicate on tables
  that survives every way the program writes rows. Under it each handler keeps the predicate in both views
  of a session; it is interpreted for the well-formedness of the rows and for a key that is switched off.
\<close>

named_theorems kept_intros \<open>operations that keep an invariant of the tables\<close>

definition kept :: "(tables \<Rightarrow> bool) \<Rightarrow> 'b app \<Rightarrow> bool" where
  "kept I s \<longleftrightarrow> I (cur (sess s)) \<and> I (db (sess s)) \<and> unique_ok (db (sess s))"

definition kept_op :: "(tables \<Rightarrow> bool) \<Rightarrow> 'b db_op \<Rightarrow> bool" where
  "kept_op I f \<longleftrightarrow> (\<forall>s. kept I s \<longrightarrow> kept I (snd (f s)))"

text \<open>
  The keys in \<open>free\<close> may be changed at will; the others keep their id, are not removed, and are never
  switched on.
\<close>

definition changes_to :: "(int \<Rightarrow> bool) \<Rightarrow> api_key \<Rightarrow> api_key \<Rightarrow> bool" where
  "changes_to free k k' \<longleftrightarrow> k_id k' = k_id k \<and> (free (k_id k) \<or> (k_is_active k' \<longrightarrow> k_is_active k))"

definition coherent_client :: "client \<Rightarrow> bool" where
  "coherent_client c \<longleftrightarrow> (c_is_active c \<longleftrightarrow> c_status c = Cl_active)"

locale table_invariant =
  fixes I :: "tables \<Rightarrow> bool" and free :: "int \<Rightarrow> bool"
  assumes I_same: "t_keys t' = t_keys t \<Longrightarrow> t_clients t' = t_clients t \<Longrightarrow> I t \<Longrightarrow> I t'"
    and I_ids: "I t \<Longrightarrow> distinct (map k_id (t_keys t))"
    and I_keys: "(\<And>k. k \<in> set (t_keys t) \<Longrightarrow> P k \<Longrightarrow> changes_to free k (f k)) \<Longrightarrow> I t \<Longrightarrow> I (t\<lparr>t_keys := upd_where P f (t_keys t)\<rparr>)"
    and I_add_key: "k_id k \<notin> k_id ` set (t_keys t) \<Longrightarrow> I t \<Longrightarrow> I (t\<lparr>t_keys := t_keys t @ [k]\<rparr>)"
    and I_del_key: "free kid \<Longrightarrow> I t \<Longrightarrow> I (t\<lparr>t_keys := filter (\<lambda>k. k_id k \<noteq> kid) (t_keys t)\<rparr>)"
    and I_clients: "(\<And>c. Q c \<Longrightarrow> c_id (g c) = c_id c \<and> (coherent_client c \<longrightarrow> coherent_client (g c))) \<Longrightarrow> I t \<Longrightarrow>
      I (t\<lparr>t_clients := upd_where Q g (t_clients t)\<rparr>)"
    and I_add_client: "c_id c \<notin> c_id ` set (t_clients t) \<Longrightarrow> coherent_client c \<Longrightarrow> I t \<Longrightarrow>
      I (t\<lparr>t_clients := t_clients t @ [c]\<rparr>)"
    and I_del_client: "I t \<Longrightarrow> I (t\<lparr>t_clients := filter (\<lambda>c. c_id c \<noteq> cid) (t_clients t)\<rparr>)"
begin

lemma kept_views:
  "cur (sess s') = cur (sess s) \<Longrightarrow> db (sess s') = db (sess s) \<Longrightarrow> kept I s \<Longrightarrow> kept I s'"
  by (simp add: kept_def)

lemma kept_rollback [kept_intros]: "kept I s \<Longrightarrow> kept I (s\<lparr>sess := rollback (sess s)\<rparr>)"
  by (simp add: kept_def rollback_def)

lemma kept_on_tables:
  "t_keys (f (cur (sess s))) = t_keys (cur (sess s)) \<Longrightarrow> t_clients (f (cur (sess s))) = t_clients (cur (sess s)) \<Longrightarrow>
    kept I s \<Longrightarrow> kept I (on_tables f s)"
  using I_same [of "f (cur (sess s))" "cur (sess s)"] by (simp add: kept_def)

subsection \<open>Transactions\<close>

lemma kept_read: "kept I s \<Longrightarrow> kept I (snd (op_read s))"
  using op_read_views [of s "fst (op_read s)" "snd (op_read s)"] by (simp add: kept_def)

lemma kept_flush: "kept I s \<Longrightarrow> kept I (snd (op_flush s))"
  using op_flush_views [of s "fst (op_flush s)" "snd (op_flush s)"] by (simp add: kept_def)

lemma kept_commit: "kept I s \<Longrightarrow> kept I (snd (op_commit s))"
  using op_commit_views [of s "fst (op_commit s)" "snd (op_commit s)"] by (simp add: kept_def split: if_splits)

lemma kept_ops [kept_intros]:
  "kept_op I op_read" "kept_op I op_flush" "kept_op I op_commit" "kept_op I (op_check_refs fk)"
  "kept_op I (op_not_null v)"
  by (simp_all add: kept_op_def kept_read kept_flush kept_commit op_check_refs_def op_not_null_def Let_def)

lemma kept_op_do [kept_intros]: "(\<And>s. kept I s \<Longrightarrow> kept I (f s)) \<Longrightarrow> kept_op I (op_do f)"
  by (simp add: kept_op_def op_do_def)

lemma attempt_kept:
  assumes "attempt fs s = (r, s')" and "\<forall>f \<in> set fs. kept_op I f" and "kept I s"
  shows "kept I s'"
  using assms
proof (induction fs arbitrary: s)
  case (Cons f fs)
  obtain x t where x: "f s = (x, t)" by (cases "f s")
  have t: "kept I t" using Cons.prems x by (auto simp: kept_op_def)
  show ?case
    using Cons.prems(1,2) Cons.IH [of t] t x kept_rollback [OF t] by (cases x) auto
qed simp

lemma audit_kept [kept_intros]: "kept I s \<Longrightarrow> kept I (audit ar a rt ri s)"
  unfolding audit_def by (rule kept_on_tables) simp_all

lemma key_audit_kept [kept_intros]: "kept I s \<Longrightarrow> kept I (key_audit ar a k s)"
  by (simp add: key_audit_def audit_kept)

lemma client_audit_kept [kept_intros]: "kept I s \<Longrightarrow> kept I (client_audit ar a cid s)"
  by (simp add: client_audit_def audit_kept)

subsection \<open>Rows\<close>

lemma on_key_kept:
  assumes "\<And>k. k \<in> set (t_keys (cur (sess s))) \<Longrightarrow> k_id k = kid \<Longrightarrow> changes_to free k (f k)" and "kept I s"
  shows "kept I (on_key kid f s)"
  using assms(2) I_keys [of "cur (sess s)" "\<lambda>k. k_id k = kid" f] assms(1)
  by (simp add: kept_def on_key_def upd_key_def)

lemma put_key_kept:
  assumes "k \<in> set (t_keys (cur (sess s)))" and "changes_to free k k'" and "kept I s"
  shows "kept I (on_key (k_id k) (\<lambda>_. k') s)"
proof (rule on_key_kept [OF _ assms(3)])
  fix j assume "j \<in> set (t_keys (cur (sess s)))" "k_id j = k_id k"
  moreover have "inj_on k_id (set (t_keys (cur (sess s))))"
    using I_ids assms(3) by (simp add: kept_def distinct_map)
  ultimately show "changes_to free j k'" using assms(1,2) by (metis inj_on_def)
qed

lemma put_free_key_kept: "free kid \<Longrightarrow> k_id k' = kid \<Longrightarrow> kept I s \<Longrightarrow> kept I (on_key kid (\<lambda>_. k') s)"
  by (rule on_key_kept) (simp_all add: changes_to_def)

lemma on_client_kept:
  assumes "\<And>c. c_id c = cid \<Longrightarrow> c_id (f c) = cid"
    and "\<And>c. c_id c = cid \<Longrightarrow> coherent_client c \<Longrightarrow> coherent_client (f c)"
    and "kept I s"
  shows "kept I (on_client cid f s)"
  using assms(3) I_clients [of "\<lambda>c. c_id c = cid" f "cur (sess s)"] assms(1,2)
  by (simp add: kept_def on_client_def upd_client_def)

lemma add_key_kept: "k_id k = next_key_id s \<Longrightarrow> kept I s \<Longrightarrow> kept I (add_key k s)"
  using I_add_key [of k "cur (sess s)"] fresh_id_fresh [of "map k_id (t_keys (cur (sess s)))"]
  by (simp add: kept_def add_key_def next_key_id_def)

lemma add_client_kept:
  "c_id c = fresh_id (map c_id (t_clients (cur (sess s)))) \<Longrightarrow> coherent_client c \<Longrightarrow> kept I s \<Longrightarrow>
    kept I (add_client c s)"
  using I_add_client [of c "cur (sess s)"] fresh_id_fresh [of "map c_id (t_clients (cur (sess s)))"]
  by (simp add: kept_def add_client_def)

lemma changes_off: "k_id k' = k_id k \<Longrightarrow> (k_is_active k' \<Longrightarrow> k_is_active k) \<Longrightarrow> changes_to free k k'"
  by (simp add: changes_to_def)

lemma changes_free: "free (k_id k) \<Longrightarrow> k_id k' = k_id k \<Longrightarrow> changes_to free k k'"
  by (simp add: changes_to_def)

lemma unlink_key_logs_kept [kept_intros]: "kept I s \<Longrightarrow> kept I (on_tables (unlink_key_logs kid) s)"
  by (rule kept_on_tables) (simp_all add: unlink_key_logs_def)

lemma remove_key_kept: "free kid \<Longrightarrow> kept I s \<Longrightarrow> kept I (on_tables (remove_key kid) s)"
  using I_same [of "remove_key kid (cur (sess s))" "(cur (sess s))\<lparr>t_keys := filter (\<lambda>k. k_id k \<noteq> kid) (t_keys (cur (sess s)))\<rparr>"]
    I_del_key [of kid "cur (sess s)"]
  by (simp add: kept_def remove_key_def)

lemma unlink_client_kept [kept_intros]: "kept I s \<Longrightarrow> kept I (on_tables (unlink_client cid) s)"
  using I_same [of "unlink_client cid (cur (sess s))" "(cur (sess s))\<lparr>t_keys := upd_where (\<lambda>k. k_client_id k = Some cid)
      (\<lambda>k. k\<lparr>k_client_id := None\<rparr>) (t_keys (cur (sess s)))\<rparr>"]
    I_keys [of "cur (sess s)" "\<lambda>k. k_client_id k = Some cid" "\<lambda>k. k\<lparr>k_client_id := None\<rparr>"]
  by (simp add: kept_def unlink_client_def changes_to_def)

lemma remove_client_kept [kept_intros]: "kept I s \<Longrightarrow> kept I (on_tables (remove_client cid) s)"
  using I_del_client [of "cur (sess s)" cid] by (simp add: kept_def remove_client_def)

lemma reset_quota_kept [kept_intros]:
  "kept I s \<Longrightarrow> kept I (on_tables (\<lambda>t. t\<lparr>t_keys := map (reset_quota today) (t_keys t)\<rparr>) s)"
proof -
  have "upd_where (\<lambda>_. True) (reset_quota today) ks = map (reset_quota today) ks" for ks by (simp add: upd_where_def)
  moreover have "changes_to free k (reset_quota today k)" for k
    by (simp add: changes_to_def reset_quota_def Let_def)
  ultimately show "kept I s \<Longrightarrow> ?thesis"
    using I_keys [of "cur (sess s)" "\<lambda>_. True" "reset_quota today"] by (simp add: kept_def)
qed

end

lemma key_item_sess:
  assumes "key_item ops k s = (item, s')"
  shows "cur (sess s') = cur (sess s) \<and> db (sess s') = db (sess s) \<and> wall s' = wall s"
proof -
  obtain n b where b: "be_current ops (clk_of s) (show_int (k_id k)) (kback s) = (n, b)" by force
  obtain x t where x: "op_read (s\<lparr>kback := b\<rparr>) = (x, t)" by (cases "op_read (s\<lparr>kback := b\<rparr>)")
  from op_read_views [OF x] assms b x show ?thesis
    by (auto simp: key_item_def cached_total_def Let_def split: option.splits prod.splits)
qed

lemma answer_key_sess:
  assumes "answer_key ops kid s = (r, s')"
  shows "cur (sess s') = cur (sess s) \<and> db (sess s') = db (sess s) \<and> wall s' = wall s"
  using assms by (auto simp: answer_key_def split: option.splits prod.splits dest: key_item_sess)

lemma answer_client_sess: "answer_client cid f s = (r, s') \<Longrightarrow> s' = s"
  by (auto simp: answer_client_def split: option.splits)

lemma change_ids [simp]:
  "k_id (apply_update p k) = k_id k" "k_id (replace_api_key cr mk n t k) = k_id k" "k_id (soft_delete_key k) = k_id k"
  "k_id (batch_change q k) = k_id k"
  by (simp_all add: apply_update_def opt_set_def set_is_active_def set_daily_quota_def replace_api_key_def
      soft_delete_key_def batch_change_def reset_cooldown_def apply_patch_def Let_def split: option.splits)

lemma assign_client_id: "assign_client cid k s = Inr k' \<Longrightarrow> k_id k' = k_id k"
  by (auto simp: assign_client_def split: option.splits if_splits)

lemma key_row_id: "key_row kid s = Some k \<Longrightarrow> k_id k = kid"
  by (simp add: key_row_def get_key_id)

context table_invariant begin

lemma answer_key_kept: "answer_key ops kid s = (r, s') \<Longrightarrow> kept I s \<Longrightarrow> kept I s'"
  by (rule kept_views) (simp_all add: answer_key_sess)

subsection \<open>Handlers\<close>

declare attempt.simps(2) [simp del]

text \<open>The end all handlers have: a transaction, its error, and the answer.\<close>

lemma attempt_kept_snd: "kept I s \<Longrightarrow> \<forall>f \<in> set fs. kept_op I f \<Longrightarrow> kept I (snd (attempt fs s))"
  using attempt_kept [of fs s "fst (attempt fs s)" "snd (attempt fs s)"] by simp

lemma transaction_kept [kept_intros]:
  assumes "kept I t" and "\<forall>f \<in> set fs. kept_op I f" and "\<And>u. kept I u \<Longrightarrow> kept I (snd (h u))"
  shows "kept I (snd (case attempt fs t of (None, u) \<Rightarrow> h u | (Some exc, u) \<Rightarrow> (Inl (g exc), u)))"
proof -
  obtain x u where x: "attempt fs t = (x, u)" by (cases "attempt fs t")
  with attempt_kept [OF x assms(2,1)] assms(3) show ?thesis by (cases x) auto
qed

lemma answer_key_kept_snd [kept_intros]: "kept I s \<Longrightarrow> kept I (snd (answer_key ops kid s))"
  using answer_key_kept [of ops kid s "fst (answer_key ops kid s)" "snd (answer_key ops kid s)"] by simp

lemma answer_client_kept [kept_intros]: "kept I s \<Longrightarrow> kept I (snd (answer_client cid f s))"
  using answer_client_sess [of cid f s "fst (answer_client cid f s)" "snd (answer_client cid f s)"] by simp

lemma new_key_id [simp]: "k_id (new_key cr mk nonce t c n ks today kid now) = kid"
  by (simp add: new_key_def)

lemma create_key_kept: "kept I s \<Longrightarrow> kept I (snd (create_key ops e ar cfg secrets nonce p s))"
  unfolding create_key_def Let_def
  by (auto split: option.split sum.split intro!: kept_intros add_key_kept)

lemma assigned_id: "assign_client cid k s = Inr k' \<Longrightarrow> key_row kid s = Some k \<Longrightarrow> k_id k' = kid"
  by (simp add: assign_client_id key_row_id)

lemma update_key_kept: "free kid \<Longrightarrow> kept I s \<Longrightarrow> kept I (snd (update_key ops e ar secrets nonce kid p s))"
  unfolding update_key_def Let_def
  by (auto split: option.split sum.split intro!: kept_intros put_free_key_kept dest: assigned_id)

lemma delete_key_kept: "kept I s \<Longrightarrow> kept I (snd (delete_key ar kid s))"
  unfolding delete_key_def Let_def
  by (auto split: option.split intro!: kept_intros on_key_kept changes_off simp: soft_delete_key_def)

lemma purge_key_kept: "free kid \<Longrightarrow> kept I s \<Longrightarrow> kept I (snd (purge_key fk ar kid s))"
  unfolding purge_key_def Let_def
  by (auto split: option.split intro!: kept_intros remove_key_kept)

lemma reset_keys_quota_kept: "kept I s \<Longrightarrow> kept I (snd (reset_keys_quota e ar cfg s))"
  unfolding reset_keys_quota_def Let_def
  by (auto intro!: kept_intros)

lemma client_state_active [simp]: "client_state b = Cl_active \<longleftrightarrow> b"
  by (simp add: client_state_def)

lemma apply_client_update_row:
  "c_id (apply_client_update p c) = c_id c"
  "coherent_client c \<Longrightarrow> coherent_client (apply_client_update p c)"
  by (simp_all add: coherent_client_def apply_client_update_def Let_def split: option.split)

lemma create_client_kept: "kept I s \<Longrightarrow> kept I (snd (create_client e ar cfg secrets rnd p s))"
  unfolding create_client_def Let_def
  by (auto split: option.split intro!: kept_intros add_client_kept simp: new_client_def coherent_client_def)

lemma client_update_kept [kept_intros]: "kept I s \<Longrightarrow> kept I (on_client cid (apply_client_update p) s)"
  by (rule on_client_kept) (simp_all add: apply_client_update_row)

lemma update_client_kept: "kept I s \<Longrightarrow> kept I (snd (update_client ar cid p s))"
  unfolding update_client_def Let_def
  by (auto split: option.split intro!: kept_intros)

lemma delete_client_kept: "kept I s \<Longrightarrow> kept I (snd (delete_client ar cid s))"
  unfolding delete_client_def Let_def
  by (auto intro!: kept_intros on_client_kept simp: delete_client_row_def coherent_client_def)

lemma purge_client_kept: "kept I s \<Longrightarrow> kept I (snd (purge_client fk ar cid s))"
  unfolding purge_client_def Let_def
  by (auto intro!: kept_intros)

lemma rotate_client_token_kept: "kept I s \<Longrightarrow> kept I (snd (rotate_client_token e ar secrets rnd cid s))"
  unfolding rotate_client_token_def Let_def
  by (auto split: option.split intro!: kept_intros on_client_kept simp: coherent_client_def)

text \<open>The import: every line in a savepoint of its own.\<close>

lemma savepoint_kept: "kept I s \<Longrightarrow> kept I (snd (f s)) \<Longrightarrow> kept I (snd (savepoint f s))"
  by (auto simp: savepoint_def kept_def split: prod.splits option.splits)

lemma imported_key_id [simp]: "k_id (imported_key cr mk nonce cid ks today kid now n i) = kid"
  by (simp add: imported_key_def)

lemma merge_existing_id: "k_id (fst (merge_existing cid new k)) = k_id k"
  by (simp add: merge_existing_def Let_def)

text \<open>A step whose result decides what comes next.\<close>

lemma pair_kept:
  "kept I (snd p) \<Longrightarrow> (\<And>r u. p = (r, u) \<Longrightarrow> kept I u \<Longrightarrow> kept I (snd (h r u))) \<Longrightarrow>
    kept I (snd (case p of (r, u) \<Rightarrow> h r u))"
  by (cases p) simp

lemma merge_kept:
  assumes "kept I s" and "k \<in> set (t_keys (cur (sess s)))" and "changes_to free k k'"
  shows "kept I (snd (savepoint (\<lambda>s. op_flush (key_audit ar a k' (on_key (k_id k) (\<lambda>_. k') s))) s))"
  using assms by (intro savepoint_kept kept_flush key_audit_kept put_key_kept)

lemma merge_existing_changes: "changes_to free k (fst (merge_existing cid new k))"
  by (simp add: changes_to_def merge_existing_def Let_def)

lemma import_duplicate_kept: "kept I s \<Longrightarrow> kept I (snd (import_duplicate ar txt cid i new im s))"
  unfolding import_duplicate_def Let_def case_prod_beta [of _ "merge_existing _ _ _"]
  by (auto split: option.split intro!: pair_kept merge_kept merge_existing_changes dest: find_Some_mem)

lemma import_item_kept: "kept I s \<Longrightarrow> kept I (snd (import_item e ar txt mk nonce today cid ks n i im s))"
  unfolding import_item_def Let_def
  by (auto split: option.split db_exc.split
      intro!: pair_kept savepoint_kept kept_flush add_key_kept import_duplicate_kept key_audit_kept)

lemma import_items_kept: "kept I s \<Longrightarrow> kept I (snd (import_items e ar txt mk nonce today cid ks n items im s))"
proof (induction items arbitrary: n im s)
  case (Cons i items)
  show ?case
    unfolding import_items.simps Let_def
    by (intro pair_kept import_item_kept Cons)
qed simp

lemma import_keys_text_kept: "kept I s \<Longrightarrow> kept I (snd (import_keys_text e ar cfg secrets im txt nonce p s))"
  unfolding import_keys_text_def Let_def case_prod_beta [of _ "parse_keys_text _ _"]
  by (auto split: option.split sum.split intro!: pair_kept import_items_kept attempt_kept_snd kept_ops)

text \<open>Batches.\<close>

lemma batch_one_kept: "free kid \<Longrightarrow> kept I s \<Longrightarrow> kept I (snd (batch_one ops ar q kid s))"
  unfolding batch_one_def Let_def
  by (auto split: option.split sum.split simp: key_row_id rollback_app_def
      intro!: pair_kept attempt_kept_snd kept_intros put_free_key_kept)

lemma batch_all_kept: "\<forall>kid \<in> set ids. free kid \<Longrightarrow> kept I s \<Longrightarrow> kept I (snd (batch_all ops ar q ids s))"
proof (induction ids arbitrary: s)
  case (Cons kid ids)
  show ?case
    using Cons.IH [of "snd (batch_one ops ar q kid s)"] Cons.prems batch_one_kept [of kid s ops ar q]
    by (simp add: case_prod_beta)
qed simp

lemma batch_clients_kept: "kept I s \<Longrightarrow> kept I (snd (batch_clients ar action ids o1 s))"
proof (induction ids arbitrary: o1 s)
  case (Cons cid ids)
  have "kept I (on_client cid (\<lambda>_. c') s)"
    if "get_client cid (sess s) = Some c" and "apply_batch_action_to_client action c = Inr c'" for c c'
  proof -
    have "c_id c = cid" using that(1) by (auto simp: get_client_def dest: find_Some_mem)
    with that(2) have "c_id c' = cid" "coherent_client c'"
      by (auto simp: coherent_client_def apply_batch_action_to_client_def split: if_splits)
    then show ?thesis by (intro on_client_kept Cons.prems) simp_all
  qed
  then show ?case
    using Cons by (auto split: option.split sum.split intro!: client_audit_kept Cons.IH)
qed simp

lemma batch_update_clients_kept: "kept I s \<Longrightarrow> kept I (snd (batch_update_clients ar ids action s))"
  unfolding batch_update_clients_def Let_def
  by (auto split: option.split intro!: pair_kept batch_clients_kept attempt_kept_snd kept_ops)

end

subsection \<open>The invariants\<close>

text \<open>Ids are keys of their tables, and a client's flag and status agree.\<close>

definition sound_rows :: "tables \<Rightarrow> bool" where
  "sound_rows t \<longleftrightarrow>
     distinct (map k_id (t_keys t)) \<and> distinct (map c_id (t_clients t)) \<and>
     (\<forall>c \<in> set (t_clients t). c_is_active c \<longleftrightarrow> c_status c = Cl_active)"

text \<open>The key of an id is there, and switched off.\<close>

definition key_off :: "int \<Rightarrow> tables \<Rightarrow> bool" where
  "key_off kid t \<longleftrightarrow> sound_rows t \<and> (\<exists>k \<in> set (t_keys t). k_id k = kid \<and> \<not> k_is_active k)"

lemma upd_where_mem: "y \<in> set (upd_where P f xs) \<longleftrightarrow> (\<exists>x \<in> set xs. y = (if P x then f x else x))"
  unfolding upd_where_def set_map image_iff ..

lemma upd_where_ids: "(\<And>x. x \<in> set xs \<Longrightarrow> P x \<Longrightarrow> g (f x) = g x) \<Longrightarrow> map g (upd_where P f xs) = map g xs"
  unfolding upd_where_def by simp

interpretation wf: table_invariant sound_rows "\<lambda>_. True"
proof
  fix P and f :: "client \<Rightarrow> client" and t
  assume f: "\<And>c. P c \<Longrightarrow> c_id (f c) = c_id c \<and> (coherent_client c \<longrightarrow> coherent_client (f c))" and t: "sound_rows t"
  have "map c_id (upd_where P f (t_clients t)) = map c_id (t_clients t)" using f by (intro upd_where_ids) simp
  then show "sound_rows (t\<lparr>t_clients := upd_where P f (t_clients t)\<rparr>)"
    using f t by (auto simp: sound_rows_def coherent_client_def upd_where_mem)
next
  fix t P and f :: "api_key \<Rightarrow> api_key"
  assume "\<And>k. k \<in> set (t_keys t) \<Longrightarrow> P k \<Longrightarrow> changes_to (\<lambda>_. True) k (f k)" and t: "sound_rows t"
  then have "map k_id (upd_where P f (t_keys t)) = map k_id (t_keys t)"
    by (intro upd_where_ids) (simp add: changes_to_def)
  then show "sound_rows (t\<lparr>t_keys := upd_where P f (t_keys t)\<rparr>)" using t by (simp add: sound_rows_def)
qed (auto simp: sound_rows_def coherent_client_def distinct_map_filter)

interpretation off: table_invariant "key_off kid" "\<lambda>i. i \<noteq> kid" for kid
proof
  fix t P and f :: "api_key \<Rightarrow> api_key"
  assume f: "\<And>k. k \<in> set (t_keys t) \<Longrightarrow> P k \<Longrightarrow> changes_to (\<lambda>i. i \<noteq> kid) k (f k)" and t: "key_off kid t"
  then obtain k where k: "k \<in> set (t_keys t)" "k_id k = kid" "\<not> k_is_active k" by (auto simp: key_off_def)
  have "sound_rows (t\<lparr>t_keys := upd_where P f (t_keys t)\<rparr>)"
    using f t by (intro wf.I_keys) (auto simp: key_off_def changes_to_def)
  moreover have "k_id (if P k then f k else k) = kid \<and> \<not> k_is_active (if P k then f k else k)"
    using f [OF k(1)] k by (auto simp: changes_to_def)
  moreover have "(if P k then f k else k) \<in> set (upd_where P f (t_keys t))"
    unfolding upd_where_mem using k(1) by blast
  ultimately show "key_off kid (t\<lparr>t_keys := upd_where P f (t_keys t)\<rparr>)"
    unfolding key_off_def by (intro conjI bexI [of _ "if P k then f k else k"]) simp_all
next
  fix t P and f :: "client \<Rightarrow> client"
  assume "\<And>c. P c \<Longrightarrow> c_id (f c) = c_id c \<and> (coherent_client c \<longrightarrow> coherent_client (f c))" and "key_off kid t"
  with wf.I_clients [of P f t] show "key_off kid (t\<lparr>t_clients := upd_where P f (t_clients t)\<rparr>)"
    by (simp add: key_off_def)
next
  fix t t' :: tables
  assume "t_keys t' = t_keys t" "t_clients t' = t_clients t" "key_off kid t"
  with wf.I_same [of t' t] show "key_off kid t'" by (simp add: key_off_def)
next
  fix k :: api_key and t assume "k_id k \<notin> k_id ` set (t_keys t)" "key_off kid t"
  with wf.I_add_key [of k t] show "key_off kid (t\<lparr>t_keys := t_keys t @ [k]\<rparr>)" by (auto simp: key_off_def)
next
  fix i t assume "i \<noteq> kid" "key_off kid t"
  with wf.I_del_key [where kid = i and t = t] show "key_off kid (t\<lparr>t_keys := filter (\<lambda>k. k_id k \<noteq> i) (t_keys t)\<rparr>)"
    by (auto simp: key_off_def)
next
  fix c :: client and t assume "c_id c \<notin> c_id ` set (t_clients t)" "coherent_client c" "key_off kid t"
  with wf.I_add_client [of c t] show "key_off kid (t\<lparr>t_clients := t_clients t @ [c]\<rparr>)" by (simp add: key_off_def)
next
  fix t cid assume "key_off kid t"
  with wf.I_del_client [of t cid] show "key_off kid (t\<lparr>t_clients := filter (\<lambda>c. c_id c \<noteq> cid) (t_clients t)\<rparr>)"
    by (simp add: key_off_def)
qed (simp add: key_off_def sound_rows_def)

end
