(* ===== verification/Gateway.thy ===== *)
theory Gateway
  imports Admin_Facts
begin

text \<open>
  The two planes on one database: the steps of the gateway as a relation on its state, and what holds in
  every state that is reached by them.
\<close>

subsection \<open>Probes\<close>

context quiet_relation begin

lemma R_try_candidates: "try_candidates e rq path paths s = (out, s') \<Longrightarrow> R s s'"
proof (induction paths arbitrary: path s)
  case (Cons p paths)
  then show ?case
    by (auto split: prod.splits up_outcome.splits if_splits intro: R_send R_trans [OF R_send])
qed (simp add: R_send)

lemma R_mark_active: "R s (mark_active kid s)"
  by (auto simp: mark_active_def Let_def R_refl split: option.split intro: R_mark_commit marks_fields)

lemma R_disable: "R s (disable_key_decrypt_failed kid s)"
  by (auto simp: disable_key_decrypt_failed_def Let_def R_refl split: option.split intro: R_mark_commit marks_fields)

lemma R_run_test: "run_test ops e fw rid provider mk k body path paths s = (r, s') \<Longrightarrow> R s s'"
  by (auto simp: run_test_def judge_test_def Let_def R_refl R_disable
      split: option.splits sum.splits prod.splits up_outcome.splits if_splits
      intro: R_trans [OF R_try_candidates R_mark_active] R_trans [OF R_try_candidates R_mark_answer]
        R_trans [OF R_try_candidates R_record_failure])

lemma R_test_key: "test_key ops e fw rid k mode url s = (r, s') \<Longrightarrow> R s s'"
  by (auto simp: test_key_def test_key_exa_def Let_def R_refl split: option.splits if_splits prod.splits
      intro: R_run_test)

end

subsection \<open>The data plane keeps the tables sound\<close>

sublocale table_invariant \<subseteq> quiet: quiet_relation "\<lambda>s s'. kept I s \<longrightarrow> kept I s'"
proof
  show "kept I s \<longrightarrow> kept I (on_key kid f s)" if "marks f" for f kid and s :: "'a app"
    using that by (auto simp: marks_def keeps_ident_id changes_to_def intro!: on_key_kept)
  show "kept I s \<longrightarrow> kept I (snd (commit_app s))" for s :: "'a app"
    by (auto simp: kept_def commit_app_def commit_or_rollback_def commit_def rollback_def
        split: prod.splits option.splits if_splits dest: next_fault_views)
qed (simp_all add: kept_def)

context table_invariant begin

lemma kept_commit_app: "kept I s \<Longrightarrow> kept I (snd (commit_app s))"
  using quiet.R_commit [of s] by simp

lemma use_kept: "kept I s \<Longrightarrow> kept I (on_key kid (use_key now) (on_client cid (use_client now) s))"
  by (intro on_key_kept on_client_kept)
     (simp_all add: use_key_def use_client_def changes_to_def coherent_client_def Let_def)

lemma finish_kept:
  assumes "finish cfg call resp kid n s = (r, s')" and "kept I s"
  shows "kept I s'"
proof -
  have est: "estimate_credits cfg call resp kid s = (c, t) \<Longrightarrow> kept I t" for c t
    using quiet.R_estimate [of cfg call resp kid s c t] assms(2) by simp
  have gauges: "kept I (quota_gauges cid kid t) = kept I t" for cid t
    by (simp add: quota_gauges_def kept_def Let_def split: option.splits)
  have use: "kept I u" if "consume_quota_on_success cid kid t = (x, u)" "kept I t" for cid t x u
    using that(1) kept_commit_app [OF use_kept [OF that(2)]]
    by (auto simp: consume_quota_on_success_def gauges split: prod.splits bool.splits)
      (metis snd_conv)+
  show ?thesis
    using assms by (auto simp: finish_def account_success_def split: prod.splits sum.splits if_splits
        dest: est intro!: kept_commit_app intro: use)
qed

lemma forward_kept:
  assumes "forward ops e fw call s = (r, s')" and "kept I s"
  shows "kept I s'"
  using quiet.ends_forward [OF assms(1)] assms(2) finish_kept unfolding quiet.ends_def by auto

lemma on_idem_kept [simp]: "kept I (on_idem f s) = kept I s"
  by (auto simp: kept_def on_idem_def elim: I_same [rotated -1])

lemma on_bindings_kept [simp]: "kept I (on_bindings f s) = kept I s"
  by (auto simp: kept_def on_bindings_def elim: I_same [rotated -1])

lemma commit_exc_kept: "commit_exc s = (r, s') \<Longrightarrow> kept I s \<Longrightarrow> kept I s'"
  by (auto simp: kept_def commit_exc_def commit_def rollback_def
      split: prod.splits option.splits if_splits dest: next_fault_views)

lemma fault_kept: "next_fault (sess s) = (f, ss) \<Longrightarrow> kept I s \<Longrightarrow> kept I (s\<lparr>sess := ss\<rparr>)"
  by (auto simp: kept_def dest: next_fault_views)

lemma rollback_app_kept: "kept I s \<Longrightarrow> kept I (rollback_app s)"
  by (simp add: rollback_app_def kept_rollback)

lemma judge_existing_kept: "judge_existing repr now hash r s = (x, s') \<Longrightarrow> kept I s \<Longrightarrow> kept I s'"
  using kept_commit_app [of "on_idem (filter (\<lambda>x. i_id x \<noteq> i_id r)) s"]
  by (auto simp: judge_existing_def split: if_splits prod.splits bool.splits idem_status.splits option.splits
      list.splits sum.splits)

lemma cleanup_kept: "kept I s \<Longrightarrow> kept I (cleanup_expired cid s)"
  unfolding cleanup_expired_def by (simp add: kept_commit_app)

lemma begin_once_kept: "begin_once repr cfg cid key hash s = (x, s') \<Longrightarrow> kept I s \<Longrightarrow> kept I s'"
proof -
  assume b: "begin_once repr cfg cid key hash s = (x, s')" and s: "kept I s"
  let ?t = "on_idem (\<lambda>rs. rs @ [new_record cfg cid key hash (cleanup_expired cid s)]) (cleanup_expired cid s)"
  obtain c u where c: "commit_exc ?t = (c, u)" by (cases "commit_exc ?t")
  have u: "kept I u" using commit_exc_kept [OF c] cleanup_kept [OF s] by simp
  show ?thesis
    using b c u by (auto simp: begin_once_def Let_def split: option.splits prod.splits bool.splits db_exc.splits
        intro: fault_kept rollback_app_kept judge_existing_kept)
qed

lemma begin_request_kept: "kept I s \<Longrightarrow> kept I (snd (begin_request repr cfg cid key hash s))"
proof (induction repr cfg cid key hash s rule: begin_request.induct)
  case (1 repr cfg cid key hash s)
  obtain x t where x: "begin_once repr cfg cid key hash s = (x, t)" by (cases "begin_once repr cfg cid key hash s")
  have "kept I t" using begin_once_kept [OF x] 1 by simp
  with x 1(1) [OF x [symmetric]] show ?case
    by (simp add: begin_request.simps [of repr cfg cid key hash s] split: begin_result.split)
qed

lemma start_or_replay_kept: "kept I s \<Longrightarrow> kept I (snd (start_or_replay e cfg cid k endpoint meth payload s))"
  unfolding start_or_replay_def
  by (auto split: option.split sum.split intro!: pair_kept begin_request_kept)

lemma complete_kept: "kept I s \<Longrightarrow> kept I (complete cfg ctx response s)"
  by (auto simp: complete_def Let_def split: option.split prod.split sum.split
      intro!: kept_commit_app rollback_app_kept intro: fault_kept dest: fault_kept)

lemma bind_kept:
  assumes "kept I s"
  shows "kept I (bind_resource cid kid rt rid ttl s)"
proof -
  have "kept I u" if "commit_exc (on_bindings f s) = (x, u)" for f x u
    using commit_exc_kept [OF that] assms by simp
  then show ?thesis
    unfolding bind_resource_def Let_def case_prod_beta
    by (simp add: assms kept_commit_app prod_eq_iff split: option.split db_exc.split)
qed

lemma lookup_kept:
  assumes "kept I s"
  shows "kept I (snd (lookup_bound_key_id cid rt rid s))"
proof -
  obtain f ss where n: "next_fault (sess s) = (f, ss)" by (cases "next_fault (sess s)")
  have "kept I (s\<lparr>sess := ss\<rparr>)" using fault_kept [OF n assms] .
  then show ?thesis
    by (simp add: lookup_bound_key_id_def Let_def n assms kept_commit_app split: option.split)
qed

lemma require_client_kept: "kept I s \<Longrightarrow> kept I (snd (require_client e secrets hs s))"
  by (auto simp: require_client_def Let_def split: option.split prod.split intro: fault_kept dest: fault_kept)

lemma check_client_quota_kept: "kept I s \<Longrightarrow> kept I (snd (check_client_quota e cfg c s))"
proof -
  assume s: "kept I s"
  have t: "kept I (on_client (c_id c) (\<lambda>x. x\<lparr>c_daily_usage := 0, c_quota_reset_at := d\<rparr>) s)" for d
    by (rule on_client_kept) (simp_all add: s coherent_client_def)
  have "commit (sess v) = (r, ss) \<Longrightarrow> kept I v \<Longrightarrow> kept I (s\<lparr>sess := ss\<rparr>)" for v r ss
    by (auto simp: kept_def commit_def split: prod.splits if_splits dest: next_fault_views)
  from this [OF _ t] show ?thesis
    by (auto simp: check_client_quota_def Let_def s split: option.split prod.split)
qed

subsection \<open>Probes of the control plane\<close>

lemma test_key_kept: "kept I s \<Longrightarrow> kept I (snd (test_key ops e fw rid k mode url s))"
  using quiet.R_test_key [of ops e fw rid k mode url s "fst (test_key ops e fw rid k mode url s)"
      "snd (test_key ops e fw rid k mode url s)"] by simp

lemma test_key_handler_kept: "kept I s \<Longrightarrow> kept I (snd (test_key_handler ops e fw ar kid mode url s))"
  unfolding test_key_handler_def Let_def
  by (auto split: option.split sum.split intro!: pair_kept test_key_kept attempt_kept_snd kept_intros)

lemma open_session_kept: "kept I s \<Longrightarrow> kept I (s\<lparr>sess := open_session (db (sess s)) fs\<rparr>)"
  by (simp add: kept_def open_session_def)

lemma test_one_kept: "kept I s \<Longrightarrow> kept I (snd (test_one ops e fw ar mode url kid s))"
  unfolding test_one_def Let_def
  by (auto split: option.split sum.split
      intro!: pair_kept test_key_kept attempt_kept_snd kept_intros open_session_kept rollback_app_kept)

lemma test_rows_kept: "kept I s \<Longrightarrow> kept I (snd (test_rows ops e fw ar mode url rows s))"
proof (induction rows arbitrary: s)
  case (Cons row rows)
  let ?p = "if row_ok row then test_one ops e fw ar mode url (row_id row) s else (row, s)"
  have "kept I (snd ?p)" using Cons.prems by (simp add: test_one_kept)
  then show ?case using Cons.IH [of "snd ?p"] by (simp add: case_prod_beta)
qed simp

lemma batch_keys_kept: "\<forall>kid \<in> set (bq_ids q). free kid \<Longrightarrow> kept I s \<Longrightarrow> kept I (snd (batch_keys ops e fw ar q s))"
  unfolding batch_keys_def Let_def
  by (auto split: option.split intro!: pair_kept batch_all_kept test_rows_kept)

end

subsection \<open>The steps\<close>

text \<open>
  What a deployment fixes: the backend of the key scope, the world outside, the forwarder with its
  configuration, the secrets, and whether the database enforces foreign keys.
\<close>

record 'b gateway =
  gw_ops :: "'b backend"
  gw_env :: env
  gw_forwarder :: forwarder
  gw_secrets :: secrets
  gw_fk :: bool

text \<open>
  The operations that touch the state. A data-plane request is a sequence of its parts (authentication,
  quota check, idempotency, lookup, forwarding, binding, completion), so that requests interleave.
\<close>

datatype operation =
    Open_session "bool list"
  | Pass_time nat
  | Authenticate headers
  | Check_quota client
  | Start_idempotent int "string option" string string "json option"
  | Complete_idempotent "int option" http_response
  | Bind int int string string "int option"
  | Look_up int string string
  | Forward fwd_call
  | Create_key admin_request bytes create_key_request
  | Import_keys admin_request "string \<Rightarrow> string" "db_exc \<Rightarrow> string" "nat \<Rightarrow> bytes" import_request
  | Update_key admin_request bytes int update_key_request
  | Delete_key admin_request int
  | Purge_key admin_request int
  | Test_key admin_request int string string
  | Batch_keys admin_request batch_request
  | Reset_quota admin_request
  | Create_client admin_request string create_client_request
  | Update_client admin_request int update_client_request
  | Delete_client admin_request int
  | Purge_client admin_request int
  | Rotate_token admin_request string int
  | Batch_clients admin_request "int list" batch_action

fun perform :: "'b gateway \<Rightarrow> operation \<Rightarrow> 'b app \<Rightarrow> 'b app" where
  "perform g (Open_session fs) s = s\<lparr>sess := open_session (db (sess s)) fs\<rparr>"
| "perform g (Pass_time n) s = s\<lparr>wall := wall s + int n, mono := mono s + of_nat n / 1000000\<rparr>"
| "perform g (Authenticate hs) s = snd (require_client (gw_env g) (gw_secrets g) hs s)"
| "perform g (Check_quota c) s = snd (check_client_quota (gw_env g) (fw_config (gw_forwarder g)) c s)"
| "perform g (Start_idempotent cid k endpoint meth payload) s =
     snd (start_or_replay (gw_env g) (fw_config (gw_forwarder g)) cid k endpoint meth payload s)"
| "perform g (Complete_idempotent ctx resp) s = complete (fw_config (gw_forwarder g)) ctx resp s"
| "perform g (Bind cid kid rt rid ttl) s = bind_resource cid kid rt rid ttl s"
| "perform g (Look_up cid rt rid) s = snd (lookup_bound_key_id cid rt rid s)"
| "perform g (Forward call) s = snd (forward (gw_ops g) (gw_env g) (gw_forwarder g) call s)"
| "perform g (Create_key ar nonce p) s =
     snd (create_key (gw_ops g) (gw_env g) ar (fw_config (gw_forwarder g)) (gw_secrets g) nonce p s)"
| "perform g (Import_keys ar im txt nonce p) s =
     snd (import_keys_text (gw_env g) ar (fw_config (gw_forwarder g)) (gw_secrets g) im txt nonce p s)"
| "perform g (Update_key ar nonce kid p) s = snd (update_key (gw_ops g) (gw_env g) ar (gw_secrets g) nonce kid p s)"
| "perform g (Delete_key ar kid) s = snd (delete_key ar kid s)"
| "perform g (Purge_key ar kid) s = snd (purge_key (gw_fk g) ar kid s)"
| "perform g (Test_key ar kid mode url) s =
     snd (test_key_handler (gw_ops g) (gw_env g) (gw_forwarder g) ar kid mode url s)"
| "perform g (Batch_keys ar q) s = snd (batch_keys (gw_ops g) (gw_env g) (gw_forwarder g) ar q s)"
| "perform g (Reset_quota ar) s = snd (reset_keys_quota (gw_env g) ar (fw_config (gw_forwarder g)) s)"
| "perform g (Create_client ar rnd p) s =
     snd (create_client (gw_env g) ar (fw_config (gw_forwarder g)) (gw_secrets g) rnd p s)"
| "perform g (Update_client ar cid p) s = snd (update_client ar cid p s)"
| "perform g (Delete_client ar cid) s = snd (delete_client ar cid s)"
| "perform g (Purge_client ar cid) s = snd (purge_client (gw_fk g) ar cid s)"
| "perform g (Rotate_token ar rnd cid) s = snd (rotate_client_token (gw_env g) ar (gw_secrets g) rnd cid s)"
| "perform g (Batch_clients ar ids action) s = snd (batch_update_clients ar ids action s)"

text \<open>The keys whose activity an operation may change at the administrator's will.\<close>

fun touches :: "operation \<Rightarrow> int set" where
  "touches (Update_key ar nonce kid p) = {kid}"
| "touches (Purge_key ar kid) = {kid}"
| "touches (Batch_keys ar q) = set (bq_ids q)"
| "touches a = {}"

inductive reaches :: "'b gateway \<Rightarrow> (operation \<Rightarrow> bool) \<Rightarrow> 'b app \<Rightarrow> 'b app \<Rightarrow> bool" for g ok where
  start: "reaches g ok s s"
| step: "reaches g ok s t \<Longrightarrow> ok a \<Longrightarrow> reaches g ok s (perform g a t)"

lemma reaches_perform: "reaches g ok s t \<Longrightarrow> ok a \<Longrightarrow> perform g a t = u \<Longrightarrow> reaches g ok s u"
  using reaches.step by blast

context table_invariant begin

lemma perform_kept: "\<forall>kid \<in> touches a. free kid \<Longrightarrow> kept I s \<Longrightarrow> kept I (perform g a s)"
  by (cases a)
     (simp_all add: open_session_kept require_client_kept check_client_quota_kept start_or_replay_kept
       complete_kept bind_kept lookup_kept forward_kept [OF prod.collapse [symmetric]] create_key_kept
       import_keys_text_kept update_key_kept delete_key_kept purge_key_kept test_key_handler_kept
       batch_keys_kept reset_keys_quota_kept create_client_kept update_client_kept delete_client_kept
       purge_client_kept rotate_client_token_kept batch_update_clients_kept,
      simp add: kept_def)

lemma reaches_kept:
  assumes "reaches g ok s t" and "\<And>a. ok a \<Longrightarrow> \<forall>kid \<in> touches a. free kid" and "kept I s"
  shows "kept I t"
  using assms by (induction rule: reaches.induct) (simp_all add: perform_kept)

end

text \<open>A row is found by the hash of its token; \<open>sound_rows\<close> turns its flag into its status.\<close>

lemma require_client_row:
  assumes "require_client e secrets hs s = (Inr cid, s')"
  obtains c where "c \<in> set (t_clients (cur (sess s)))" "c_id c = cid" "c_is_active c"
  using assms by (auto simp: require_client_def Let_def split: option.splits prod.splits if_splits
      dest!: find_Some_mem next_fault_views)

end
