(* ===== verification/Gateway_Properties.thy ===== *)
theory Gateway_Properties
  imports Gateway Samples
begin

text \<open>
  What the control plane promises the data plane: the invariant of all reachable states, that a key that
  was deleted is out of use, and that a rotated token takes the place of the old one.
\<close>

definition sample_gateway :: "memory gateway" where
  "sample_gateway = \<lparr>gw_ops = memory_ops, gw_env = sample_env [], gw_forwarder = sample_forwarder,
     gw_secrets = sample_secrets, gw_fk = False\<rparr>"

definition sample_admin :: admin_request where
  "sample_admin = \<lparr>ar_ip = Some ''10.0.0.1'', ar_user_agent = None, ar_request_id = ''req-9''\<rparr>"

lemma sample_app_sound: "kept sound_rows sample_app"
  by (simp add: kept_def sample_app_def open_session_def sound_rows_def sample_tables_def unique_ok_def
      sample_key_def sample_client_def)

text \<open>
  C35. Whatever requests and administrative operations interleave, and whichever round trips to the
  database fail: the committed rows satisfy the unique constraints, ids are unique in both views of the
  session, flag and status of every client agree, and only a client whose status is active is
  authenticated.
\<close>

theorem gateway_invariant:
  assumes "reaches g (\<lambda>_. True) s0 s" and "kept sound_rows s0"
  shows "sound_rows (cur (sess s)) \<and> sound_rows (db (sess s)) \<and> unique_ok (db (sess s)) \<and>
    (\<forall>hs cid u. require_client (gw_env g) (gw_secrets g) hs s = (Inr cid, u) \<longrightarrow>
       (\<exists>c \<in> set (t_clients (cur (sess s))). c_id c = cid \<and> c_status c = Cl_active))"
proof -
  have k: "kept sound_rows s" using wf.reaches_kept [OF assms(1) _ assms(2)] by simp
  have "\<exists>c \<in> set (t_clients (cur (sess s))). c_id c = cid \<and> c_status c = Cl_active"
    if r: "require_client (gw_env g) (gw_secrets g) hs s = (Inr cid, u)" for hs cid u
  proof -
    obtain c where "c \<in> set (t_clients (cur (sess s)))" "c_id c = cid" "c_is_active c"
      using r by (rule require_client_row)
    with k show ?thesis by (auto simp: kept_def sound_rows_def)
  qed
  with k show ?thesis by (auto simp: kept_def)
qed

theorem gateway_invariant_witness:
  "unique_ok (db (sess (perform sample_gateway (Forward sample_call)
     (perform sample_gateway (Rotate_token sample_admin ''x'' 1)
       (perform sample_gateway (Batch_clients sample_admin [1] Disable) sample_app)))))"
proof -
  have "reaches sample_gateway (\<lambda>_. True) sample_app (perform sample_gateway (Forward sample_call)
     (perform sample_gateway (Rotate_token sample_admin ''x'' 1)
       (perform sample_gateway (Batch_clients sample_admin [1] Disable) sample_app)))"
    by (intro reaches.step reaches.start TrueI)
  from gateway_invariant [OF this sample_app_sound] show ?thesis by simp
qed

text \<open>
  C36. Once the deletion of a key is answered, and until an administrator changes that very key, no
  operation of either plane brings it back: the pool does not select it and no pinned call finds it.
\<close>

lemma off_row: "kept (key_off kid) s \<Longrightarrow> key_row kid s = Some k \<Longrightarrow> \<not> k_is_active k"
proof -
  assume o: "kept (key_off kid) s" and k: "key_row kid s = Some k"
  have "k \<in> set (t_keys (cur (sess s)))" "k_id k = kid" using k by (simp_all add: key_row_def get_key_id)
  moreover have "inj_on k_id (set (t_keys (cur (sess s))))"
    using o by (simp add: kept_def key_off_def sound_rows_def distinct_map)
  ultimately show "\<not> k_is_active k" using o by (auto simp: kept_def key_off_def inj_on_def)
qed

lemma delete_key_off:
  assumes "delete_key ar kid s = (Inr (), s')" and "kept sound_rows s"
  shows "kept (key_off kid) s'"
proof -
  obtain k where k: "key_row kid s = Some k" using assms(1) by (cases "key_row kid s") (simp_all add: delete_key_def)
  let ?t = "key_audit ar ''key.delete'' k (on_key kid soft_delete_key s)"
  obtain x u where x: "attempt [op_commit] ?t = (x, u)" by (cases "attempt [op_commit] ?t")
  have t: "kept sound_rows ?t"
    by (intro wf.key_audit_kept wf.on_key_kept assms(2)) (simp add: changes_to_def soft_delete_key_def)
  have mem: "soft_delete_key k \<in> set (t_keys (cur (sess ?t)))" "k_id k = kid"
    using k by (auto simp: key_row_def key_audit_def on_key_def upd_where_mem dest!: get_key_id)
  from x show ?thesis
  proof (cases rule: commit_saved)
    case saved
    then have "u = s'" using assms(1) k x by (simp add: delete_key_def)
    with saved t mem show ?thesis
      unfolding kept_def key_off_def by (auto simp: soft_delete_key_def intro!: bexI [of _ "soft_delete_key k"])
  next
    case (lost exc)
    with assms(1) k x show ?thesis by (simp add: delete_key_def)
  qed
qed

theorem deleted_key_unused:
  assumes "delete_key ar kid s = (Inr (), s1)" and "kept sound_rows s"
    and "reaches g (\<lambda>a. kid \<notin> touches a) s1 t"
  shows "fst (select ops e cfg cid p t) \<noteq> Inr kid \<and> pinned_row c p kid (cur (sess t)) = None"
proof -
  have t: "kept (key_off kid) t"
    using assms(3) by (rule off.reaches_kept) (use delete_key_off [OF assms(1,2)] in auto)
  have "fst (select ops e cfg cid p t) \<noteq> Inr kid"
  proof
    assume "fst (select ops e cfg cid p t) = Inr kid"
    then obtain u where u: "select ops e cfg cid p t = (Inr kid, u)" by (metis prod.collapse)
    from select_pick(3) [OF u] obtain k where "key_row kid u = Some k" "k_is_active k"
      by (auto simp: ready_def is_disabled_def)
    moreover have "kept (key_off kid) u" using off.quiet.R_select [OF u] t by simp
    ultimately show False by (simp add: off_row)
  qed
  moreover have "pinned_row c p kid (cur (sess t)) = None"
  proof (rule ccontr)
    assume "pinned_row c p kid (cur (sess t)) \<noteq> None"
    then obtain k where k: "k \<in> set (t_keys (cur (sess t)))" "k_id k = kid" "k_is_active k"
      by (auto simp: pinned_row_def pinned_usable_def is_disabled_def split: option.splits if_splits
          dest!: find_Some_mem)
    moreover have "inj_on k_id (set (t_keys (cur (sess t))))"
      using t by (simp add: kept_def key_off_def sound_rows_def distinct_map)
    ultimately show False using t by (auto simp: kept_def key_off_def inj_on_def)
  qed
  ultimately show ?thesis ..
qed

theorem deleted_key_unused_witness:
  "fst (select memory_ops (sample_env []) sample_config (Some 1) ''firecrawl''
     (perform sample_gateway (Test_key sample_admin 1 ''scrape'' ''https://example.com'')
       (snd (delete_key sample_admin 1 sample_app)))) \<noteq> Inr 1"
proof -
  have d: "fst (delete_key sample_admin 1 sample_app) = Inr ()" by code_simp
  then have d': "delete_key sample_admin 1 sample_app = (Inr (), snd (delete_key sample_admin 1 sample_app))"
    by (simp add: prod_eq_iff)
  have "reaches sample_gateway (\<lambda>a. 1 \<notin> touches a) (snd (delete_key sample_admin 1 sample_app))
      (perform sample_gateway (Test_key sample_admin 1 ''scrape'' ''https://example.com'')
        (snd (delete_key sample_admin 1 sample_app)))"
    by (intro reaches.step reaches.start) simp
  from deleted_key_unused [OF d' sample_app_sound this] show ?thesis by simp
qed

text \<open>
  C37. Rotation: the token in the answer authenticates the client at once, and a token that hashed to the
  client's old hash is refused from then on (unless it has the hash of the new one).
\<close>

lemma find_unique_hash:
  assumes "distinct (map c_token_hash cs)" and "c \<in> set cs"
  shows "find (\<lambda>d. c_token_hash d = c_token_hash c) cs = Some c"
  using assms
proof (induction cs)
  case (Cons d cs)
  then show ?case by (cases "d = c") (auto simp: rev_image_eqI)
qed simp

theorem rotated_token_replaces_old:
  assumes "rotate_client_token e ar secrets rnd cid s = (Inr token, s')"
    and "kept sound_rows s" and "cur (sess s) = db (sess s)" and "faults (sess s') = []"
    and "get_client cid (sess s) = Some c" and "c_is_active c"
    and "set_secret (sec_master_key secrets) = Some master"
  shows "(bearer_token (header_get hs ''authorization'') = Some token \<longrightarrow> fst (require_client e secrets hs s') = Inr cid) \<and>
    (bearer_token (header_get hs ''authorization'') = Some old \<and> token_hash (en_crypto e) master old = c_token_hash c \<and>
       c_token_hash c \<noteq> token_hash (en_crypto e) master token \<longrightarrow>
       fst (require_client e secrets hs s') = Inl client_unauthorized)"
proof -
  let ?h = "token_hash (en_crypto e) master (client_token rnd)" and ?cs = "t_clients (cur (sess s))"
  let ?f = "\<lambda>c. c\<lparr>c_token_hash := ?h\<rparr>"
  let ?t = "client_audit ar ''client.rotate'' cid (on_client cid ?f s)"
  have c: "c \<in> set ?cs" "c_id c = cid" using assms(5) by (auto simp: get_client_def dest: find_Some_mem)
  have uniq: "distinct (map c_token_hash ?cs)" "inj_on c_id (set ?cs)"
    using assms(2,3) by (simp_all add: kept_def sound_rows_def unique_ok_def distinct_map)
  obtain x u where x: "attempt [op_commit] ?t = (x, u)" by (cases "attempt [op_commit] ?t")
  from x have after: "t_clients (cur (sess s')) = upd_where (\<lambda>c. c_id c = cid) ?f ?cs"
    "distinct (map c_token_hash (t_clients (cur (sess s'))))" "token = client_token rnd"
  proof (atomize (full), cases rule: commit_saved)
    case saved
    with assms(1,5,7) x have "u = s'" "token = client_token rnd" by (simp_all add: rotate_client_token_def)
    with saved show "t_clients (cur (sess s')) = upd_where (\<lambda>c. c_id c = cid) ?f ?cs \<and>
        distinct (map c_token_hash (t_clients (cur (sess s')))) \<and> token = client_token rnd"
      by (simp add: unique_ok_def client_audit_def on_client_def upd_client_def)
  qed (use assms(1,5,7) x in \<open>simp add: rotate_client_token_def\<close>)
  have "?f c \<in> set (t_clients (cur (sess s')))" unfolding after(1) upd_where_mem using c by auto
  from find_unique_hash [OF after(2) this]
  have new: "find (\<lambda>d. c_token_hash d = ?h) (t_clients (cur (sess s'))) = Some (?f c)" by simp
  have gone: "find (\<lambda>d. c_token_hash d = c_token_hash c) (t_clients (cur (sess s'))) = None" if "c_token_hash c \<noteq> ?h"
  proof -
    have "c_token_hash d \<noteq> c_token_hash c" if "d \<in> set ?cs" "c_id d \<noteq> cid" for d
      using uniq(1) c that by (metis distinct_map inj_on_def)
    then show ?thesis using \<open>c_token_hash c \<noteq> ?h\<close> unfolding after(1) find_None_iff upd_where_mem by auto
  qed
  show ?thesis
    using new gone after(3) c(2) assms(4,6,7)
    by (auto simp: require_client_def next_fault_def token_hash_def)
qed

theorem rotated_token_replaces_old_witness:
  "fst (require_client (sample_env []) sample_secrets [(''authorization'', ''Bearer fcam_client_x'')]
     (snd (rotate_client_token (sample_env []) sample_admin sample_secrets ''x'' 1 sample_app))) = Inr 1 \<and>
   fst (require_client (sample_env []) sample_secrets [(''authorization'', ''Bearer token-1'')]
     (snd (rotate_client_token (sample_env []) sample_admin sample_secrets ''x'' 1 sample_app))) =
     Inl client_unauthorized"
proof -
  let ?r = "rotate_client_token (sample_env []) sample_admin sample_secrets ''x'' 1 sample_app"
  obtain master where m: "set_secret (sec_master_key sample_secrets) = Some master"
    by (simp add: sample_secrets_def set_secret_def)
  have "fst ?r = Inr ''fcam_client_x''" by code_simp
  then have r: "?r = (Inr ''fcam_client_x'', snd ?r)" by (simp add: prod_eq_iff)
  have f: "faults (sess (snd ?r)) = []" by code_simp
  have c: "get_client 1 (sess sample_app) = Some sample_client" by code_simp
  have b: "bearer_token (header_get [(''authorization'', ''Bearer fcam_client_x'')] ''authorization'') =
      Some ''fcam_client_x''" "bearer_token (header_get [(''authorization'', ''Bearer token-1'')] ''authorization'') =
      Some ''token-1''" by (code_simp, code_simp)
  note use = rotated_token_replaces_old [OF r sample_app_sound _ f c _ m, where old = "''token-1''"]
  show ?thesis
    using use [of "[(''authorization'', ''Bearer fcam_client_x'')]"] use [of "[(''authorization'', ''Bearer token-1'')]"]
    by (simp add: b sample_app_def open_session_def sample_client_def token_hash_def sample_env_def sample_crypto_def)
qed

end
