(* ===== verification/Credits.thy ===== *)
theory Credits
  imports Admin_Common
begin

text \<open>
  Credit monitoring: \<open>app/core/credit_fetcher.py\<close> (one query of the upstream account),
  \<open>app/core/credit_refresh.py\<close> (the background refresh of due keys and the retention of snapshots).
\<close>

subsection \<open>When to ask again\<close>

definition first_of_next_month :: "instant \<Rightarrow> instant" where
  "first_of_next_month now =
     (let (y, m, d) = date_of_day (now div day_usec);
          (y2, m2, d2) = date_of_day (day_of_date y m 1 + 32)
      in day_of_date y2 m2 1 * day_usec)"

text \<open>
  The usage ratio is a float in the code; its comparisons with 0.9, 0.7 and 0.5 are those of the exact
  quotient (the literals are what \<open>1 - n / 10\<close> rounds to, and any other quotient of two credit counts
  differs from them by far more than the rounding).
\<close>

definition usage_ratio :: "int \<Rightarrow> int \<Rightarrow> rat" where
  "usage_ratio remaining plan = 1 - of_int remaining / of_int plan"

definition refresh_interval :: "credit_monitoring_config \<Rightarrow> int \<Rightarrow> int \<Rightarrow> int" where
  "refresh_interval cm remaining plan =
     (if \<not> sr_enabled (cm_smart_refresh cm) then cm_fixed_interval_minutes cm
      else if usage_ratio remaining plan > 9 / 10 then sr_high_usage_interval (cm_smart_refresh cm)
      else if usage_ratio remaining plan > 7 / 10 then sr_medium_usage_interval (cm_smart_refresh cm)
      else if usage_ratio remaining plan > 5 / 10 then sr_normal_usage_interval (cm_smart_refresh cm)
      else sr_low_usage_interval (cm_smart_refresh cm))"

definition calculate_next_refresh_time :: "api_key \<Rightarrow> app_config \<Rightarrow> instant \<Rightarrow> instant" where
  "calculate_next_refresh_time k cfg now =
     (case (k_cached_remaining k, k_cached_plan k) of
        (Some remaining, Some plan) \<Rightarrow>
          if plan = 0 then now + minutes (cm_fixed_interval_minutes (c_credit_monitoring cfg))
          else if remaining = 0 then first_of_next_month now
          else now + minutes (refresh_interval (c_credit_monitoring cfg) remaining plan)
      | _ \<Rightarrow> now)"

subsection \<open>One query of the account\<close>

text \<open>
  Exceptions that are not the application's own, and the texts Python gives them; \<open>pt_body\<close> is
  \<open>response.text\<close>.
\<close>

datatype py_exc = Invalid_tag | Attribute_error json | Int_error json | Transport_error string | Refresh_failed

record py_texts =
  pt_exc :: "py_exc \<Rightarrow> string"
  pt_body :: "http_response \<Rightarrow> string"

datatype fetch_error = Own fcam_error | Raised py_exc

definition credit_request :: "app_config \<Rightarrow> string \<Rightarrow> string \<Rightarrow> up_request" where
  "credit_request cfg request_id plaintext =
     \<lparr>rq_method = ''GET'', rq_base_url = fc_base_url (c_firecrawl cfg), rq_path = ''/v2/team/credit-usage'',
      rq_headers = [(''Authorization'', ''Bearer '' @ plaintext), (''X-Request-Id'', request_id),
                    (''Accept'', ''application/json'')],
      rq_body = None, rq_timeout = max (fc_timeout (c_firecrawl cfg)) 1\<rparr>"

definition add_snapshot :: "credit_snapshot \<Rightarrow> 'b app \<Rightarrow> 'b app" where
  "add_snapshot c = on_tables (\<lambda>t. t\<lparr>t_snapshots := t_snapshots t @ [c]\<rparr>)"

definition snapshot ::
  "'b app \<Rightarrow> int \<Rightarrow> int \<Rightarrow> int \<Rightarrow> instant option \<Rightarrow> instant option \<Rightarrow> bool \<Rightarrow> string option \<Rightarrow> credit_snapshot" where
  "snapshot s kid remaining plan period_start period_end success msg =
     \<lparr>cs_id = fresh_id (map cs_id (t_snapshots (cur (sess s)))), cs_api_key_id = kid, cs_remaining = remaining,
      cs_plan = plan, cs_period_start = period_start, cs_period_end = period_end, cs_snapshot_at = wall s,
      cs_fetch_success = success, cs_error_message = msg\<rparr>"

text \<open>The snapshot of a failed query, with whatever else is pending; a failure of the commit is swallowed.\<close>

definition save_failure :: "int \<Rightarrow> string \<Rightarrow> 'b app \<Rightarrow> 'b app" where
  "save_failure kid msg s =
     snd (attempt [op_do (add_snapshot (snapshot s kid 0 0 None None False (Some msg))), op_commit] s)"

definition parse_datetime :: "json \<Rightarrow> instant option" where
  "parse_datetime v =
     (case v of
        JStr s \<Rightarrow>
          if s = [] then None
          else map_option fst (fromisoformat (concat (map (\<lambda>c. if c = CHR ''Z'' then ''+00:00'' else [c]) s)))
      | _ \<Rightarrow> None)"

definition json_or :: "json \<Rightarrow> json \<Rightarrow> json" where
  "json_or a b = (if truthy a then a else b)"

datatype usage =
    Bad_json
  | Usage_raised py_exc
  | Not_success string
  | Usage int int "instant option" "instant option"

definition read_usage_data :: "json \<Rightarrow> usage" where
  "read_usage_data data =
     (case data of
        JObj d \<Rightarrow>
          (let field = (\<lambda>k. case map_of d k of None \<Rightarrow> JNull | Some v \<Rightarrow> v);
               remaining = json_or (field ''remainingCredits'') (JInt 0);
               plan = json_or (field ''planCredits'') (JInt 0)
           in (case (json_int remaining, json_int plan) of
                 (None, _) \<Rightarrow> Usage_raised (Int_error remaining)
               | (Some _, None) \<Rightarrow> Usage_raised (Int_error plan)
               | (Some r, Some p) \<Rightarrow>
                   Usage r p (parse_datetime (field ''billingPeriodStart''))
                     (parse_datetime (field ''billingPeriodEnd''))))
      | _ \<Rightarrow> Usage_raised (Attribute_error data))"

definition read_usage :: "(json \<Rightarrow> string) \<Rightarrow> http_response \<Rightarrow> usage" where
  "read_usage repr resp =
     (case loads (hr_body resp) of
        None \<Rightarrow> Bad_json
      | Some (JObj payload) \<Rightarrow>
          (let field = (\<lambda>k. case map_of payload k of None \<Rightarrow> JNull | Some v \<Rightarrow> v) in
           if \<not> truthy (field ''success'') then
             Not_success (py_str repr (json_or (field ''error'') (JStr ''Upstream returned success=false'')))
           else read_usage_data (json_or (field ''data'') (JObj [])))
      | Some payload \<Rightarrow> Usage_raised (Attribute_error payload))"

definition upstream_error :: "int \<Rightarrow> string \<Rightarrow> fetch_error" where
  "upstream_error status msg = Own (fcam status ''UPSTREAM_ERROR'' msg)"

definition fill_usage :: "app_config \<Rightarrow> instant \<Rightarrow> credit_snapshot \<Rightarrow> instant \<Rightarrow> api_key \<Rightarrow> api_key" where
  "fill_usage cfg checked_at c now k =
     (let k1 = k\<lparr>k_cached_remaining := Some (cs_remaining c), k_cached_plan := Some (cs_plan c),
                 k_last_credit_snapshot_id := Some (cs_id c), k_last_credit_check_at := Some checked_at\<rparr>
      in k1\<lparr>k_next_refresh_at := Some (calculate_next_refresh_time k1 cfg now)\<rparr>)"

definition store_usage ::
  "app_config \<Rightarrow> instant \<Rightarrow> int \<Rightarrow> int \<Rightarrow> int \<Rightarrow> instant option \<Rightarrow> instant option \<Rightarrow> 'b app
     \<Rightarrow> (fetch_error + credit_snapshot) \<times> 'b app" where
  "store_usage cfg now kid remaining plan period_start period_end s =
     (let c = snapshot s kid remaining plan period_start period_end True None
      in (case attempt [op_do (add_snapshot c), op_flush, op_do (\<lambda>s. on_key kid (fill_usage cfg now c (wall s)) s),
                 op_commit, op_read] s of
            (Some exc, s1) \<Rightarrow> (Inl (Own db_unavailable), s1)
          | (None, s1) \<Rightarrow> (Inr c, s1)))"

text \<open>What an answer does to the key and the snapshots; \<open>now\<close> is the time before the request.\<close>

definition judge_credit ::
  "env \<Rightarrow> py_texts \<Rightarrow> app_config \<Rightarrow> instant \<Rightarrow> int \<Rightarrow> http_response \<Rightarrow> 'b app
     \<Rightarrow> (fetch_error + credit_snapshot) \<times> 'b app" where
  "judge_credit e tx cfg now kid resp s =
     (let status = hr_status resp; text = show_int status @ '' '' @ pt_body tx resp in
      if status = 200 then
        (case read_usage (en_repr e) resp of
           Bad_json \<Rightarrow>
             (Inl (upstream_error 502 ''Invalid upstream JSON''), save_failure kid ''Invalid JSON response'' s)
         | Usage_raised exc \<Rightarrow> (Inl (Raised exc), s)
         | Not_success msg \<Rightarrow>
             (Inl (upstream_error 502 ''Firecrawl credit usage failed''), save_failure kid msg s)
         | Usage remaining plan ps pe \<Rightarrow> store_usage cfg now kid remaining plan ps pe s)
      else if status = 401 \<or> status = 403 then
        (Inl (Own (fcam status ''INVALID_API_KEY'' ''API key is invalid or unauthorized'')),
         save_failure kid text (on_key kid (\<lambda>k. k\<lparr>k_status := Failed, k_is_active := False\<rparr>) s))
      else if status = 429 then
        (Inl (Own (fcam 429 ''RATE_LIMITED'' ''Firecrawl API rate limited'')),
         save_failure kid ''429 Rate Limited''
           (on_key kid (\<lambda>k. k\<lparr>k_status := Cooling, k_cooldown_until := Some now\<rparr>) s))
      else
        (Inl (upstream_error status (''Firecrawl API error: '' @ show_int status)), save_failure kid text s))"

definition fetch_credit ::
  "env \<Rightarrow> py_texts \<Rightarrow> app_config \<Rightarrow> bytes \<Rightarrow> string \<Rightarrow> api_key \<Rightarrow> 'b app
     \<Rightarrow> (fetch_error + credit_snapshot) \<times> 'b app" where
  "fetch_credit e tx cfg mk request_id k s =
     (case decrypt_api_key (en_crypto e) mk (k_ciphertext k) of
        None \<Rightarrow>
          (Inl (Own (fcam 500 ''DECRYPTION_FAILED'' ''Failed to decrypt API key'')),
           save_failure (k_id k) (''Decryption failed: '' @ pt_exc tx Invalid_tag)
             (on_key (k_id k) (\<lambda>r. r\<lparr>k_status := Decrypt_failed, k_is_active := False\<rparr>) s))
      | Some plaintext \<Rightarrow>
          (case send_upstream e (credit_request cfg request_id plaintext) s of
             (Timed_out, s1) \<Rightarrow>
               (Inl (Own (fcam 504 ''TIMEOUT'' ''Firecrawl API request timeout'')),
                save_failure (k_id k) ''Request timeout'' s1)
           | (Http_failed msg, s1) \<Rightarrow> (Inl (Raised (Transport_error msg)), s1)
           | (Reply resp, s1) \<Rightarrow> judge_credit e tx cfg (wall s) (k_id k) resp s1))"

subsection \<open>The background refresh\<close>

definition due :: "instant \<Rightarrow> api_key \<Rightarrow> bool" where
  "due now k \<longleftrightarrow> k_is_active k \<and> (k_status k = Active \<or> k_status k = Cooling) \<and>
     (case k_next_refresh_at k of None \<Rightarrow> True | Some t \<Rightarrow> t \<le> now)"

definition set_next_refresh :: "int \<Rightarrow> instant \<Rightarrow> 'b app \<Rightarrow> 'b app" where
  "set_next_refresh kid t = on_key kid (\<lambda>k. k\<lparr>k_next_refresh_at := Some t\<rparr>)"

definition refresh_id :: "string \<Rightarrow> int \<Rightarrow> instant \<Rightarrow> string" where
  "refresh_id prefix kid now = prefix @ show_int kid @ ''-'' @ show_int (trunc_seconds now)"

definition retry_at :: "app_config \<Rightarrow> instant \<Rightarrow> instant" where
  "retry_at cfg now = now + minutes (max (cm_retry_delay_minutes (c_credit_monitoring cfg)) 1)"

definition refresh_key ::
  "env \<Rightarrow> py_texts \<Rightarrow> app_config \<Rightarrow> bytes \<Rightarrow> instant \<Rightarrow> int \<Rightarrow> 'b app \<Rightarrow> 'b app" where
  "refresh_key e tx cfg mk now kid s =
     (case key_row kid s of
        None \<Rightarrow> s
      | Some k \<Rightarrow>
          (case fetch_credit e tx cfg mk (refresh_id ''credit-refresh-'' kid now) k s of
             (Inl _, s1) \<Rightarrow> set_next_refresh kid (retry_at cfg now) s1
           | (Inr _, s1) \<Rightarrow>
               (case op_read s1 of
                  (Some _, s2) \<Rightarrow> set_next_refresh kid (retry_at cfg now) s2
                | (None, s2) \<Rightarrow>
                    (case key_row kid s2 of
                       None \<Rightarrow> s2
                     | Some k2 \<Rightarrow> set_next_refresh kid (calculate_next_refresh_time k2 cfg (wall s2)) s2))))"

definition pass_seconds :: "int \<Rightarrow> 'b app \<Rightarrow> 'b app" where
  "pass_seconds n s = s\<lparr>wall := wall s + seconds n, mono := mono s + of_int n\<rparr>"

definition batch_size :: "app_config \<Rightarrow> nat" where
  "batch_size cfg = nat (max (cm_batch_size (c_credit_monitoring cfg)) 1)"

function refresh_batches ::
  "env \<Rightarrow> py_texts \<Rightarrow> app_config \<Rightarrow> bytes \<Rightarrow> instant \<Rightarrow> int list \<Rightarrow> 'b app \<Rightarrow> 'b app" where
  "refresh_batches e tx cfg mk now ids s =
     (if ids = [] then s
      else
        (let batch = take (batch_size cfg) ids; rest = drop (batch_size cfg) ids;
             s1 = foldl (\<lambda>s kid. refresh_key e tx cfg mk now kid s) s batch;
             s2 = snd (commit_app s1);
             delay = max (cm_batch_delay_seconds (c_credit_monitoring cfg)) 0
         in refresh_batches e tx cfg mk now rest (if rest \<noteq> [] then pass_seconds delay s2 else s2)))"
  by pat_completeness auto
termination
  by (relation "measure (\<lambda>(e, tx, cfg, mk, now, ids, s). length ids)") (auto simp: batch_size_def)

declare refresh_batches.simps [simp del]

definition old_snapshot :: "app_config \<Rightarrow> instant \<Rightarrow> credit_snapshot \<Rightarrow> bool" where
  "old_snapshot cfg now c \<longleftrightarrow> cs_snapshot_at c < now - days (cm_retention_days (c_credit_monitoring cfg))"

definition cleanup_old_snapshots :: "app_config \<Rightarrow> 'b app \<Rightarrow> 'b app" where
  "cleanup_old_snapshots cfg s =
     (if cm_retention_days (c_credit_monitoring cfg) \<le> 0 then s
      else if \<exists>c \<in> set (t_snapshots (cur (sess s))). old_snapshot cfg (wall s) c then
        snd (attempt [op_read, op_do (on_tables (\<lambda>t. t\<lparr>t_snapshots :=
          filter (\<lambda>c. \<not> old_snapshot cfg (wall s) c) (t_snapshots t)\<rparr>)), op_commit] s)
      else snd (attempt [op_read] s))"

text \<open>One round of the loop, in a session of its own; an exception of the query ends it.\<close>

definition refresh_once :: "env \<Rightarrow> py_texts \<Rightarrow> app_config \<Rightarrow> bytes \<Rightarrow> 'b app \<Rightarrow> 'b app" where
  "refresh_once e tx cfg mk s0 =
     (let s = s0\<lparr>sess := open_session (db (sess s0)) (faults (sess s0))\<rparr>;
          closed = (\<lambda>s. s\<lparr>sess := close_session (sess s)\<rparr>)
      in case op_read s of
           (Some _, s1) \<Rightarrow> closed s1
         | (None, s1) \<Rightarrow>
             (let ids = map k_id (sort_key k_id (filter (due (wall s1)) (t_keys (cur (sess s1))))) in
              if ids = [] then closed s1
              else closed (cleanup_old_snapshots cfg (refresh_batches e tx cfg mk (wall s1) ids s1))))"

text \<open>\<open>credit_refresh_loop\<close> as far as it ran: \<open>n\<close> rounds, each followed by the wait.\<close>

fun credit_refresh_loop :: "env \<Rightarrow> py_texts \<Rightarrow> app_config \<Rightarrow> bytes \<Rightarrow> nat \<Rightarrow> 'b app \<Rightarrow> 'b app" where
  "credit_refresh_loop e tx cfg mk 0 s = s"
| "credit_refresh_loop e tx cfg mk (Suc n) s =
     credit_refresh_loop e tx cfg mk n
       (pass_seconds (max (cm_refresh_check_interval_seconds (c_credit_monitoring cfg)) 1)
         (refresh_once e tx cfg mk s))"

text \<open>\<open>start_credit_refresh_scheduler\<close>: whether the loop is started, and with which key.\<close>

definition start_credit_refresh_scheduler :: "crypto \<Rightarrow> app_config \<Rightarrow> secrets \<Rightarrow> bool \<Rightarrow> bytes option" where
  "start_credit_refresh_scheduler cr cfg secrets already_running =
     (if \<not> cm_enabled (c_credit_monitoring cfg) then None
      else
        (case set_secret (sec_master_key secrets) of
           None \<Rightarrow> None
         | Some master \<Rightarrow> if already_running then None else Some (derive_master_key_bytes cr master)))"

end
