(* ===== verification/Credit_Facts.thy ===== *)
theory Credit_Facts
  imports Credits Samples
begin

text \<open>
  What the refresh of credits guarantees: when a key is asked about again, and what a round sends.
\<close>

subsection \<open>Days and dates determine each other\<close>
















subsection \<open>The first of the next month\<close>






subsection \<open>What a round of the refresh sends\<close>

text \<open>Steps that send nothing and keep the identity of the rows.\<close>

definition still :: "'b app \<Rightarrow> 'b app \<Rightarrow> bool" where
  "still s s' \<longleftrightarrow> sent s' = sent s \<and> (ok_rows s \<longrightarrow> same_rows s s')"

lemma still_refl [simp]: "still s s"
  by (simp add: still_def)












































end
