(* ===== verification/Admin_Credits.thy ===== *)
theory Admin_Credits
  imports Credits
begin

text \<open>
  \<open>app/core/credit_aggregator.py\<close> and the credit handlers of \<open>app/api/control_plane.py\<close>. A percentage is
  a rational number; \<open>pct\<close> is the text Python gives \<open>round(float(x), 2)\<close>.
\<close>

subsection \<open>Credits of a client\<close>

definition positive_plan :: "int option \<Rightarrow> int option" where
  "positive_plan p = (case p of Some n \<Rightarrow> if 0 < n then Some n else None | None \<Rightarrow> None)"

definition or_zero :: "int option \<Rightarrow> int" where
  "or_zero x = (case x of None \<Rightarrow> 0 | Some n \<Rightarrow> n)"

text \<open>The total of a key: its plan, or the first snapshot of a free account, or what is left now.\<close>

definition client_key_total :: "tables \<Rightarrow> api_key \<Rightarrow> int" where
  "client_key_total t k =
     (case positive_plan (k_cached_plan k) of
        Some plan \<Rightarrow> plan
      | None \<Rightarrow>
          (case first_snapshot (k_id k) t of
             Some c \<Rightarrow> cs_remaining c
           | None \<Rightarrow> or_zero (k_cached_remaining k)))"

definition usage_percentage :: "int \<Rightarrow> int \<Rightarrow> rat" where
  "usage_percentage tot remaining =
     (if tot = 0 then 0 else of_int (tot - remaining) / of_int tot * 100)"

definition credit_detail :: "(rat \<Rightarrow> string) \<Rightarrow> tables \<Rightarrow> api_key \<Rightarrow> json" where
  "credit_detail pct t k =
     (let remaining = or_zero (k_cached_remaining k); tot = client_key_total t k in
      JObj [(''api_key_id'', JInt (k_id k)), (''name'', str_opt (k_name k)),
            (''remaining_credits'', JInt remaining), (''plan_credits'', JInt (or_zero (k_cached_plan k))),
            (''total_credits'', JInt tot),
            (''usage_percentage'', JFloat (pct (usage_percentage tot remaining))),
            (''last_updated_at'', dt_to_rfc3339 (k_last_credit_check_at k))])"

record client_credits =
  cl_remaining :: int
  cl_plan :: int
  cl_total :: int
  cl_details :: "json list"

fun aggregate_keys :: "(rat \<Rightarrow> string) \<Rightarrow> tables \<Rightarrow> api_key list \<Rightarrow> client_credits \<Rightarrow> client_credits" where
  "aggregate_keys pct t [] a = a"
| "aggregate_keys pct t (k # ks) a =
     aggregate_keys pct t ks
       (a\<lparr>cl_remaining := cl_remaining a + or_zero (k_cached_remaining k),
          cl_plan := cl_plan a + or_zero (k_cached_plan k),
          cl_total := cl_total a + client_key_total t k,
          cl_details := cl_details a @ [credit_detail pct t k]\<rparr>)"

definition client_keys :: "int \<Rightarrow> tables \<Rightarrow> api_key list" where
  "client_keys cid t = sort_key k_id (filter (\<lambda>k. k_client_id k = Some cid \<and> k_is_active k) (t_keys t))"

definition aggregate_client_credits :: "(rat \<Rightarrow> string) \<Rightarrow> int \<Rightarrow> tables \<Rightarrow> string + json" where
  "aggregate_client_credits pct cid t =
     (case find (\<lambda>c. c_id c = cid) (t_clients t) of
        None \<Rightarrow> Inl (''Client '' @ show_int cid @ '' not found'')
      | Some c \<Rightarrow>
          (let a = aggregate_keys pct t (client_keys cid t)
                     \<lparr>cl_remaining = 0, cl_plan = 0, cl_total = 0, cl_details = []\<rparr>
           in Inr (JObj
                [(''client_id'', JInt (c_id c)), (''client_name'', JStr (c_name c)),
                 (''total_remaining_credits'', JInt (cl_remaining a)),
                 (''total_plan_credits'', JInt (cl_plan a)), (''total_credits'', JInt (cl_total a)),
                 (''usage_percentage'', JFloat (pct (usage_percentage (cl_total a) (cl_remaining a)))),
                 (''keys'', JArr (cl_details a))])))"

subsection \<open>Credits of a key\<close>

definition latest_snapshot :: "api_key \<Rightarrow> tables \<Rightarrow> credit_snapshot option" where
  "latest_snapshot k t =
     (let by_id = (case k_last_credit_snapshot_id k of
                     None \<Rightarrow> None
                   | Some sid \<Rightarrow> if sid = 0 then None else find (\<lambda>c. cs_id c = sid) (t_snapshots t))
      in (case by_id of
            Some c \<Rightarrow> Some c
          | None \<Rightarrow>
              (case sort_key (\<lambda>c. - cs_snapshot_at c) (filter (\<lambda>c. cs_api_key_id c = k_id k) (t_snapshots t)) of
                 [] \<Rightarrow> None | c # _ \<Rightarrow> Some c)))"

definition key_total :: "api_key \<Rightarrow> tables \<Rightarrow> int option" where
  "key_total k t =
     (case positive_plan (k_cached_plan k) of
        Some plan \<Rightarrow> Some plan
      | None \<Rightarrow>
          (case first_snapshot (k_id k) t of
             Some c \<Rightarrow> Some (cs_remaining c)
           | None \<Rightarrow> k_cached_remaining k))"

definition snapshot_json :: "credit_snapshot \<Rightarrow> json" where
  "snapshot_json c = JObj
     [(''remaining_credits'', JInt (cs_remaining c)), (''plan_credits'', JInt (cs_plan c)),
      (''billing_period_start'', dt_to_rfc3339 (cs_period_start c)),
      (''billing_period_end'', dt_to_rfc3339 (cs_period_end c)),
      (''snapshot_at'', dt_to_rfc3339 (Some (cs_snapshot_at c))),
      (''fetch_success'', JBool (cs_fetch_success c)), (''error_message'', str_opt (cs_error_message c))]"

definition get_key_credits :: "api_key \<Rightarrow> tables \<Rightarrow> (string \<times> json) list" where
  "get_key_credits k t =
     (let latest = latest_snapshot k t;
          estimated = (case (k_cached_remaining k, latest) of
                         (Some r, Some c) \<Rightarrow> r \<noteq> cs_remaining c | _ \<Rightarrow> False)
      in [(''api_key_id'', JInt (k_id k)),
          (''cached_credits'', JObj
             [(''remaining_credits'', int_opt (k_cached_remaining k)), (''plan_credits'', int_opt (k_cached_plan k)),
              (''total_credits'', int_opt (key_total k t)),
              (''last_updated_at'', dt_to_rfc3339 (k_last_credit_check_at k)), (''is_estimated'', JBool estimated)]),
          (''latest_snapshot'', case latest of None \<Rightarrow> JNull | Some c \<Rightarrow> snapshot_json c),
          (''next_refresh_at'', dt_to_rfc3339 (k_next_refresh_at k))])"

subsection \<open>Handlers\<close>

definition key_not_found :: fcam_error where
  "key_not_found = fcam 404 ''KEY_NOT_FOUND'' ''API Key not found''"

definition unsupported_provider :: "string \<Rightarrow> string \<Rightarrow> fcam_error" where
  "unsupported_provider what p =
     fcam 400 ''UNSUPPORTED_PROVIDER_OPERATION''
       (what @ '' is not supported for provider '' @ [CHR 0x27] @ p @ [CHR 0x27])"

text \<open>The reads of these handlers are not guarded: a failing one is the framework's internal error.\<close>

definition get_key_credits_api :: "'b backend \<Rightarrow> int \<Rightarrow> 'b app \<Rightarrow> (fcam_error + json) \<times> 'b app" where
  "get_key_credits_api ops kid s =
     (case key_row kid s of
        None \<Rightarrow> (Inl key_not_found, s)
      | Some k \<Rightarrow>
          if k_provider k \<noteq> ''firecrawl'' then (Inl (unsupported_provider ''Credit monitoring'' (k_provider k)), s)
          else
            (let (item, s1) = key_item ops k s
             in (Inr (JObj (get_key_credits k (cur (sess s)) @ [(''key'', JObj item)])), s1)))"

definition get_client_credits_api :: "(rat \<Rightarrow> string) \<Rightarrow> int \<Rightarrow> 'b app \<Rightarrow> fcam_error + json" where
  "get_client_credits_api pct cid s =
     (case aggregate_client_credits pct cid (cur (sess s)) of
        Inl msg \<Rightarrow> Inl (fcam 404 ''CLIENT_NOT_FOUND'' msg)
      | Inr j \<Rightarrow> Inr j)"

definition invalid_datetime :: fcam_error where
  "invalid_datetime = validation_error ''Invalid datetime''"

text \<open>\<open>_parse_rfc3339\<close>; a text without an offset is taken as UTC, as the column is.\<close>

definition parse_rfc3339 :: "string \<Rightarrow> fcam_error + instant" where
  "parse_rfc3339 value =
     (case fromisoformat (concat (map (\<lambda>c. if c = CHR ''Z'' then ''+00:00'' else [c]) value)) of
        None \<Rightarrow> Inl invalid_datetime
      | Some (t, aware) \<Rightarrow> Inr t)"

definition optional_time :: "string option \<Rightarrow> fcam_error + instant option" where
  "optional_time x =
     (case x of
        None \<Rightarrow> Inr None
      | Some v \<Rightarrow>
          if strip v = [] then Inr None
          else (case parse_rfc3339 (strip v) of Inl err \<Rightarrow> Inl err | Inr t \<Rightarrow> Inr (Some t)))"

definition in_window :: "instant option \<Rightarrow> instant option \<Rightarrow> instant \<Rightarrow> bool" where
  "in_window from_t to_t t \<longleftrightarrow> (case from_t of None \<Rightarrow> True | Some a \<Rightarrow> a \<le> t) \<and> (case to_t of None \<Rightarrow> True | Some b \<Rightarrow> t \<le> b)"

definition get_key_credits_history_api ::
  "app_config \<Rightarrow> int \<Rightarrow> int \<Rightarrow> string option \<Rightarrow> string option \<Rightarrow> 'b app \<Rightarrow> fcam_error + json" where
  "get_key_credits_history_api cfg kid limit since until s =
     (if key_row kid s = None then Inl key_not_found
      else
        (let most = cm_history_max_limit (c_credit_monitoring cfg);
             limit_n = min limit (if most = 0 then 500 else most)
         in (case optional_time since of
               Inl err \<Rightarrow> Inl err
             | Inr a \<Rightarrow>
                 (case optional_time until of
                    Inl err \<Rightarrow> Inl err
                  | Inr b \<Rightarrow>
                      (let rows = filter (\<lambda>c. cs_api_key_id c = kid \<and> in_window a b (cs_snapshot_at c))
                                    (t_snapshots (cur (sess s)));
                           page = take (nat limit_n) (sort_key (\<lambda>c. - cs_snapshot_at c) rows)
                       in Inr (JObj [(''api_key_id'', JInt kid), (''snapshots'', JArr (map snapshot_json page)),
                                     (''total_count'', JInt (int (length rows)))]))))))"

definition manual_interval :: "app_config \<Rightarrow> int" where
  "manual_interval cfg =
     (let n = cm_min_manual_refresh_interval_seconds (c_credit_monitoring cfg) in if n = 0 then 300 else n)"

text \<open>\<open>(now - last).total_seconds() < min_interval\<close>.\<close>

definition too_frequent :: "app_config \<Rightarrow> instant \<Rightarrow> api_key \<Rightarrow> bool" where
  "too_frequent cfg now k =
     (case k_last_credit_check_at k of
        None \<Rightarrow> False
      | Some checked \<Rightarrow> now - checked < seconds (manual_interval cfg))"

definition wait_message :: "app_config \<Rightarrow> instant \<Rightarrow> api_key \<Rightarrow> string" where
  "wait_message cfg now k =
     (let checked = (case k_last_credit_check_at k of None \<Rightarrow> now | Some t \<Rightarrow> t) in
      ''Please wait '' @ show_int (trunc_seconds (seconds (manual_interval cfg) - (now - checked))) @
        '' seconds before refreshing again'')"

definition refresh_key_credits_api ::
  "env \<Rightarrow> py_texts \<Rightarrow> app_config \<Rightarrow> secrets \<Rightarrow> int \<Rightarrow> 'b app \<Rightarrow> (fetch_error + json) \<times> 'b app" where
  "refresh_key_credits_api e tx cfg secrets kid s =
     (case set_secret (sec_master_key secrets) of
        None \<Rightarrow> (Inl (Own master_key_missing), s)
      | Some master \<Rightarrow>
          (case key_row kid s of
             None \<Rightarrow> (Inl (Own key_not_found), s)
           | Some k \<Rightarrow>
               if k_provider k \<noteq> ''firecrawl''
               then (Inl (Own (unsupported_provider ''Credit refresh'' (k_provider k))), s)
               else if too_frequent cfg (wall s) k
               then (Inl (Own (fcam 429 ''REFRESH_TOO_FREQUENT'' (wait_message cfg (wall s) k))), s)
               else
                 (case fetch_credit e tx cfg (derive_master_key_bytes (en_crypto e) master)
                         (refresh_id ''manual-credit-refresh-'' kid (wall s)) k s of
                    (Inl err, s1) \<Rightarrow> (Inl err, s1)
                  | (Inr c, s1) \<Rightarrow>
                      (Inr (JObj [(''api_key_id'', JInt (k_id k)),
                                  (''snapshot'', JObj
                                     [(''remaining_credits'', JInt (cs_remaining c)),
                                      (''plan_credits'', JInt (cs_plan c)),
                                      (''snapshot_at'', dt_to_rfc3339 (Some (cs_snapshot_at c))),
                                      (''fetch_success'', JBool (cs_fetch_success c))])]), s1))))"

record refresh_all_request =
  ra_key_ids :: "int list option"
  ra_force :: bool

datatype refresh_row = Refreshed int int int | Not_refreshed int string

fun refresh_failed :: "refresh_row \<Rightarrow> bool" where
  "refresh_failed (Refreshed kid r p) = False"
| "refresh_failed (Not_refreshed kid msg) = True"

definition fetch_error_text :: "py_texts \<Rightarrow> fetch_error \<Rightarrow> string" where
  "fetch_error_text tx err =
     (case err of Own x \<Rightarrow> e_code x @ '': '' @ e_message x | Raised exc \<Rightarrow> pt_exc tx exc)"

text \<open>One key of the loop; \<open>now\<close> is the time the request began.\<close>

definition refresh_all_one ::
  "env \<Rightarrow> py_texts \<Rightarrow> app_config \<Rightarrow> bytes \<Rightarrow> instant \<Rightarrow> bool \<Rightarrow> int \<Rightarrow> 'b app \<Rightarrow> refresh_row \<times> 'b app" where
  "refresh_all_one e tx cfg mk now force kid s =
     (case key_row kid s of
        None \<Rightarrow> (Not_refreshed kid (pt_exc tx Refresh_failed), s)
      | Some k \<Rightarrow>
          if \<not> force \<and> too_frequent cfg now k then (Not_refreshed kid ''REFRESH_TOO_FREQUENT'', s)
          else
            (case fetch_credit e tx cfg mk (refresh_id ''batch-credit-refresh-'' kid now) k s of
               (Inl err, s1) \<Rightarrow> (Not_refreshed kid (fetch_error_text tx err), s1)
             | (Inr c, s1) \<Rightarrow> (Refreshed kid (cs_remaining c) (cs_plan c), s1)))"

fun refresh_all_rows ::
  "env \<Rightarrow> py_texts \<Rightarrow> app_config \<Rightarrow> bytes \<Rightarrow> instant \<Rightarrow> bool \<Rightarrow> int list \<Rightarrow> 'b app \<Rightarrow> refresh_row list \<times> 'b app" where
  "refresh_all_rows e tx cfg mk now force [] s = ([], s)"
| "refresh_all_rows e tx cfg mk now force (kid # ids) s =
     (let (row, s1) = refresh_all_one e tx cfg mk now force kid s;
          (rows, s2) = refresh_all_rows e tx cfg mk now force ids s1
      in (row # rows, s2))"

definition refresh_selected :: "refresh_all_request \<Rightarrow> tables \<Rightarrow> int list" where
  "refresh_selected p t =
     (let ids = filter (\<lambda>i. 0 < i) (case ra_key_ids p of None \<Rightarrow> [] | Some l \<Rightarrow> l) in
      map k_id (sort_key k_id (filter (\<lambda>k. k_is_active k \<and> k_provider k = ''firecrawl'' \<and>
        (ids = [] \<or> k_id k \<in> set ids)) (t_keys t))))"

definition refresh_all_credits_api ::
  "env \<Rightarrow> py_texts \<Rightarrow> app_config \<Rightarrow> secrets \<Rightarrow> refresh_all_request \<Rightarrow> 'b app
     \<Rightarrow> (fcam_error + refresh_row list) \<times> 'b app" where
  "refresh_all_credits_api e tx cfg secrets p s =
     (case set_secret (sec_master_key secrets) of
        None \<Rightarrow> (Inl master_key_missing, s)
      | Some master \<Rightarrow>
          (let (rows, s1) = refresh_all_rows e tx cfg (derive_master_key_bytes (en_crypto e) master) (wall s)
                 (ra_force p) (refresh_selected p (cur (sess s))) s
           in (Inr rows, s1)))"

definition refresh_all_report :: "refresh_row list \<Rightarrow> json" where
  "refresh_all_report rows = JObj
     [(''total'', JInt (int (length rows))),
      (''success'', JInt (int (length (filter (\<lambda>r. \<not> refresh_failed r) rows)))),
      (''failed'', JInt (int (length (filter refresh_failed rows)))),
      (''results'', JArr (map (\<lambda>r. case r of
          Refreshed kid rem plan \<Rightarrow>
            JObj [(''api_key_id'', JInt kid), (''success'', JBool True), (''remaining_credits'', JInt rem),
                  (''plan_credits'', JInt plan)]
        | Not_refreshed kid msg \<Rightarrow>
            JObj [(''api_key_id'', JInt kid), (''success'', JBool False), (''error'', JStr msg)]) rows))]"

text \<open>The totals of a client are the sums over its active keys.\<close>

lemma aggregate_totals:
  "cl_remaining (aggregate_keys pct t ks a) = cl_remaining a + (\<Sum>k\<leftarrow>ks. or_zero (k_cached_remaining k))"
  "cl_plan (aggregate_keys pct t ks a) = cl_plan a + (\<Sum>k\<leftarrow>ks. or_zero (k_cached_plan k))"
  "cl_total (aggregate_keys pct t ks a) = cl_total a + (\<Sum>k\<leftarrow>ks. client_key_total t k)"
  "length (cl_details (aggregate_keys pct t ks a)) = length (cl_details a) + length ks"
  by (induction ks arbitrary: a) simp_all

lemma refresh_rows_length:
  "refresh_all_rows e tx cfg mk now force ids s = (rows, s') \<Longrightarrow> length rows = length ids"
  by (induction ids arbitrary: s rows s') (auto split: prod.splits)

end
