(* ===== verification/Admin_Stats.thy ===== *)
theory Admin_Stats
  imports Admin_Credits Samples
begin

text \<open>
  The read-only overviews of \<open>app/api/control_plane.py\<close>: the state of the encryption, the dashboard's
  counters and its chart, the statistics of keys and quotas. A time zone is what \<open>zoneinfo\<close> answers for it:
  the offset at an instant, and the offset of a local time of which it is the first or the second
  (\<open>fold\<close>) occurrence; \<open>zone_info\<close> is \<open>None\<close> for a name it refuses.
\<close>

subsection \<open>Reads\<close>

fun op_reads :: "nat \<Rightarrow> 'b db_op" where
  "op_reads 0 s = (None, s)"
| "op_reads (Suc n) s = (case op_read s of (None, s1) \<Rightarrow> op_reads n s1 | r \<Rightarrow> r)"

text \<open>A \<open>try\<close> block of \<open>n\<close> queries; the exception handler raises \<open>DB_UNAVAILABLE\<close>.\<close>

definition db_queries :: "nat \<Rightarrow> (tables \<Rightarrow> 'a) \<Rightarrow> 'b app \<Rightarrow> (fcam_error + 'a) \<times> 'b app" where
  "db_queries n q s =
     (case op_reads n s of
        (None, s1) \<Rightarrow> (Inr (q (cur (sess s1))), s1)
      | (Some _, s1) \<Rightarrow> (Inl db_unavailable, s1))"

definition count :: "('r \<Rightarrow> bool) \<Rightarrow> 'r list \<Rightarrow> int" where
  "count P rows = int (length (filter P rows))"

subsection \<open>The master key against the stored keys\<close>

definition encryption_report :: "bool \<Rightarrow> bool \<Rightarrow> string \<Rightarrow> json" where
  "encryption_report configured failing suggestion = JObj
     [(''master_key_configured'', JBool configured), (''has_decrypt_failures'', JBool failing),
      (''suggestion'', JStr suggestion)]"

text \<open>Only the first 200 keys are tried.\<close>

definition decrypt_failures :: "crypto \<Rightarrow> bytes \<Rightarrow> api_key list \<Rightarrow> bool" where
  "decrypt_failures cr mk keys \<longleftrightarrow>
     (\<exists>k \<in> set keys. k_status k = Decrypt_failed) \<or>
     (\<exists>k \<in> set (take 200 keys). decrypt_api_key cr mk (k_ciphertext k) = None)"

definition encryption_status :: "crypto \<Rightarrow> secrets \<Rightarrow> 'b app \<Rightarrow> (fcam_error + json) \<times> 'b app" where
  "encryption_status cr secrets s =
     (case set_secret (sec_master_key secrets) of
        None \<Rightarrow> (Inr (encryption_report False False
                   ''Set FCAM_MASTER_KEY (must stay stable across restarts)''), s)
      | Some master \<Rightarrow>
          (case db_queries 1 (\<lambda>t. sort_key k_id (t_keys t)) s of
             (Inl err, s1) \<Rightarrow> (Inl err, s1)
           | (Inr keys, s1) \<Rightarrow>
               (let failing = decrypt_failures cr (derive_master_key_bytes cr master) keys
                in (Inr (encryption_report True failing
                      (if failing
                       then ''Use the same FCAM_MASTER_KEY that was used to encrypt keys, or rotate/re-import affected keys''
                       else [])), s1))))"

subsection \<open>Counters of the dashboard\<close>

definition active_client :: "tables \<Rightarrow> int option \<Rightarrow> bool" where
  "active_client t cid \<longleftrightarrow>
     (case cid of None \<Rightarrow> False | Some i \<Rightarrow> \<exists>c \<in> set (t_clients t). c_id c = i \<and> c_is_active c)"

definition only_client :: "int option \<Rightarrow> int option \<Rightarrow> bool" where
  "only_client cid x \<longleftrightarrow> (case cid of None \<Rightarrow> True | Some c \<Rightarrow> x = Some c)"

text \<open>
  The keys of one active client, or the keys that are unassigned or of an active client. The joins are on
  the client's primary key, so they do not multiply rows.
\<close>

definition counted_key :: "int option \<Rightarrow> tables \<Rightarrow> api_key \<Rightarrow> bool" where
  "counted_key cid t k \<longleftrightarrow>
     (case cid of
        Some c \<Rightarrow> k_client_id k = Some c \<and> active_client t (Some c)
      | None \<Rightarrow> k_client_id k = None \<or> active_client t (k_client_id k))"

definition counted_log :: "int option \<Rightarrow> tables \<Rightarrow> request_log \<Rightarrow> bool" where
  "counted_log cid t l \<longleftrightarrow> active_client t (l_client_id l) \<and> only_client cid (l_client_id l)"

definition error_rate :: "int \<Rightarrow> int \<Rightarrow> rat" where
  "error_rate bad tot = (if tot = 0 then 0 else of_int bad / of_int tot * 100)"

definition dashboard_counts :: "(rat \<Rightarrow> string) \<Rightarrow> int option \<Rightarrow> instant \<Rightarrow> tables \<Rightarrow> json" where
  "dashboard_counts rate cid cutoff t =
     (let keys = filter (counted_key cid t) (t_keys t);
          logs = filter (\<lambda>l. cutoff \<le> l_created_at l \<and> counted_log cid t l) (t_logs t);
          bad = count (\<lambda>l. l_success l \<noteq> Some True) logs
      in JObj
        [(''keys'', JObj [(''total'', JInt (int (length keys))),
           (''failed'', JInt (count (\<lambda>k. k_status k \<in> {Failed, Decrypt_failed}) keys))]),
         (''clients'', JObj [(''total'',
           JInt (count (\<lambda>c. c_is_active c \<and> only_client cid (Some (c_id c))) (t_clients t)))]),
         (''requests_24h'', JObj [(''total'', JInt (int (length logs))), (''failed'', JInt bad),
           (''error_rate'', JFloat (rate (error_rate bad (int (length logs)))))])])"

definition dashboard_stats :: "(rat \<Rightarrow> string) \<Rightarrow> int option \<Rightarrow> 'b app \<Rightarrow> (fcam_error + json) \<times> 'b app" where
  "dashboard_stats rate cid s = db_queries 5 (dashboard_counts rate cid (wall s - seconds 86400)) s"

subsection \<open>The chart\<close>

abbreviation hour_usec :: int where "hour_usec \<equiv> 3600000000"

record tzinfo =
  tz_at :: "instant \<Rightarrow> int"
  tz_of_local :: "int \<Rightarrow> bool \<Rightarrow> int"

type_synonym zone_info = "string \<Rightarrow> tzinfo option"

text \<open>Local time as a number: what an aware \<open>datetime\<close> shows, as if it were UTC.\<close>

definition local_time :: "tzinfo \<Rightarrow> instant \<Rightarrow> int" where
  "local_time tz t = t + tz_at tz t"

definition hour_start :: "int \<Rightarrow> int" where
  "hour_start local = local - local mod hour_usec"

text \<open>\<open>.astimezone(timezone.utc)\<close> of a local time got by arithmetic, which has \<open>fold = 0\<close>.\<close>

definition to_utc :: "tzinfo \<Rightarrow> int \<Rightarrow> instant" where
  "to_utc tz local = local - tz_of_local tz local False"

definition end_hour :: "tzinfo \<Rightarrow> instant \<Rightarrow> int" where
  "end_hour tz now = hour_start (local_time tz now)"

definition start_hour :: "tzinfo \<Rightarrow> instant \<Rightarrow> int" where
  "start_hour tz now = end_hour tz now - 23 * hour_usec"

definition in_chart :: "tzinfo \<Rightarrow> instant \<Rightarrow> instant \<Rightarrow> bool" where
  "in_chart tz now t \<longleftrightarrow>
     to_utc tz (start_hour tz now) \<le> t \<and> t < to_utc tz (end_hour tz now + hour_usec)"

text \<open>Two datetimes of one zone are subtracted by their local times.\<close>

definition bucket_index :: "tzinfo \<Rightarrow> instant \<Rightarrow> instant \<Rightarrow> int" where
  "bucket_index tz now t = (hour_start (local_time tz t) - start_hour tz now) div hour_usec"

definition bump :: "int \<Rightarrow> int list \<Rightarrow> int list" where
  "bump i xs = (if 0 \<le> i \<and> i < 24 then xs[nat i := xs ! nat i + 1] else xs)"

definition chart_step :: "tzinfo \<Rightarrow> instant \<Rightarrow> request_log \<Rightarrow> int list \<times> int list \<Rightarrow> int list \<times> int list" where
  "chart_step tz now l counts =
     (case counts of (good, bad) \<Rightarrow>
        let i = bucket_index tz now (l_created_at l) in
        if l_success l = Some True then (bump i good, bad) else (good, bump i bad))"

definition chart_counts :: "tzinfo \<Rightarrow> instant \<Rightarrow> request_log list \<Rightarrow> int list \<times> int list" where
  "chart_counts tz now rows = fold (chart_step tz now) rows (replicate 24 0, replicate 24 0)"

definition chart_labels :: "tzinfo \<Rightarrow> instant \<Rightarrow> string list" where
  "chart_labels tz now = map (\<lambda>i. rfc3339 (to_utc tz (start_hour tz now + int i * hour_usec))) [0..<24]"

definition chart_rows :: "tzinfo \<Rightarrow> instant \<Rightarrow> int option \<Rightarrow> tables \<Rightarrow> request_log list" where
  "chart_rows tz now cid t = filter (\<lambda>l. in_chart tz now (l_created_at l) \<and> counted_log cid t l) (t_logs t)"

definition chart_json :: "string \<Rightarrow> string list \<Rightarrow> int list \<times> int list \<Rightarrow> json" where
  "chart_json tz_name labels counts = JObj
     [(''range'', JStr ''24h''), (''bucket'', JStr ''hour''), (''tz'', JStr tz_name),
      (''labels'', JArr (map JStr labels)),
      (''datasets'', JArr
        [JObj [(''label'', JStr ''success''), (''color'', JStr ''#43e97b''), (''data'', JArr (map JInt (fst counts)))],
         JObj [(''label'', JStr ''failed''), (''color'', JStr ''#f5576c''), (''data'', JArr (map JInt (snd counts)))]])]"

definition dashboard_chart ::
  "zone_info \<Rightarrow> string \<Rightarrow> string \<Rightarrow> int option \<Rightarrow> string \<Rightarrow> 'b app \<Rightarrow> (fcam_error + json) \<times> 'b app" where
  "dashboard_chart zi range_v bucket cid tz_name s =
     (if range_v \<noteq> ''24h'' then (Inl (validation_error ''Unsupported range''), s)
      else if bucket \<noteq> ''hour'' then (Inl (validation_error ''Unsupported bucket''), s)
      else
        (case zi tz_name of
           None \<Rightarrow> (Inl (validation_error ''Invalid tz''), s)
         | Some tz \<Rightarrow>
             (case db_queries 1 (chart_rows tz (wall s) cid) s of
                (Inl err, s1) \<Rightarrow> (Inl err, s1)
              | (Inr rows, s1) \<Rightarrow>
                  (Inr (chart_json tz_name (chart_labels tz (wall s)) (chart_counts tz (wall s) rows)), s1))))"

subsection \<open>Statistics\<close>

definition stats_json :: "tables \<Rightarrow> json" where
  "stats_json t =
     (let keys = t_keys t; clients = t_clients t in JObj
        [(''keys'', JObj
           [(''total'', JInt (int (length keys))),
            (''active'', JInt (count (\<lambda>k. k_is_active k \<and> k_status k = Active) keys)),
            (''cooling'', JInt (count (\<lambda>k. k_status k = Cooling) keys)),
            (''quota_exceeded'', JInt (count (\<lambda>k. k_status k = Quota_exceeded) keys)),
            (''disabled'', JInt (count (\<lambda>k. \<not> k_is_active k \<or> k_status k = Disabled) keys)),
            (''failed'', JInt (count (\<lambda>k. k_status k = Failed) keys))]),
         (''clients'', JObj
           [(''total'', JInt (int (length clients))), (''active'', JInt (count c_is_active clients)),
            (''disabled'', JInt (count (\<lambda>c. \<not> c_is_active c) clients))])])"

definition stats :: "'b app \<Rightarrow> (fcam_error + json) \<times> 'b app" where
  "stats s = db_queries 9 stats_json s"

definition schedulable :: "api_key \<Rightarrow> bool" where
  "schedulable k \<longleftrightarrow> k_is_active k \<and> k_status k \<noteq> Disabled"

definition quota_summary :: "api_key list \<Rightarrow> json" where
  "quota_summary keys =
     (let tot = (\<Sum>k\<leftarrow>keys. or_zero (k_daily_quota k)); used = (\<Sum>k\<leftarrow>keys. k_daily_usage k) in JObj
        [(''total_quota'', JInt tot), (''used_today'', JInt used), (''remaining'', JInt (max (tot - used) 0)),
         (''keys_exhausted'', JInt (count (\<lambda>k. k_status k = Quota_exceeded) keys)),
         (''keys_available'', JInt (count (\<lambda>k. k_status k = Active) keys))])"

definition quota_key :: "api_key \<Rightarrow> json" where
  "quota_key k = JObj
     [(''id'', JInt (k_id k)), (''api_key_masked'', JStr (mask_api_key_last4 (k_last4 k))),
      (''status'', JStr (status_text (k_status k))), (''daily_quota'', int_opt (k_daily_quota k)),
      (''daily_usage'', JInt (k_daily_usage k)), (''quota_reset_at'', date_to_iso (k_quota_reset_at k)),
      (''cooldown_until'', dt_to_rfc3339 (k_cooldown_until k))]"

definition quota_stats :: "bool \<Rightarrow> bool \<Rightarrow> 'b app \<Rightarrow> (fcam_error + json) \<times> 'b app" where
  "quota_stats include_keys include_clients s =
     db_queries (if include_clients then 2 else 1)
       (\<lambda>t. JObj ([(''summary'', quota_summary (filter schedulable (t_keys t)))] @
          (if include_keys then [(''keys'', JArr (map quota_key (t_keys t)))] else []) @
          (if include_clients then [(''clients'', JArr (map client_item (t_clients t)))] else []))) s"

subsection \<open>What the chart shows\<close>

lemma count_Nil [simp]: "count P [] = 0"
  by (simp add: count_def)

lemma count_Cons [simp]: "count P (r # rows) = (if P r then 1 else 0) + count P rows"
  by (simp add: count_def)

lemma count_filter [simp]: "count P (filter Q rows) = count (\<lambda>r. Q r \<and> P r) rows"
  by (induction rows) auto

lemma bump_length [simp]: "length (bump i xs) = length xs"
  by (simp add: bump_def)

lemma bump_nth:
  assumes "j < 24" and "length xs = 24"
  shows "bump i xs ! j = xs ! j + (if i = int j then 1 else 0)"
  using assms by (auto simp: bump_def nth_list_update)

lemma chart_step_pair:
  "chart_step tz now l (good, bad) =
     (if l_success l = Some True then (bump (bucket_index tz now (l_created_at l)) good, bad)
      else (good, bump (bucket_index tz now (l_created_at l)) bad))"
  by (simp add: chart_step_def Let_def)

lemma chart_fold:
  assumes "j < 24" and "length good = 24" and "length bad = 24"
  shows "fst (fold (chart_step tz now) rows (good, bad)) ! j
      = good ! j + count (\<lambda>l. l_success l = Some True \<and> bucket_index tz now (l_created_at l) = int j) rows \<and>
    snd (fold (chart_step tz now) rows (good, bad)) ! j
      = bad ! j + count (\<lambda>l. l_success l \<noteq> Some True \<and> bucket_index tz now (l_created_at l) = int j) rows"
  using assms(2,3)
proof (induction rows arbitrary: good bad)
  case (Cons l rows)
  with assms(1) show ?case by (auto simp: chart_step_pair bump_nth)
qed simp

text \<open>In a zone whose offset does not change, bucket \<open>j\<close> is the hour that begins at its label.\<close>

lemma hour_start_div: "hour_start l = l div hour_usec * hour_usec"
  unfolding hour_start_def by (rule minus_mod_eq_div_mult)

lemma hour_start_bounds: "hour_start l \<le> l" "l < hour_start l + hour_usec"
proof -
  have "0 \<le> l mod hour_usec" "l mod hour_usec < hour_usec" by simp_all
  then show "hour_start l \<le> l" "l < hour_start l + hour_usec" unfolding hour_start_def by linarith+
qed

lemma hour_start_unique: "hour_start l = k * hour_usec \<longleftrightarrow> k * hour_usec \<le> l \<and> l < (k + 1) * hour_usec"
proof
  assume "hour_start l = k * hour_usec"
  with hour_start_bounds [of l] show "k * hour_usec \<le> l \<and> l < (k + 1) * hour_usec" by simp
next
  assume b: "k * hour_usec \<le> l \<and> l < (k + 1) * hour_usec"
  have "(l - k * hour_usec) div hour_usec = 0" using b by (intro div_pos_pos_trivial) (simp_all add: algebra_simps)
  moreover have "l div hour_usec = (l - k * hour_usec + k * hour_usec) div hour_usec" by simp
  ultimately have "l div hour_usec = k" by (simp only: div_mult_self1)
  then show "hour_start l = k * hour_usec" by (simp add: hour_start_div)
qed

lemma bucket_of_hour:
  "bucket_index tz now t = j \<longleftrightarrow>
     start_hour tz now + j * hour_usec \<le> local_time tz t \<and>
     local_time tz t < start_hour tz now + (j + 1) * hour_usec"
proof -
  define m where "m = local_time tz now div hour_usec - 23"
  have s: "start_hour tz now = m * hour_usec"
    by (simp add: start_hour_def end_hour_def hour_start_div m_def algebra_simps)
  define h where "h = local_time tz t div hour_usec"
  have l: "hour_start (local_time tz t) = h * hour_usec" by (simp add: hour_start_div h_def)
  have "hour_start (local_time tz t) - start_hour tz now = (h - m) * hour_usec" by (simp add: s l algebra_simps)
  then have "bucket_index tz now t = h - m" by (simp add: bucket_index_def)
  then have "bucket_index tz now t = j \<longleftrightarrow> hour_start (local_time tz t) = (m + j) * hour_usec" by (auto simp: l)
  with hour_start_unique [of "local_time tz t" "m + j"] show ?thesis by (simp add: s algebra_simps)
qed

definition fixed_offset :: "int \<Rightarrow> tzinfo" where
  "fixed_offset off = \<lparr>tz_at = (\<lambda>_. off), tz_of_local = (\<lambda>_ _. off)\<rparr>"

definition chart_hour :: "tzinfo \<Rightarrow> instant \<Rightarrow> nat \<Rightarrow> instant \<Rightarrow> bool" where
  "chart_hour tz now j t \<longleftrightarrow>
     (let a = to_utc tz (start_hour tz now + int j * hour_usec) in a \<le> t \<and> t < a + hour_usec)"

lemma fixed_bucket:
  "in_chart (fixed_offset off) now t \<and> bucket_index (fixed_offset off) now t = int j \<and> j < 24
     \<longleftrightarrow> chart_hour (fixed_offset off) now j t \<and> j < 24"
proof -
  have "start_hour (fixed_offset off) now = end_hour (fixed_offset off) now - 23 * hour_usec"
    by (simp add: start_hour_def)
  then show ?thesis
    unfolding bucket_of_hour in_chart_def chart_hour_def to_utc_def local_time_def Let_def
    by (auto simp: fixed_offset_def algebra_simps)
qed

text \<open>C40. In a zone whose offset does not change, the chart is exact: bucket \<open>j\<close> of the first dataset is the
  number of successful requests of counted clients in the hour that begins at label \<open>j\<close>, bucket \<open>j\<close> of the
  second the number of the others, and no request of the 24 hours is left out or counted twice.\<close>

theorem chart_is_exact:
  assumes "j < 24"
  shows "fst (chart_counts (fixed_offset off) now (chart_rows (fixed_offset off) now cid t)) ! j =
      count (\<lambda>l. l_success l = Some True \<and> counted_log cid t l \<and> chart_hour (fixed_offset off) now j (l_created_at l))
        (t_logs t) \<and>
    snd (chart_counts (fixed_offset off) now (chart_rows (fixed_offset off) now cid t)) ! j =
      count (\<lambda>l. l_success l \<noteq> Some True \<and> counted_log cid t l \<and> chart_hour (fixed_offset off) now j (l_created_at l))
        (t_logs t)"
proof -
  let ?z = "fixed_offset off"
  have b: "in_chart ?z now x \<and> bucket_index ?z now x = int j \<longleftrightarrow> chart_hour ?z now j x" for x
    using fixed_bucket [of off now x j] assms by simp
  have e: "in_chart ?z now (l_created_at l) \<and> counted_log cid t l \<and> P l \<and> bucket_index ?z now (l_created_at l) = int j
      \<longleftrightarrow> P l \<and> counted_log cid t l \<and> chart_hour ?z now j (l_created_at l)" for l P
    using b [of "l_created_at l"] by blast
  show ?thesis
    using chart_fold [OF assms, of "replicate 24 0" "replicate 24 0" ?z now "chart_rows ?z now cid t"] assms
    by (simp add: chart_counts_def chart_rows_def e [of _ "\<lambda>l. l_success l = Some True"]
        e [of _ "\<lambda>l. l_success l \<noteq> Some True"])
qed

text \<open>A zone eight hours ahead of UTC at 1970-01-02 09:30 there: the last bucket holds what came since 09:00.\<close>

definition sample_log :: "int \<Rightarrow> bool option \<Rightarrow> instant \<Rightarrow> request_log" where
  "sample_log i ok t = \<lparr>l_id = i, l_request_id = ''r'' @ show_int i, l_client_id = Some 1, l_api_key_id = Some 1,
     l_endpoint = ''scrape'', l_method = ''POST'', l_status_code = Some 200, l_response_time_ms = Some 5,
     l_success = ok, l_retry_count = 0, l_error_message = None, l_error_details = None, l_idempotency_key = None,
     l_created_at = t\<rparr>"

definition logged_tables :: tables where
  "logged_tables = sample_tables\<lparr>t_logs :=
     [sample_log 1 (Some True) (seconds 90000), sample_log 2 None (seconds 91000), sample_log 3 (Some True) (seconds 89000)]\<rparr>"

theorem chart_is_exact_witness:
  "fst (chart_counts (fixed_offset (seconds 28800)) (seconds 91800)
     (chart_rows (fixed_offset (seconds 28800)) (seconds 91800) (Some 1) logged_tables)) ! 23 = 1"
proof -
  have j: "(23::nat) < 24" by simp
  note c = conjunct1 [OF chart_is_exact [OF j, of "seconds 28800" "seconds 91800" "Some 1" logged_tables]]
  show ?thesis unfolding c
    by (simp add: count_def logged_tables_def sample_log_def sample_tables_def sample_client_def counted_log_def
        active_client_def only_client_def chart_hour_def to_utc_def start_hour_def end_hour_def hour_start_def
        local_time_def fixed_offset_def seconds_def Let_def)
qed

end
