(* ===== verification/Admin_Logs.thy ===== *)
theory Admin_Logs
  imports Admin_Stats Admin_Keys
begin

text \<open>
  The request log and the audit log (\<open>query_logs\<close> and \<open>query_audit_logs\<close> of \<open>app/api/control_plane.py\<close>), read
  page by page with a cursor. Timestamps are compared as instants, as PostgreSQL does.
\<close>

subsection \<open>Levels\<close>

datatype log_level = Info | Warn | Error

definition request_log_level :: "int option \<Rightarrow> bool option \<Rightarrow> log_level" where
  "request_log_level status_code success =
     (case status_code of
        None \<Rightarrow> Error
      | Some c \<Rightarrow>
          if success = Some True \<and> c < 400 then Info
          else if 400 \<le> c \<and> c < 500 then Warn
          else Error)"

fun level_text :: "log_level \<Rightarrow> string" where
  "level_text Info = ''info''"
| "level_text Warn = ''warn''"
| "level_text Error = ''error''"

text \<open>The condition each level adds to the query; a comparison with \<open>NULL\<close> is not true.\<close>

fun level_filter :: "log_level \<Rightarrow> request_log \<Rightarrow> bool" where
  "level_filter Info l = (case l_status_code l of None \<Rightarrow> False | Some c \<Rightarrow> c < 400 \<and> l_success l = Some True)"
| "level_filter Warn l = (case l_status_code l of None \<Rightarrow> False | Some c \<Rightarrow> 400 \<le> c \<and> c < 500)"
| "level_filter Error l =
     (case l_status_code l of
        None \<Rightarrow> True
      | Some c \<Rightarrow> 500 \<le> c \<or> (c < 400 \<and> \<not> (case l_success l of None \<Rightarrow> False | Some b \<Rightarrow> b)))"

definition parse_level :: "string option \<Rightarrow> fcam_error + log_level option" where
  "parse_level lv =
     (case lv of
        None \<Rightarrow> Inr None
      | Some v \<Rightarrow>
          (let x = lower (strip v) in
           if strip v = [] then Inr None
           else if x = ''info'' then Inr (Some Info)
           else if x = ''warn'' then Inr (Some Warn)
           else if x = ''error'' then Inr (Some Error)
           else Inl (validation_error ''level must be one of info|warn|error'')))"

text \<open>The filter of a level selects the rows that are shown with it.\<close>

lemma level_filter_iff: "level_filter v l \<longleftrightarrow> request_log_level (l_status_code l) (l_success l) = v"
  by (cases v) (auto simp: request_log_level_def split: option.splits)

subsection \<open>The request log\<close>

record log_query =
  gq_limit :: int
  gq_from :: "string option"
  gq_to :: "string option"
  gq_client_id :: "int option"
  gq_api_key_id :: "int option"
  gq_endpoint :: "string option"
  gq_status_code :: "int option"
  gq_success :: "bool option"
  gq_level :: "string option"
  gq_q :: "string option"
  gq_request_id :: "string option"
  gq_idempotency_key :: "string option"

definition given_time :: "string option \<Rightarrow> fcam_error + instant option" where
  "given_time x =
     (case x of
        None \<Rightarrow> Inr None
      | Some v \<Rightarrow> (case parse_rfc3339 v of Inl err \<Rightarrow> Inl err | Inr t \<Rightarrow> Inr (Some t)))"

definition asked :: "'a option \<Rightarrow> 'a option \<Rightarrow> bool" where
  "asked want have_v \<longleftrightarrow> want = None \<or> have_v = want"

definition text_match :: "string option \<Rightarrow> request_log \<Rightarrow> bool" where
  "text_match q l \<longleftrightarrow>
     (case search_text q of
        None \<Rightarrow> True
      | Some t \<Rightarrow>
          matches t (l_request_id l) \<or> matches t (l_endpoint l) \<or>
          matches t (case l_error_message l of None \<Rightarrow> [] | Some m \<Rightarrow> m) \<or>
          matches t (case l_error_details l of None \<Rightarrow> [] | Some m \<Rightarrow> m))"

definition search_ok :: "string option \<Rightarrow> bool" where
  "search_ok q \<longleftrightarrow> (case search_text q of None \<Rightarrow> True | Some t \<Rightarrow> length t \<le> 200)"

text \<open>The checks in their order, and the condition the query ends up with (the cursor apart).\<close>

definition log_filter :: "log_query \<Rightarrow> fcam_error + (request_log \<Rightarrow> bool)" where
  "log_filter q =
     (case parse_level (gq_level q) of
        Inl err \<Rightarrow> Inl err
      | Inr lv \<Rightarrow>
          (case given_time (gq_from q) of
             Inl err \<Rightarrow> Inl err
           | Inr a \<Rightarrow>
               (case given_time (gq_to q) of
                  Inl err \<Rightarrow> Inl err
                | Inr b \<Rightarrow>
                    if \<not> search_ok (gq_q q) then Inl (validation_error ''q too long'')
                    else Inr (\<lambda>l. in_window a b (l_created_at l) \<and> asked (gq_client_id q) (l_client_id l) \<and>
                      asked (gq_api_key_id q) (l_api_key_id l) \<and> asked (gq_endpoint q) (Some (l_endpoint l)) \<and>
                      asked (gq_status_code q) (l_status_code l) \<and> asked (gq_success q) (l_success l) \<and>
                      text_match (gq_q q) l \<and> asked (gq_request_id q) (Some (l_request_id l)) \<and>
                      asked (gq_idempotency_key q) (l_idempotency_key l) \<and>
                      (case lv of None \<Rightarrow> True | Some v \<Rightarrow> level_filter v l)))))"

subsection \<open>Pages\<close>

text \<open>Both handlers read one row more than the page holds; the last row shown is the next cursor.\<close>

definition before_cursor :: "int option \<Rightarrow> int \<Rightarrow> bool" where
  "before_cursor cursor i \<longleftrightarrow> (case cursor of None \<Rightarrow> True | Some c \<Rightarrow> i < c)"

definition cursor_rows :: "('r \<Rightarrow> int) \<Rightarrow> ('r \<Rightarrow> bool) \<Rightarrow> int option \<Rightarrow> 'r list \<Rightarrow> 'r list" where
  "cursor_rows ident P cursor rows = by_id_desc ident (filter (\<lambda>r. P r \<and> before_cursor cursor (ident r)) rows)"

record 'r page =
  pg_items :: "'r list"
  pg_next_cursor :: "int option"
  pg_has_more :: bool

definition cut_page :: "('r \<Rightarrow> int) \<Rightarrow> int \<Rightarrow> 'r list \<Rightarrow> 'r page" where
  "cut_page ident limit_n found =
     (let rows = take (nat (limit_n + 1)) found;
          has_more = (limit_n < int (length rows));
          items = take (nat limit_n) rows
      in \<lparr>pg_items = items,
          pg_next_cursor = (if has_more \<and> items \<noteq> [] then Some (ident (List.last items)) else None),
          pg_has_more = has_more\<rparr>)"

definition bool_opt :: "bool option \<Rightarrow> json" where
  "bool_opt x = (case x of None \<Rightarrow> JNull | Some b \<Rightarrow> JBool b)"

definition log_item :: "tables \<Rightarrow> request_log \<Rightarrow> json" where
  "log_item t l = JObj
     [(''id'', JInt (l_id l)), (''created_at'', dt_to_rfc3339 (Some (l_created_at l))),
      (''level'', JStr (level_text (request_log_level (l_status_code l) (l_success l)))),
      (''request_id'', JStr (l_request_id l)), (''client_id'', int_opt (l_client_id l)),
      (''api_key_id'', int_opt (l_api_key_id l)),
      (''api_key_masked'',
        (case l_api_key_id l of
           None \<Rightarrow> JNull
         | Some kid \<Rightarrow>
             if kid = 0 then JNull
             else JStr (mask_api_key_last4
               (case find (\<lambda>k. k_id k = kid) (t_keys t) of None \<Rightarrow> [] | Some k \<Rightarrow> k_last4 k)))),
      (''method'', JStr (l_method l)), (''endpoint'', JStr (l_endpoint l)),
      (''status_code'', int_opt (l_status_code l)), (''response_time_ms'', int_opt (l_response_time_ms l)),
      (''success'', bool_opt (l_success l)), (''retry_count'', JInt (l_retry_count l)),
      (''error_message'', str_opt (l_error_message l)), (''error_details'', str_opt (l_error_details l)),
      (''idempotency_key'', str_opt (l_idempotency_key l))]"

definition page_json :: "('r \<Rightarrow> json) \<Rightarrow> 'r page \<Rightarrow> json" where
  "page_json item p = JObj
     [(''items'', JArr (map item (pg_items p))), (''next_cursor'', int_opt (pg_next_cursor p)),
      (''has_more'', JBool (pg_has_more p))]"

text \<open>The rows of the answer; \<open>page_json (log_item t)\<close> is its body.\<close>

definition query_logs :: "log_query \<Rightarrow> int option \<Rightarrow> tables \<Rightarrow> fcam_error + request_log page" where
  "query_logs q cursor t =
     (case admin_limit (gq_limit q) of
        Inl err \<Rightarrow> Inl err
      | Inr limit_n \<Rightarrow>
          (case log_filter q of
             Inl err \<Rightarrow> Inl err
           | Inr P \<Rightarrow> Inr (cut_page l_id limit_n (cursor_rows l_id P cursor (t_logs t)))))"

definition query_logs_api :: "log_query \<Rightarrow> int option \<Rightarrow> 'b app \<Rightarrow> fcam_error + json" where
  "query_logs_api q cursor s =
     (case query_logs q cursor (cur (sess s)) of
        Inl err \<Rightarrow> Inl err
      | Inr p \<Rightarrow> Inr (page_json (log_item (cur (sess s))) p))"

subsection \<open>The audit log\<close>

record audit_query =
  aq_limit :: int
  aq_from :: "string option"
  aq_to :: "string option"
  aq_actor_type :: "string option"
  aq_action :: "string option"
  aq_resource_type :: "string option"
  aq_resource_id :: "string option"

definition audit_filter :: "audit_query \<Rightarrow> fcam_error + (audit_log \<Rightarrow> bool)" where
  "audit_filter q =
     (case given_time (aq_from q) of
        Inl err \<Rightarrow> Inl err
      | Inr a \<Rightarrow>
          (case given_time (aq_to q) of
             Inl err \<Rightarrow> Inl err
           | Inr b \<Rightarrow>
               Inr (\<lambda>r. in_window a b (a_created_at r) \<and> asked (aq_actor_type q) (Some (a_actor_type r)) \<and>
                 asked (aq_action q) (Some (a_action r)) \<and> asked (aq_resource_type q) (a_resource_type r) \<and>
                 asked (aq_resource_id q) (a_resource_id r))))"

definition audit_item :: "audit_log \<Rightarrow> json" where
  "audit_item r = JObj
     [(''id'', JInt (a_id r)), (''created_at'', dt_to_rfc3339 (Some (a_created_at r))),
      (''actor_type'', JStr (a_actor_type r)), (''actor_id'', str_opt (a_actor_id r)),
      (''action'', JStr (a_action r)), (''resource_type'', str_opt (a_resource_type r)),
      (''resource_id'', str_opt (a_resource_id r)), (''ip'', str_opt (a_ip r)),
      (''user_agent'', str_opt (a_user_agent r))]"

definition query_audit_logs :: "audit_query \<Rightarrow> int option \<Rightarrow> tables \<Rightarrow> fcam_error + audit_log page" where
  "query_audit_logs q cursor t =
     (case admin_limit (aq_limit q) of
        Inl err \<Rightarrow> Inl err
      | Inr limit_n \<Rightarrow>
          (case audit_filter q of
             Inl err \<Rightarrow> Inl err
           | Inr P \<Rightarrow> Inr (cut_page a_id limit_n (cursor_rows a_id P cursor (t_audit t)))))"

definition query_audit_logs_api :: "audit_query \<Rightarrow> int option \<Rightarrow> 'b app \<Rightarrow> fcam_error + json" where
  "query_audit_logs_api q cursor s =
     (case query_audit_logs q cursor (cur (sess s)) of
        Inl err \<Rightarrow> Inl err
      | Inr p \<Rightarrow> Inr (page_json audit_item p))"

subsection \<open>Reading page after page\<close>

text \<open>What a reader does who asks for the next page until there is none; \<open>None\<close> when the fuel is used up.\<close>

fun follow :: "(int option \<Rightarrow> fcam_error + 'r page) \<Rightarrow> nat \<Rightarrow> int option \<Rightarrow> (fcam_error + 'r list) option" where
  "follow query 0 cursor = None"
| "follow query (Suc n) cursor =
     (case query cursor of
        Inl err \<Rightarrow> Some (Inl err)
      | Inr p \<Rightarrow>
          (case pg_next_cursor p of
             None \<Rightarrow> Some (Inr (pg_items p))
           | Some c \<Rightarrow>
               (case follow query n (Some c) of
                  None \<Rightarrow> None
                | Some (Inl err) \<Rightarrow> Some (Inl err)
                | Some (Inr rest) \<Rightarrow> Some (Inr (pg_items p @ rest)))))"

lemma by_id_desc_strict:
  assumes "distinct (map f rows)"
  shows "sorted_wrt (\<lambda>a b. f b < f a) (by_id_desc f rows)"
proof -
  have "distinct (map (\<lambda>r. - f r) (by_id_desc f rows))"
    using assms by (simp add: by_id_desc_def distinct_map inj_on_def)
  then have "sorted_wrt (<) (map (\<lambda>r. - f r) (by_id_desc f rows))"
    by (simp add: strict_sorted_iff by_id_desc_def)
  then show ?thesis by (simp add: sorted_wrt_map)
qed

lemma filter_below:
  assumes "sorted_wrt (\<lambda>a b. f b < f a) xs" and "0 < n" and "n \<le> length xs"
  shows "filter (\<lambda>r. f r < (f (List.last (take n xs)) :: int)) xs = drop n xs"
proof -
  have ne: "take n xs \<noteq> []" using assms(2,3) by auto
  then have t: "take n xs = butlast (take n xs) @ [List.last (take n xs)]" by simp
  have "sorted_wrt (\<lambda>a b. f b < f a) (take n xs @ drop n xs)" using assms(1) by simp
  then have w: "sorted_wrt (\<lambda>a b. f b < f a) (take n xs)"
    "\<forall>a \<in> set (take n xs). \<forall>b \<in> set (drop n xs). f b < f a" unfolding sorted_wrt_append by blast+
  have "\<forall>a \<in> set (take n xs). f (List.last (take n xs)) \<le> f a"
    using w(1) by (subst (asm) t, subst t) (auto simp only: sorted_wrt_append set_append, auto)
  then have "filter (\<lambda>r. f r < f (List.last (take n xs))) (take n xs) = []" by (auto simp: filter_empty_conv)
  moreover have "filter (\<lambda>r. f r < f (List.last (take n xs))) (drop n xs) = drop n xs"
    using w(2) ne by (auto simp: filter_id_conv)
  moreover have "filter Q xs = filter Q (take n xs) @ filter Q (drop n xs)" for Q
    by (metis append_take_drop_id filter_append)
  ultimately show ?thesis by (metis append_Nil)
qed

text \<open>The query after a page finds what the page left.\<close>

lemma cursor_rows_next:
  assumes "distinct (map ident rows)" and "0 < n" and "n \<le> length (cursor_rows ident P cursor rows)"
    and "c = ident (List.last (take n (cursor_rows ident P cursor rows)))"
  shows "cursor_rows ident P (Some c) rows = drop n (cursor_rows ident P cursor rows)"
proof -
  let ?L = "cursor_rows ident P cursor rows"
  have "distinct (map ident (filter (\<lambda>r. P r \<and> before_cursor cursor (ident r)) rows))"
    using assms(1) by (simp add: distinct_map inj_on_def)
  then have "sorted_wrt (\<lambda>a b. ident b < ident a) ?L" unfolding cursor_rows_def by (rule by_id_desc_strict)
  then have d: "filter (\<lambda>r. ident r < c) ?L = drop n ?L" using assms(2-4) filter_below by blast
  have "List.last (take n ?L) \<in> set ?L" using assms(2,3) by (metis in_set_takeD last_in_set length_greater_0_conv
      length_take min_less_iff_conj order_less_le_trans)
  then have "before_cursor cursor c" by (auto simp: assms(4) cursor_rows_def by_id_desc_def)
  then have "(P r \<and> before_cursor (Some c) (ident r)) \<longleftrightarrow> (P r \<and> before_cursor cursor (ident r)) \<and> ident r < c" for r
    by (auto simp: before_cursor_def split: option.splits)
  then have "filter (\<lambda>r. P r \<and> before_cursor (Some c) (ident r)) rows
      = filter (\<lambda>r. ident r < c) (filter (\<lambda>r. P r \<and> before_cursor cursor (ident r)) rows)"
    by (simp add: conj_commute)
  then have "cursor_rows ident P (Some c) rows = filter (\<lambda>r. ident r < c) ?L"
    by (simp add: cursor_rows_def by_id_desc_def filter_sort)
  with d show ?thesis by simp
qed

lemma cut_page_sel:
  assumes "0 < n"
  shows "pg_items (cut_page ident n found) = take (nat n) found"
    and "pg_next_cursor (cut_page ident n found) =
      (if nat n < length found then Some (ident (List.last (take (nat n) found))) else None)"
proof -
  have "n < int (length (take (nat (n + 1)) found)) \<longleftrightarrow> nat n < length found" using assms by auto
  moreover have "take (nat n) (take (nat (n + 1)) found) = take (nat n) found" using assms by (simp add: min_def)
  ultimately show "pg_items (cut_page ident n found) = take (nat n) found"
    "pg_next_cursor (cut_page ident n found) =
      (if nat n < length found then Some (ident (List.last (take (nat n) found))) else None)"
    using assms by (auto simp: cut_page_def Let_def)
qed

text \<open>What both handlers have in common.\<close>

locale cursor_paging =
  fixes ident :: "'r \<Rightarrow> int" and rows :: "'t \<Rightarrow> 'r list"
    and query :: "'q \<Rightarrow> int option \<Rightarrow> 't \<Rightarrow> fcam_error + 'r page"
    and limit :: "'q \<Rightarrow> int" and wanted :: "'q \<Rightarrow> fcam_error + ('r \<Rightarrow> bool)"
  assumes query_page: "wanted q = Inr P \<Longrightarrow> admin_limit (limit q) = Inr n \<Longrightarrow>
    query q cursor t = Inr (cut_page ident n (cursor_rows ident P cursor (rows t)))"
begin

lemma follow_from:
  assumes "distinct (map ident (rows t))" and "wanted q = Inr P" and "admin_limit (limit q) = Inr n"
    and "length (cursor_rows ident P cursor (rows t)) < fuel"
  shows "follow (\<lambda>c. query q c t) fuel cursor = Some (Inr (cursor_rows ident P cursor (rows t)))"
  using assms(4)
proof (induction fuel arbitrary: cursor)
  case (Suc fuel)
  let ?L = "cursor_rows ident P cursor (rows t)"
  have n: "0 < n" using assms(3) by (auto simp: admin_limit_def split: if_splits)
  note q = query_page [OF assms(2,3)] and c = cut_page_sel [OF n, of ident ?L]
  show ?case
  proof (cases "nat n < length ?L")
    case False
    then show ?thesis by (simp add: q c)
  next
    case True
    let ?c = "ident (List.last (take (nat n) ?L))"
    have next_rows: "cursor_rows ident P (Some ?c) (rows t) = drop (nat n) ?L"
      using n True by (intro cursor_rows_next [OF assms(1)]) auto
    have "follow (\<lambda>c. query q c t) fuel (Some ?c) = Some (Inr (drop (nat n) ?L))"
      unfolding next_rows [symmetric] using Suc.prems n True by (intro Suc.IH) (simp add: next_rows)
    with True show ?thesis by (simp add: q c)
  qed
qed simp

lemma follow_all:
  assumes "distinct (map ident (rows t))" and "wanted q = Inr P" and "admin_limit (limit q) = Inr n"
  shows "follow (\<lambda>c. query q c t) (Suc (length (rows t))) None = Some (Inr (by_id_desc ident (filter P (rows t))))"
proof -
  have e: "cursor_rows ident P None (rows t) = by_id_desc ident (filter P (rows t))"
    by (simp add: cursor_rows_def before_cursor_def)
  have "length (cursor_rows ident P None (rows t)) < Suc (length (rows t))"
    by (simp add: e by_id_desc_def le_imp_less_Suc)
  from follow_from [OF assms this] show ?thesis by (simp only: e)
qed

end

interpretation request_logs: cursor_paging l_id t_logs query_logs gq_limit log_filter
  by unfold_locales (simp add: query_logs_def)

interpretation audit_logs: cursor_paging a_id t_audit query_audit_logs aq_limit audit_filter
  by unfold_locales (simp add: query_audit_logs_def)

lemma log_filter_level:
  assumes "log_filter q = Inr P" and "parse_level (gq_level q) = Inr (Some lv)" and "P l"
  shows "request_log_level (l_status_code l) (l_success l) = lv"
  using assms by (auto simp: log_filter_def level_filter_iff split: sum.splits if_splits)

text \<open>C30. Whoever follows the cursors of the request log gets, after at most one page per row, every row the query
  asks for, once, the newest first; with a level asked for, exactly rows shown with that level. (The audit log has
  the same pages: \<open>audit_logs.follow_all\<close>.)\<close>

theorem logs_read_completely:
  assumes "distinct (map l_id (t_logs t))" and "log_filter q = Inr P" and "admin_limit (gq_limit q) = Inr n"
  shows "follow (\<lambda>cursor. query_logs q cursor t) (Suc (length (t_logs t))) None
      = Some (Inr (by_id_desc l_id (filter P (t_logs t)))) \<and>
    (\<forall>lv l. parse_level (gq_level q) = Inr (Some lv) \<and> P l \<longrightarrow>
       request_log_level (l_status_code l) (l_success l) = lv)"
  using request_logs.follow_all [OF assms] log_filter_level [OF assms(2)] by blast

text \<open>Three requests, of which two succeeded, read one by one.\<close>

definition sample_log_query :: log_query where
  "sample_log_query = \<lparr>gq_limit = 1, gq_from = None, gq_to = None, gq_client_id = Some 1, gq_api_key_id = None,
     gq_endpoint = None, gq_status_code = None, gq_success = None, gq_level = Some '' INFO '', gq_q = None,
     gq_request_id = None, gq_idempotency_key = None\<rparr>"

theorem logs_read_completely_witness:
  "follow (\<lambda>cursor. query_logs sample_log_query cursor logged_tables) 4 None
     = Some (Inr [sample_log 3 (Some True) (seconds 89000), sample_log 1 (Some True) (seconds 90000)])"
proof -
  have level: "parse_level (Some '' INFO '') = Inr (Some Info)" by code_simp
  obtain P where P: "log_filter sample_log_query = Inr P"
    and sel: "\<And>l. P l \<longleftrightarrow> l_client_id l = Some 1 \<and> level_filter Info l"
    by (auto simp: log_filter_def sample_log_query_def level given_time_def search_ok_def search_text_def text_match_def
        asked_def in_window_def)
  have d: "distinct (map l_id (t_logs logged_tables))" by (simp add: logged_tables_def sample_log_def)
  have n: "admin_limit (gq_limit sample_log_query) = Inr 1" by (simp add: admin_limit_def sample_log_query_def)
  have len: "Suc (length (t_logs logged_tables)) = 4" by (simp add: logged_tables_def)
  have rows: "by_id_desc l_id (filter P (t_logs logged_tables))
      = [sample_log 3 (Some True) (seconds 89000), sample_log 1 (Some True) (seconds 90000)]"
    by (simp add: logged_tables_def sel by_id_desc_def sample_log_def)
  show ?thesis using conjunct1 [OF logs_read_completely [OF d P n]] unfolding len rows .
qed

end
