(* ===== verification/Redact.thy ===== *)
theory Redact
  imports Errors
begin

text \<open>
  \<open>app/core/redact.py\<close> and the formatters of \<open>app/observability/logging.py\<close>. The two regular expressions are
  matched as Python's \<open>re\<close> does: leftmost, greedy with backtracking over the possible ends, the scan going
  on behind a match. \<open>\w\<close> and \<open>\s\<close> are Python's on code points below 256.
\<close>

subsection \<open>Characters and boundaries\<close>

definition alnum :: "char \<Rightarrow> bool" where
  "alnum c = (let n = (of_char c :: nat) in
     (48 \<le> n \<and> n \<le> 57) \<or> (65 \<le> n \<and> n \<le> 90) \<or> (97 \<le> n \<and> n \<le> 122))"

definition word_char :: "char \<Rightarrow> bool" where
  "word_char c = (let n = (of_char c :: nat) in
     alnum c \<or> n \<in> {95, 170, 178, 179, 181, 185, 186, 188, 189, 190} \<or> (192 \<le> n \<and> n \<noteq> 215 \<and> n \<noteq> 247))"

definition word_opt :: "char option \<Rightarrow> bool" where
  "word_opt x = (case x of None \<Rightarrow> False | Some c \<Rightarrow> word_char c)"

text \<open>\<open>\b\<close> between two characters, or at an end of the text.\<close>

definition boundary :: "char option \<Rightarrow> char option \<Rightarrow> bool" where
  "boundary a b \<longleftrightarrow> word_opt a \<noteq> word_opt b"

definition nth_opt :: "string \<Rightarrow> nat \<Rightarrow> char option" where
  "nth_opt s n = (case drop n s of [] \<Rightarrow> None | c # _ \<Rightarrow> Some c)"

text \<open>The first of the candidate ends with a boundary; the last character matched is before it.\<close>

definition end_at :: "string \<Rightarrow> nat list \<Rightarrow> nat option" where
  "end_at s ends = find (\<lambda>n. boundary (nth_opt s (n - 1)) (nth_opt s n)) ends"

subsection \<open>The two patterns\<close>

definition token_char :: "char \<Rightarrow> bool" where
  "token_char c \<longleftrightarrow> alnum c \<or> c \<in> set ''._-~+/''"

text \<open>\<open>(?i)\bbearer\s+[a-z0-9._\-~+/]+=*\b\<close>: the length of the match at this place.\<close>

definition match_bearer :: "char option \<Rightarrow> string \<Rightarrow> nat option" where
  "match_bearer prev s =
     (if boundary prev (nth_opt s 0) \<and> lower (take 6 s) = ''bearer'' then
        (let spaces = takeWhile py_space (drop 6 s);
             rest = dropWhile py_space (drop 6 s);
             n = length (takeWhile token_char rest);
             m = length (takeWhile (\<lambda>c. c = CHR ''='') (drop n rest))
         in if spaces = [] \<or> n = 0 then None
            else map_option (\<lambda>k. 6 + length spaces + k) (end_at rest (rev [n..<n + m + 1] @ rev [1..<n])))
      else None)"

text \<open>\<open>\bfc-[A-Za-z0-9]{8,}\b\<close>.\<close>

definition match_key :: "char option \<Rightarrow> string \<Rightarrow> nat option" where
  "match_key prev s =
     (if boundary prev (nth_opt s 0) \<and> take 3 s = ''fc-'' then
        map_option (\<lambda>k. 3 + k)
          (end_at (drop 3 s) (rev [8..<length (takeWhile alnum (drop 3 s)) + 1]))
      else None)"

type_synonym matcher = "char option \<Rightarrow> string \<Rightarrow> nat option"

text \<open>\<open>pattern.sub(repl, text)\<close>; \<open>prev\<close> is the character before. The patterns do not match the empty text.\<close>

function re_sub :: "matcher \<Rightarrow> string \<Rightarrow> char option \<Rightarrow> string \<Rightarrow> string" where
  "re_sub m repl prev [] = []"
| "re_sub m repl prev (c # s) =
     (case m prev (c # s) of
        None \<Rightarrow> c # re_sub m repl (Some c) s
      | Some n \<Rightarrow> repl @ re_sub m repl (nth_opt (c # s) (n - 1)) (drop (n - 1) s))"
  by pat_completeness auto
termination by (relation "measure (\<lambda>(m, repl, prev, s). length s)") auto

definition REDACTED :: string where
  "REDACTED = ''[REDACTED]''"

definition key_mask :: string where
  "key_mask = ''fc-'' @ REDACTED"

definition redact_text :: "string \<Rightarrow> string" where
  "redact_text text =
     re_sub match_key key_mask None (re_sub match_bearer (''Bearer '' @ REDACTED) None text)"

fun redact_data :: "string set \<Rightarrow> json \<Rightarrow> json" where
  "redact_data keys (JObj d) =
     JObj (map (\<lambda>(k, v). (k, if lower k \<in> keys then JStr REDACTED else redact_data keys v)) d)"
| "redact_data keys (JArr xs) = JArr (map (redact_data keys) xs)"
| "redact_data keys (JStr s) = JStr (redact_text s)"
| "redact_data keys JNull = JNull"
| "redact_data keys (JBool b) = JBool b"
| "redact_data keys (JInt i) = JInt i"
| "redact_data keys (JFloat s) = JFloat s"

subsection \<open>Log lines\<close>

record log_record =
  lr_level :: string
  lr_logger :: string
  lr_message :: string
  lr_fields :: "(string \<times> json) list option"

definition id_or_dash :: "string option \<Rightarrow> string" where
  "id_or_dash rid = (case rid of None \<Rightarrow> ''-'' | Some r \<Rightarrow> if r = [] then ''-'' else r)"

text \<open>\<open>JsonFormatter.format\<close> and \<open>PlainFormatter.format\<close>; \<open>timestamp\<close> is the time as RFC 3339 text.\<close>

definition json_format :: "string set \<Rightarrow> string \<Rightarrow> string option \<Rightarrow> log_record \<Rightarrow> string" where
  "json_format keys timestamp rid r =
     dumps_default (JObj
       ([(''timestamp'', JStr timestamp), (''level'', JStr (lr_level r)), (''logger'', JStr (lr_logger r)),
         (''message'', JStr (redact_text (lr_message r))), (''request_id'', JStr (id_or_dash rid))] @
        (case lr_fields r of None \<Rightarrow> [] | Some d \<Rightarrow> [(''fields'', redact_data keys (JObj d))])))"

definition plain_format :: "string set \<Rightarrow> string option \<Rightarrow> log_record \<Rightarrow> string" where
  "plain_format keys rid r =
     lr_level r @ '' '' @ lr_logger r @ '' request_id='' @ id_or_dash rid @ '' '' @ redact_text (lr_message r) @
     (case lr_fields r of
        None \<Rightarrow> []
      | Some d \<Rightarrow> if d = [] then [] else '' '' @ dumps_default (redact_data keys (JObj d)))"

subsection \<open>No key is left\<close>

text \<open>Whether the pattern matches at some place of a text.\<close>

fun occurs :: "matcher \<Rightarrow> char option \<Rightarrow> string \<Rightarrow> bool" where
  "occurs m prev [] = (m prev [] \<noteq> None)"
| "occurs m prev (c # s) = (m prev (c # s) \<noteq> None \<or> occurs m (Some c) s)"

lemma nth_opt_simps [simp]: "nth_opt [] n = None" "nth_opt (c # s) 0 = Some c" "nth_opt (c # s) (Suc n) = nth_opt s n"
  by (simp_all add: nth_opt_def)

lemma nth_opt_append: "n < length s \<Longrightarrow> nth_opt (s @ t) n = nth_opt s n"
  by (induction s arbitrary: n) (auto simp: less_Suc_eq_0_disj)

lemma nth_opt_some: "n < length s \<Longrightarrow> nth_opt s n = Some (s ! n)"
  by (induction s arbitrary: n) (auto simp: less_Suc_eq_0_disj)

lemma alnum_word: "alnum c \<Longrightarrow> word_char c"
  by (simp add: word_char_def Let_def)

abbreviation alnum_run :: "string \<Rightarrow> nat" where
  "alnum_run s \<equiv> length (takeWhile alnum s)"

lemma in_run_word: "n < alnum_run s \<Longrightarrow> word_opt (nth_opt s n)"
proof -
  assume n: "n < alnum_run s"
  have "alnum (takeWhile alnum s ! n)" using n by (meson nth_mem set_takeWhileD)
  then have "alnum (s ! n)" using n by (simp add: takeWhile_nth)
  moreover have "n < length s" using n length_takeWhile_le [of alnum s] by linarith
  ultimately show ?thesis by (simp add: nth_opt_some word_opt_def alnum_word)
qed

text \<open>
  A key can only end behind its last letter or digit: the match needs eight of them and no word character
  after them.
\<close>

lemma end_at_some: "end_at s ends = Some n \<Longrightarrow> n \<in> set ends \<and> boundary (nth_opt s (n - 1)) (nth_opt s n)"
  unfolding end_at_def by (auto dest: find_Some_mem)

lemma end_at_none: "end_at s ends = None \<longleftrightarrow> (\<forall>n \<in> set ends. \<not> boundary (nth_opt s (n - 1)) (nth_opt s n))"
  unfolding end_at_def by (rule find_None_all)

lemma run_end:
  "8 \<le> n \<Longrightarrow> n \<le> alnum_run s \<Longrightarrow>
     boundary (nth_opt s (n - 1)) (nth_opt s n) \<longleftrightarrow> n = alnum_run s \<and> \<not> word_opt (nth_opt s n)"
  using in_run_word [of "n - 1" s] in_run_word [of n s] by (cases "n = alnum_run s") (auto simp: boundary_def)

definition key_here :: "char option \<Rightarrow> string \<Rightarrow> bool" where
  "key_here prev s \<longleftrightarrow> \<not> word_opt prev \<and>
     (\<exists>t. s = ''fc-'' @ t \<and> 8 \<le> alnum_run t \<and> \<not> word_opt (nth_opt t (alnum_run t)))"

lemma take_3: "take 3 s = ''fc-'' \<longleftrightarrow> (\<exists>t. s = ''fc-'' @ t)"
  by (cases s rule: remdups_adj.cases; cases "tl (tl s)") auto

lemma f_word: "word_opt (Some (CHR ''f''))"
  by (simp add: word_opt_def word_char_def alnum_def)

lemma match_key_some: "match_key prev s = Some n \<Longrightarrow> key_here prev s \<and> n = 3 + alnum_run (drop 3 s)"
proof -
  assume "match_key prev s = Some n"
  then obtain t k where t: "s = ''fc-'' @ t" "\<not> word_opt prev" "n = 3 + k"
    and k: "end_at t (rev [8..<alnum_run t + 1]) = Some k"
    by (auto simp: match_key_def take_3 boundary_def f_word split: if_splits)
  from end_at_some [OF k] have "8 \<le> k" "k \<le> alnum_run t" "boundary (nth_opt t (k - 1)) (nth_opt t k)" by auto
  with run_end [of k t] have "k = alnum_run t" "\<not> word_opt (nth_opt t k)" by auto
  with t \<open>8 \<le> k\<close> show ?thesis by (auto simp: key_here_def)
qed

lemma match_key_iff: "match_key prev s \<noteq> None \<longleftrightarrow> key_here prev s"
proof
  assume "match_key prev s \<noteq> None"
  then show "key_here prev s" using match_key_some by blast
next
  assume "key_here prev s"
  then obtain t where t: "\<not> word_opt prev" "s = ''fc-'' @ t" "8 \<le> alnum_run t" "\<not> word_opt (nth_opt t (alnum_run t))"
    by (auto simp: key_here_def)
  then have "alnum_run t \<in> set (rev [8..<alnum_run t + 1])" and "boundary (nth_opt t (alnum_run t - 1)) (nth_opt t (alnum_run t))"
    using run_end [of "alnum_run t" t] by auto
  then have "end_at t (rev [8..<alnum_run t + 1]) \<noteq> None" unfolding end_at_none by blast
  then show "match_key prev s \<noteq> None" using t by (simp add: match_key_def boundary_def f_word)
qed

text \<open>Replacing keys changes no place where none begins, as the replacement begins with the same letter.\<close>

abbreviation mask :: "char option \<Rightarrow> string \<Rightarrow> string" where
  "mask \<equiv> re_sub match_key key_mask"

lemma mask_plain: "\<not> key_here prev (c # s) \<Longrightarrow> mask prev (c # s) = c # mask (Some c) s"
  using match_key_iff [of prev "c # s"] by (auto split: option.splits)

lemma mask_key:
  assumes "key_here prev s"
  obtains t where "s = ''fc-'' @ t" "8 \<le> alnum_run t" "\<not> word_opt (nth_opt t (alnum_run t))"
    "mask prev s = key_mask @ mask (Some (t ! (alnum_run t - 1))) (drop (alnum_run t) t)"
proof -
  obtain t where t: "s = ''fc-'' @ t" "8 \<le> alnum_run t" "\<not> word_opt (nth_opt t (alnum_run t))"
    using assms by (auto simp: key_here_def)
  obtain n where "match_key prev s = Some n" using assms match_key_iff by blast
  moreover from match_key_some [OF this] have "n = 3 + alnum_run t" using t by simp
  moreover have "alnum_run t - 1 < length t" using t(2) length_takeWhile_le [of alnum t] by linarith
  moreover have "nth_opt (''fc-'' @ t) (2 + alnum_run t) = nth_opt t (alnum_run t - 1)"
    using t(2) by (cases "alnum_run t") simp_all
  ultimately show thesis using t by (intro that [of t]) (simp_all add: nth_opt_some)
qed

lemma mask_hd: "nth_opt (mask prev s) 0 = nth_opt s 0"
proof (cases s)
  case (Cons c r)
  show ?thesis
  proof (cases "key_here prev s")
    case True
    then show ?thesis by (rule mask_key) (simp add: key_mask_def)
  next
    case False
    with Cons show ?thesis by (simp add: mask_plain del: re_sub.simps)
  qed
qed simp

lemma not_key_here: "word_opt prev \<Longrightarrow> \<not> key_here prev s" "c \<noteq> CHR ''f'' \<Longrightarrow> \<not> key_here prev (c # s)"
  "\<not> key_here prev []"
  by (auto simp: key_here_def)

lemma mask_run:
  assumes "word_opt prev"
  shows "alnum_run (mask prev s) = alnum_run s \<and> nth_opt (mask prev s) (alnum_run s) = nth_opt s (alnum_run s)"
  using assms
proof (induction s arbitrary: prev)
  case (Cons c s)
  have e: "mask prev (c # s) = c # mask (Some c) s" using Cons.prems by (simp add: mask_plain not_key_here del: re_sub.simps)
  show ?case
  proof (cases "alnum c")
    case True
    with Cons.IH [of "Some c"] show ?thesis by (simp add: e word_opt_def alnum_word del: re_sub.simps)
  qed (simp add: e del: re_sub.simps)
qed simp

text \<open>A key of the masked text was one before.\<close>

lemma key_in_masked:
  assumes "key_here prev (c # mask (Some c) s)"
  shows "key_here prev (c # s)"
proof -
  obtain t where p: "\<not> word_opt prev" and t: "c # mask (Some c) s = ''fc-'' @ t" "8 \<le> alnum_run t"
    "\<not> word_opt (nth_opt t (alnum_run t))"
    using assms by (auto simp: key_here_def)
  have c: "c = CHR ''f''" "mask (Some c) s = ''c-'' @ t" using t(1) by auto
  obtain s1 where s1: "s = CHR ''c'' # s1" using mask_hd [of "Some c" s] c(2) by (cases s) auto
  then have "mask (Some (CHR ''c'')) s1 = ''-'' @ t"
    using c(2) mask_plain [OF not_key_here(2), of "CHR ''c''" "Some c" s1] by simp
  moreover obtain s2 where s2: "s1 = CHR ''-'' # s2" using mask_hd [of "Some (CHR ''c'')" s1] calculation by (cases s1) auto
  ultimately have m: "mask (Some (CHR ''-'')) s2 = t"
    using mask_plain [OF not_key_here(2), of "CHR ''-''" "Some (CHR ''c'')" s2] by simp
  have no: "\<not> key_here (Some (CHR ''-'')) s2"
  proof
    assume "key_here (Some (CHR ''-'')) s2"
    then obtain r where "mask (Some (CHR ''-'')) s2 = ''fc-'' @ r" by (rule mask_key) (simp add: key_mask_def)
    with m t(2) show False by (auto simp: alnum_def)
  qed
  have "alnum_run t = alnum_run s2 \<and> nth_opt t (alnum_run s2) = nth_opt s2 (alnum_run s2)"
  proof (cases s2)
    case Nil
    with m show ?thesis by simp
  next
    case (Cons a r)
    then have e: "t = a # mask (Some a) r" using m no mask_plain [of "Some (CHR ''-'')" a r] by simp
    show ?thesis
    proof (cases "alnum a")
      case True
      with Cons e mask_run [of "Some a" r] show ?thesis by (simp add: word_opt_def alnum_word del: re_sub.simps)
    qed (simp add: Cons e del: re_sub.simps)
  qed
  with t p show ?thesis by (auto simp: key_here_def c(1) s1 s2)
qed

lemma occurs_key:
  "occurs match_key prev [] \<longleftrightarrow> False"
  "occurs match_key prev (c # s) \<longleftrightarrow> key_here prev (c # s) \<or> occurs match_key (Some c) s"
  using match_key_iff [of prev "[]"] match_key_iff [of prev "c # s"] by (auto simp: not_key_here)

lemma occurs_prev:
  assumes "\<not> occurs match_key p s" and "\<not> word_opt (nth_opt s 0)"
  shows "\<not> occurs match_key q s"
proof (cases s)
  case (Cons c r)
  then have "c \<noteq> CHR ''f''" using assms(2) f_word by auto
  with assms(1) Cons show ?thesis by (simp add: occurs_key not_key_here del: occurs.simps)
qed (simp add: occurs_key del: occurs.simps)

lemma occurs_redacted: "occurs match_key prev (key_mask @ s) \<longleftrightarrow> occurs match_key (Some (CHR '']'')) s"
  by (simp add: key_mask_def REDACTED_def occurs_key not_key_here del: occurs.simps) (simp add: key_here_def alnum_def)

lemma mask_no_key: "\<not> occurs match_key prev (mask prev s)"
proof (induction "length s" arbitrary: prev s rule: less_induct)
  case less
  show ?case
  proof (cases "key_here prev s")
    case True
    then obtain t where t: "s = ''fc-'' @ t" "\<not> word_opt (nth_opt t (alnum_run t))"
      and m: "mask prev s = key_mask @ mask (Some (t ! (alnum_run t - 1))) (drop (alnum_run t) t)"
      by (rule mask_key)
    let ?r = "mask (Some (t ! (alnum_run t - 1))) (drop (alnum_run t) t)"
    have "\<not> occurs match_key (Some (t ! (alnum_run t - 1))) ?r" using t(1) by (intro less) simp
    moreover have "nth_opt ?r 0 = nth_opt t (alnum_run t)" using mask_hd by (simp add: nth_opt_def)
    ultimately show ?thesis using t(2) occurs_prev unfolding m occurs_redacted by metis
  next
    case False
    show ?thesis
    proof (cases s)
      case Nil
      then show ?thesis by (simp add: occurs_key del: occurs.simps)
    next
      case (Cons c r)
      have "\<not> occurs match_key (Some c) (mask (Some c) r)" using Cons by (intro less) simp
      moreover have "\<not> key_here prev (c # mask (Some c) r)" using False Cons key_in_masked by blast
      ultimately show ?thesis
        using False Cons by (simp add: mask_plain occurs_key del: re_sub.simps occurs.simps)
    qed
  qed
qed

text \<open>What a redacted value is free of: keys in its texts, and anything under a sensitive name.\<close>

fun leaks :: "string set \<Rightarrow> json \<Rightarrow> bool" where
  "leaks keys (JObj d) \<longleftrightarrow>
     (\<exists>(k, v) \<in> set d. if lower k \<in> keys then v \<noteq> JStr REDACTED else leaks keys v)"
| "leaks keys (JArr xs) \<longleftrightarrow> (\<exists>x \<in> set xs. leaks keys x)"
| "leaks keys (JStr s) \<longleftrightarrow> occurs match_key None s"
| "leaks keys _ \<longleftrightarrow> False"

lemma redact_data_no_leak: "\<not> leaks keys (redact_data keys v)"
  by (induction keys v rule: redact_data.induct) (auto simp: redact_text_def mask_no_key simp del: re_sub.simps split: if_splits)

end
