(* ===== verification/Middleware.thy ===== *)
theory Middleware
  imports Redact Data_Plane
begin

text \<open>
  \<open>app/middleware.py\<close> and its order in \<open>app/main.py\<close>: request ids, the limits on paths and bodies, the
  conversion of the application's exception, and the request log. \<open>call_next\<close> is an argument: what lies
  inside a middleware maps a request and its \<open>request.state\<close> to a response or what it raises.
\<close>

subsection \<open>Requests\<close>

record web_request =
  wq_method :: string
  wq_path :: string
  wq_headers :: headers
  wq_body :: bytes

record req_state =
  mw_request_id :: "string option"
  mw_endpoint :: "string option"
  mw_client_id :: "int option"
  mw_api_key_id :: "int option"
  mw_retry_count :: "int option"
  mw_error_code :: "string option"
  mw_error_details :: "json option"

definition req_state_init :: req_state where
  "req_state_init = \<lparr>mw_request_id = None, mw_endpoint = None, mw_client_id = None, mw_api_key_id = None,
     mw_retry_count = None, mw_error_code = None, mw_error_details = None\<rparr>"

text \<open>What a call may raise: the application's exception, or any other by its class name.\<close>

datatype raised = Fcam fcam_error | Unexpected string

type_synonym 'b call = "web_request \<Rightarrow> req_state \<Rightarrow> 'b app \<Rightarrow> (raised + http_response) \<times> req_state \<times> 'b app"

subsection \<open>Request ids and endpoints\<close>

definition id_char :: "char \<Rightarrow> bool" where
  "id_char c \<longleftrightarrow> alnum c \<or> c = CHR ''_'' \<or> c = CHR ''-''"

definition is_valid_request_id :: "string \<Rightarrow> bool" where
  "is_valid_request_id v \<longleftrightarrow> list_all id_char v \<and> 8 \<le> length v \<and> length v \<le> 64"

definition slash :: "char \<Rightarrow> bool" where
  "slash c \<longleftrightarrow> c = CHR ''/''"

definition first_segment :: "string \<Rightarrow> string" where
  "first_segment s = takeWhile (\<lambda>c. \<not> slash c) s"

definition infer_v :: "string \<Rightarrow> string" where
  "infer_v suffix =
     (if suffix = [] then ''unknown''
      else if first_segment suffix = ''crawl''
        then (if CHR ''/'' \<in> set suffix then ''crawl_status'' else ''crawl'')
      else if first_segment suffix = [] then ''unknown''
      else take 32 (first_segment suffix))"

definition infer_exa :: "string \<Rightarrow> string" where
  "infer_exa suffix =
     (if suffix = [] \<or> first_segment suffix = [] then ''unknown''
      else ''exa_'' @ take 32 (first_segment suffix))"

definition infer_api_endpoint :: "string \<Rightarrow> string option" where
  "infer_api_endpoint path =
     (if startswith path ''/api/'' then Some (infer_v (strip_chars slash (drop 5 path)))
      else if startswith path ''/v1/'' \<or> startswith path ''/v2/'' then Some (infer_v (strip_chars slash (drop 4 path)))
      else if startswith path ''/exa/'' then Some (infer_exa (strip_chars slash (drop 5 path)))
      else None)"

subsection \<open>Error details of the request log\<close>

definition default_sensitive_keys :: "string set" where
  "default_sensitive_keys = {''authorization'', ''api_key'', ''token'', ''password'', ''secret'', ''master_key''}"

definition max_error_details :: nat where
  "max_error_details = 2000"

text \<open>\<open>code\<close> and \<open>message\<close> of the redacted value, the message cut to 400 characters.\<close>

definition cut_base :: "json \<Rightarrow> (string \<times> json) list" where
  "cut_base safe =
     (let picked = (case safe of
            JObj d \<Rightarrow> concat (map (\<lambda>k. case map_of d k of None \<Rightarrow> [] | Some v \<Rightarrow> [(k, v)]) [''code'', ''message''])
          | _ \<Rightarrow> []);
          base = dict_set ''truncated'' (JBool True) picked
      in (case map_of base ''message'' of
            None \<Rightarrow> base
          | Some msg \<Rightarrow>
              if msg = JNull then base
              else
                (let text = (case msg of JStr t \<Rightarrow> t | _ \<Rightarrow> dumps_default msg)
                 in if 400 < length text
                    then dict_set ''message_truncated'' (JBool True) (dict_set ''message'' (JStr (take 400 text)) base)
                    else dict_set ''message'' (JStr text) base)))"

text \<open>The loop over ever shorter previews; \<open>int(n * 0.6)\<close> is exact for the lengths 2000, 1200, 720, 432.\<close>

fun try_previews :: "nat \<Rightarrow> (string \<times> json) list \<Rightarrow> string \<Rightarrow> nat \<Rightarrow> string option" where
  "try_previews 0 base text n = None"
| "try_previews (Suc i) base text n =
     (let dumped = dumps_default (JObj (dict_set ''preview'' (JStr (take n text)) base))
      in if length dumped \<le> max_error_details then Some dumped else try_previews i base text (n * 3 div 5))"

definition cut_details :: "json \<Rightarrow> string \<Rightarrow> string" where
  "cut_details safe text =
     (let base = cut_base safe in
      case try_previews 5 base text (min (length text) max_error_details) of
        Some dumped \<Rightarrow> dumped
      | None \<Rightarrow>
          if length (dumps_default (JObj base)) \<le> max_error_details then dumps_default (JObj base)
          else dumps_default (JObj [(''truncated'', JBool True)]))"

definition dump_error_details :: "json option \<Rightarrow> string option" where
  "dump_error_details v =
     (case v of
        None \<Rightarrow> None
      | Some JNull \<Rightarrow> None
      | Some j \<Rightarrow>
          (let safe = redact_data default_sensitive_keys j; text = dumps_default safe
           in Some (if length text \<le> max_error_details then text else cut_details safe text)))"

subsection \<open>Errors the upstream service answered with\<close>

definition max_body_preview :: nat where
  "max_body_preview = 8192"

definition error_body_details :: "http_response \<Rightarrow> json" where
  "error_body_details r =
     (let content_type = strip (case header_first (hr_headers r) ''content-type'' of None \<Rightarrow> [] | Some v \<Rightarrow> v);
          body = hr_body r;
          truncated = (max_body_preview < length body)
      in JObj
        ([(''status_code'', JInt (hr_status r)), (''content_type'', JStr content_type),
          (''body_bytes'', JInt (int (length body)))] @
         (if body = [] then []
          else [(''body_preview'', JStr (take max_body_preview body)), (''body_truncated'', JBool truncated)] @
            (if substr ''application/json'' (lower content_type) \<and> \<not> truncated
             then (case loads body of None \<Rightarrow> [] | Some j \<Rightarrow> [(''body_json'', j)]) else []))))"

text \<open>The body has been read from the stream, so the response is built again, with its length.\<close>

definition rebuilt :: "http_response \<Rightarrow> http_response" where
  "rebuilt r =
     r\<lparr>hr_headers := filter (\<lambda>(k, v). lower k \<noteq> ''content-length'') (header_dict (hr_headers r)) @
        (if hr_status r \<in> {204, 304} then [] else [(''content-length'', show_int (int (length (hr_body r))))])\<rparr>"

definition maybe_capture_error :: "req_state \<Rightarrow> http_response \<Rightarrow> req_state \<times> http_response" where
  "maybe_capture_error st r =
     (if mw_error_code st \<noteq> None \<or> hr_status r < 400 then (st, r)
      else
        (st\<lparr>mw_error_code := Some ''UPSTREAM_HTTP_ERROR'',
            mw_error_details := Some (JObj
              [(''code'', JStr ''UPSTREAM_HTTP_ERROR''), (''message'', JStr ''Upstream returned error response''),
               (''details'', error_body_details r)])\<rparr>, rebuilt r))"

subsection \<open>The request log\<close>

definition log_endpoint :: "web_request \<Rightarrow> req_state \<Rightarrow> string option" where
  "log_endpoint rq st =
     (case mw_endpoint st of
        None \<Rightarrow> infer_api_endpoint (wq_path rq)
      | Some e \<Rightarrow> if e = [] then infer_api_endpoint (wq_path rq) else Some e)"

definition new_log :: "web_request \<Rightarrow> req_state \<Rightarrow> string \<Rightarrow> int \<Rightarrow> int \<Rightarrow> instant \<Rightarrow> request_log list \<Rightarrow> request_log" where
  "new_log rq st endpoint status_code response_time_ms now logs =
     \<lparr>l_id = fresh_id (map l_id logs), l_request_id = id_or_dash (mw_request_id st),
      l_client_id = mw_client_id st, l_api_key_id = mw_api_key_id st, l_endpoint = endpoint,
      l_method = wq_method rq, l_status_code = Some status_code, l_response_time_ms = Some response_time_ms,
      l_success = Some (200 \<le> status_code \<and> status_code < 300),
      l_retry_count = (case mw_retry_count st of None \<Rightarrow> 0 | Some n \<Rightarrow> n),
      l_error_message = mw_error_code st, l_error_details = dump_error_details (mw_error_details st),
      l_idempotency_key = header_first (wq_headers rq) ''x-idempotency-key'', l_created_at = now\<rparr>"

text \<open>The log is written in a session of its own, after the request's session has ended.\<close>

definition add_log :: "(instant \<Rightarrow> request_log list \<Rightarrow> request_log) \<Rightarrow> 'b app \<Rightarrow> 'b app" where
  "add_log f s =
     (let ss = close_session (sess s)
      in s\<lparr>sess := ss\<lparr>cur := (cur ss)\<lparr>t_logs := t_logs (cur ss) @ [f (wall s) (t_logs (cur ss))]\<rparr>\<rparr>\<rparr>)"

definition persist_request_log ::
  "web_request \<Rightarrow> req_state \<Rightarrow> int \<Rightarrow> int \<Rightarrow> 'b app \<Rightarrow> string option \<times> 'b app" where
  "persist_request_log rq st status_code response_time_ms s =
     (case log_endpoint rq st of
        None \<Rightarrow> (None, s)
      | Some endpoint \<Rightarrow>
          (Some endpoint, snd (commit_app (add_log (new_log rq st endpoint status_code response_time_ms) s))))"

subsection \<open>The middlewares\<close>

text \<open>\<open>MutableHeaders.__setitem__\<close>: one header of that name, in lower case, at the first one's place.\<close>

fun set_header :: "string \<Rightarrow> string \<Rightarrow> headers \<Rightarrow> headers" where
  "set_header k v [] = [(lower k, v)]"
| "set_header k v ((n, w) # hs) =
     (if lower n = lower k then (lower k, v) # filter (\<lambda>(n', _). lower n' \<noteq> lower k) hs
      else (n, w) # set_header k v hs)"

definition chosen_request_id :: "string \<Rightarrow> web_request \<Rightarrow> string" where
  "chosen_request_id new_id rq =
     (case header_first (wq_headers rq) ''X-Request-Id'' of
        None \<Rightarrow> new_id
      | Some v \<Rightarrow> if v \<noteq> [] \<and> is_valid_request_id v then v else new_id)"

definition elapsed_ms :: "rat \<Rightarrow> rat \<Rightarrow> int" where
  "elapsed_ms start stop = floor ((stop - start) * 1000)"

text \<open>\<open>RequestIdMiddleware\<close>; \<open>new_id\<close> is what \<open>uuid4\<close> gives.\<close>

definition request_id_dispatch :: "string \<Rightarrow> 'b call \<Rightarrow> 'b call" where
  "request_id_dispatch new_id call rq st s =
     (let rid = chosen_request_id new_id rq in
      case call rq (st\<lparr>mw_request_id := Some rid\<rparr>) s of
        (Inl exc, st1, s1) \<Rightarrow> (Inl exc, st1, s1)
      | (Inr r, st1, s1) \<Rightarrow>
          (let (st2, r2) = maybe_capture_error st1 (r\<lparr>hr_headers := set_header ''X-Request-Id'' rid (hr_headers r)\<rparr>);
               latency = elapsed_ms (mono s) (mono s1);
               (endpoint, s2) = persist_request_log rq st2 (hr_status r2) latency s1
           in (Inr r2, st2,
               (case endpoint of
                  None \<Rightarrow> s2
                | Some e \<Rightarrow> metered (record_request e (wq_method rq) (hr_status r2) latency (mw_client_id st2)) s2))))"

text \<open>\<open>FcamErrorMiddleware\<close>.\<close>

definition fcam_error_dispatch :: "string \<Rightarrow> 'b call \<Rightarrow> 'b call" where
  "fcam_error_dispatch new_id call rq st s =
     (case call rq st s of
        (Inl (Fcam exc), st1, s1) \<Rightarrow>
          (let rid = (case mw_request_id st1 of None \<Rightarrow> new_id | Some r \<Rightarrow> if r = [] then new_id else r);
               (note, r) = handle_fcam_error (wq_path rq) rid exc
           in (Inr r, st1\<lparr>mw_error_code := Some (en_code note), mw_error_details := Some (en_details note)\<rparr>, s1))
      | r \<Rightarrow> r)"

definition path_not_allowed :: fcam_error where
  "path_not_allowed = fcam 404 ''PATH_NOT_ALLOWED'' ''Path not allowed''"

definition body_too_large :: "int \<Rightarrow> fcam_error" where
  "body_too_large max_body = (fcam 413 ''REQUEST_TOO_LARGE'' ''Request body too large'')
     \<lparr>e_details := Some (JObj [(''max_body_bytes'', JInt max_body)])\<rparr>"

record request_limits =
  lim_max_body :: int
  lim_api_paths :: "string set"
  lim_exa_paths :: "string set"

definition request_limits_init :: "int \<Rightarrow> string set \<Rightarrow> string set \<Rightarrow> request_limits" where
  "request_limits_init max_body api exa = \<lparr>lim_max_body = max_body, lim_api_paths = strip_chars slash ` api,
     lim_exa_paths = strip_chars slash ` exa\<rparr>"

definition path_allowed :: "request_limits \<Rightarrow> string \<Rightarrow> bool" where
  "path_allowed lm path \<longleftrightarrow>
     (startswith path ''/api/'' \<longrightarrow> first_segment (drop 5 path) \<in> lim_api_paths lm) \<and>
     (startswith path ''/v1/'' \<or> startswith path ''/v2/'' \<longrightarrow> first_segment (drop 4 path) \<in> lim_api_paths lm) \<and>
     (startswith path ''/exa/'' \<and> lim_exa_paths lm \<noteq> {} \<longrightarrow> first_segment (drop 5 path) \<in> lim_exa_paths lm)"

text \<open>The announced length, then the body itself.\<close>

definition check_length :: "request_limits \<Rightarrow> web_request \<Rightarrow> fcam_error option" where
  "check_length lm rq =
     (case header_first (wq_headers rq) ''content-length'' of
        None \<Rightarrow> None
      | Some v \<Rightarrow>
          if v = [] then None
          else
            (case py_int v of
               None \<Rightarrow> Some (fcam 400 ''VALIDATION_ERROR'' ''Invalid Content-Length'')
             | Some n \<Rightarrow> if lim_max_body lm < n then Some (body_too_large (lim_max_body lm)) else None))"

definition check_body :: "request_limits \<Rightarrow> web_request \<Rightarrow> fcam_error option" where
  "check_body lm rq =
     (if wq_body rq = [] then None
      else if \<not> substr ''application/json''
          (case header_first (wq_headers rq) ''content-type'' of None \<Rightarrow> [] | Some v \<Rightarrow> v)
        then Some (fcam 415 ''UNSUPPORTED_MEDIA_TYPE'' ''Only application/json is supported'')
      else if lim_max_body lm < int (length (wq_body rq)) then Some (body_too_large (lim_max_body lm))
      else None)"

definition check_request :: "request_limits \<Rightarrow> web_request \<Rightarrow> fcam_error option" where
  "check_request lm rq =
     (if \<not> path_allowed lm (wq_path rq) then Some path_not_allowed
      else if wq_method rq \<in> {''GET'', ''HEAD''} then None
      else (case check_length lm rq of Some err \<Rightarrow> Some err | None \<Rightarrow> check_body lm rq))"

definition limits_dispatch :: "request_limits \<Rightarrow> 'b call \<Rightarrow> 'b call" where
  "limits_dispatch lm call rq st s =
     (case check_request lm rq of
        Some err \<Rightarrow> (Inl (Fcam err), st, s)
      | None \<Rightarrow> call rq st s)"

text \<open>\<open>create_app\<close>: the middleware added last is the outermost; the Exa paths count when Exa is enabled.\<close>

definition limits_of :: "app_config \<Rightarrow> request_limits" where
  "limits_of cfg =
     (let rl = sc_request_limits (c_security cfg); exa = c_exa cfg in
      request_limits_init (rl_max_body_bytes rl) (set (rl_allowed_paths rl))
        (if pv_enabled exa then set (pv_allowed_paths exa) else {}))"

definition serve :: "app_config \<Rightarrow> string \<Rightarrow> 'b call \<Rightarrow> web_request \<Rightarrow> 'b app \<Rightarrow> (raised + http_response) \<times> req_state \<times> 'b app" where
  "serve cfg new_id app rq s =
     request_id_dispatch new_id (fcam_error_dispatch new_id (limits_dispatch (limits_of cfg) app)) rq req_state_init s"

end
