(* ===== verification/Middleware_Facts.thy ===== *)
theory Middleware_Facts
  imports Middleware Samples
begin

text \<open>
  What the middleware stack guarantees: no request passes the limits unchecked, and every answer to a request of
  the data plane is logged once, with its request id and with error details that are short and redacted.
\<close>

subsection \<open>Error details\<close>

lemma try_previews_short: "try_previews i base text n = Some d \<Longrightarrow> length d \<le> max_error_details"
  by (induction i arbitrary: n) (auto simp: Let_def split: if_splits)

lemma cut_details_short: "length (cut_details safe text) \<le> max_error_details"
proof (cases "try_previews 5 (cut_base safe) text (min (length text) max_error_details)")
  case (Some d)
  then show ?thesis using try_previews_short by (simp add: cut_details_def)
next
  case None
  have "length (dumps_default (JObj [(''truncated'', JBool True)])) = 19" by (simp add: dump_str_def esc_char_def)
  with None show ?thesis by (simp add: cut_details_def max_error_details_def Let_def)
qed

text \<open>Short, and as long as nothing has to be cut, a printed value without keys and sensitive fields.\<close>

definition proper_details :: "string \<Rightarrow> bool" where
  "proper_details d \<longleftrightarrow> length d \<le> max_error_details \<and>
     (\<exists>safe. \<not> leaks default_sensitive_keys safe \<and> (d = dumps_default safe \<or> d = cut_details safe (dumps_default safe)))"

lemma dump_error_details_proper:
  assumes "dump_error_details v = Some d"
  shows "proper_details d"
proof -
  obtain j where "v = Some j" "j \<noteq> JNull" using assms by (cases v; cases "the v") (auto simp: dump_error_details_def)
  then have "d = (let safe = redact_data default_sensitive_keys j; text = dumps_default safe
      in if length text \<le> max_error_details then text else cut_details safe text)"
    using assms by (cases j) (simp_all only: dump_error_details_def option.case json.case option.inject simp_thms Let_def)
  then have "\<exists>safe. \<not> leaks default_sensitive_keys safe \<and>
      d = (if length (dumps_default safe) \<le> max_error_details then dumps_default safe
           else cut_details safe (dumps_default safe))"
    using redact_data_no_leak [of default_sensitive_keys j] unfolding Let_def by blast
  then show ?thesis unfolding proper_details_def using cut_details_short by (auto split: if_splits)
qed

subsection \<open>The log\<close>

lemma unique_ok_logs [simp]: "unique_ok (t\<lparr>t_logs := l\<rparr>) = unique_ok t"
  by (simp add: unique_ok_def)

lemma add_log_sel:
  "db (sess (add_log f s)) = db (sess s)" "faults (sess (add_log f s)) = faults (sess s)"
  "cur (sess (add_log f s)) = (db (sess s))\<lparr>t_logs := t_logs (db (sess s)) @ [f (wall s) (t_logs (db (sess s)))]\<rparr>"
  "sent (add_log f s) = sent s" "kback (add_log f s) = kback s"
  by (simp_all add: add_log_def close_session_def)

lemma commit_log:
  fixes f :: "instant \<Rightarrow> request_log list \<Rightarrow> request_log"
  assumes "commit_app (add_log f s) = (ok, s')"
  shows "t_logs (db (sess s')) = t_logs (db (sess s)) @ (if ok then [f (wall s) (t_logs (db (sess s)))] else [])"
    and "faults (sess s) = [] \<Longrightarrow> unique_ok (db (sess s)) \<Longrightarrow> ok"
proof -
  show "t_logs (db (sess s')) = t_logs (db (sess s)) @ (if ok then [f (wall s) (t_logs (db (sess s)))] else [])"
    using assms by (rule commit_app_cases) (simp_all add: add_log_sel)
  assume "faults (sess s) = []" "unique_ok (db (sess s))"
  then show ok using assms
    by (auto simp: commit_app_def commit_or_rollback_def commit_no_faults add_log_sel split: prod.splits option.splits)
qed

lemma log_endpoint_some: "infer_api_endpoint (wq_path rq) \<noteq> None \<Longrightarrow> log_endpoint rq st \<noteq> None"
  by (auto simp: log_endpoint_def split: option.splits)

lemma lower_char_idem [simp]: "lower_char (lower_char c) = lower_char c"
  by (auto simp: lower_char_def Let_def)

lemma header_set: "header_first (set_header k v hs) k = Some v"
  by (induction hs) (auto simp: header_first_def header_values_def lower_def comp_def filter_empty_conv split: if_splits)

lemma header_first_filter:
  "lower k \<noteq> n \<Longrightarrow> header_first (filter (\<lambda>(k', v). lower k' \<noteq> n) hs) k = header_first hs k"
  by (induction hs) (auto simp: header_first_def header_values_def)

lemma header_first_append: "header_first hs k = Some v \<Longrightarrow> header_first (hs @ hs') k = Some v"
  by (auto simp: header_first_def header_values_def split: list.splits)

lemma header_first_lower: "header_first hs (lower k) = header_first hs k"
  by (simp add: header_first_def header_values_def lower_def comp_def)

lemma header_values_keys:
  assumes "list_all (\<lambda>k'. lower k' = k') ks" and "distinct ks"
  shows "header_values (map (\<lambda>k. (k, f k)) ks) k = (if lower k \<in> set ks then [f (lower k)] else [])"
  using assms by (induction ks) (auto simp: header_values_def)

lemma lower_lower [simp]: "lower (lower s) = lower s"
  by (simp add: lower_def comp_def)

lemma header_first_none: "header_first hs k = None \<longleftrightarrow> lower k \<notin> lower ` fst ` set hs"
  by (induction hs) (auto simp: header_first_def header_values_def split: list.splits if_splits)

lemma header_first_dict: "header_first (header_dict hs) k = header_first hs k"
proof -
  have low: "list_all (\<lambda>k'. lower k' = k') (remdups (map (lower \<circ> fst) hs))" by (simp add: list_all_iff)
  have mem: "lower k \<in> set (remdups (map (lower \<circ> fst) hs)) \<longleftrightarrow> header_first hs k \<noteq> None"
    by (simp add: header_first_none image_comp)
  show ?thesis
    unfolding header_dict_def header_first_def [of "map _ _"] header_values_keys [OF low distinct_remdups] mem
    by (cases "header_first hs k") (simp_all add: header_first_lower)
qed

text \<open>Building the response again keeps every header but its length.\<close>

lemma rebuilt_header:
  assumes "header_first (hr_headers r) k = Some v" and "lower k \<noteq> ''content-length''"
  shows "header_first (hr_headers (rebuilt r)) k = Some v"
  unfolding rebuilt_def using assms header_first_filter [OF assms(2), of "header_dict (hr_headers r)"]
  by (simp add: header_first_append header_first_dict)

subsection \<open>The stack\<close>

text \<open>The application behind the middlewares, called with the request id, and the state it leaves.\<close>

definition reached :: "string \<Rightarrow> 'b call \<Rightarrow> web_request \<Rightarrow> 'b app \<Rightarrow> (raised + http_response) \<times> req_state \<times> 'b app" where
  "reached rid app rq s = app rq (req_state_init\<lparr>mw_request_id := Some rid\<rparr>) s"

definition served_state :: "app_config \<Rightarrow> string \<Rightarrow> 'b call \<Rightarrow> web_request \<Rightarrow> 'b app \<Rightarrow> 'b app" where
  "served_state cfg rid app rq s =
     (if check_request (limits_of cfg) rq = None then snd (snd (reached rid app rq s)) else s)"

lemma persist_logged:
  assumes "persist_request_log rq st code ms s = (e, s')" and "infer_api_endpoint (wq_path rq) \<noteq> None"
    and "mw_request_id st = Some rid" and "rid \<noteq> []"
  obtains ls where "t_logs (db (sess s')) = t_logs (db (sess s)) @ ls" "length ls \<le> 1"
    "\<forall>l \<in> set ls. l_request_id l = rid \<and> l_status_code l = Some code \<and>
       (\<forall>d. l_error_details l = Some d \<longrightarrow> proper_details d)"
    "faults (sess s) = [] \<Longrightarrow> unique_ok (db (sess s)) \<Longrightarrow> length ls = 1" "e \<noteq> None"
proof -
  obtain ep where ep: "log_endpoint rq st = Some ep" using log_endpoint_some [OF assms(2)] by blast
  obtain ok s1 where c: "commit_app (add_log (new_log rq st ep code ms) s) = (ok, s1)"
    by (cases "commit_app (add_log (new_log rq st ep code ms) s)")
  have "e = Some ep" "s' = s1" using assms(1) ep c by (simp_all add: persist_request_log_def)
  with commit_log [OF c] assms(3,4) show thesis
    by (intro that [of "if ok then [new_log rq st ep code ms (wall s) (t_logs (db (sess s)))] else []"])
       (auto simp: new_log_def id_or_dash_def dest: dump_error_details_proper)
qed

definition logged_once :: "string \<Rightarrow> int \<Rightarrow> 'b app \<Rightarrow> 'b app \<Rightarrow> bool" where
  "logged_once rid code s s' \<longleftrightarrow>
     (\<exists>ls. t_logs (db (sess s')) = t_logs (db (sess s)) @ ls \<and> length ls \<le> 1 \<and>
       (\<forall>l \<in> set ls. l_request_id l = rid \<and> l_status_code l = Some code \<and>
          (\<forall>d. l_error_details l = Some d \<longrightarrow> proper_details d)) \<and>
       (faults (sess s) = [] \<and> unique_ok (db (sess s)) \<longrightarrow> length ls = 1))"

lemma persist_logged_once:
  assumes "persist_request_log rq st code ms s = (e, s')" and "infer_api_endpoint (wq_path rq) \<noteq> None"
    and "mw_request_id st = Some rid" and "rid \<noteq> []"
  shows "logged_once rid code s s'"
  using assms by (rule persist_logged) (auto simp: logged_once_def)

lemma maybe_capture_error_keeps:
  assumes "maybe_capture_error st r = (st', r')" and "header_first (hr_headers r) k = Some v"
    and "lower k \<noteq> ''content-length''"
  shows "mw_request_id st' = mw_request_id st \<and> hr_status r' = hr_status r \<and> header_first (hr_headers r') k = Some v"
  using assms rebuilt_header [OF assms(2,3)]
  by (auto simp: maybe_capture_error_def rebuilt_def split: if_splits)

text \<open>What the two inner middlewares return.\<close>

lemma inner_dispatch:
  assumes "fcam_error_dispatch new_id (limits_dispatch (limits_of cfg) app) rq (req_state_init\<lparr>mw_request_id := Some rid\<rparr>) s
      = (res, st, s1)"
    and "mw_request_id (fst (snd (reached rid app rq s))) = Some rid"
  shows "s1 = served_state cfg rid app rq s \<and> mw_request_id st = Some rid \<and> (\<forall>exc. res \<noteq> Inl (Fcam exc))"
  using assms
  by (auto simp: fcam_error_dispatch_def limits_dispatch_def served_state_def reached_def handle_fcam_error_def Let_def
      split: option.splits sum.splits prod.splits raised.splits)

lemma served_and_logged:
  assumes "infer_api_endpoint (wq_path rq) \<noteq> None" and "rid = chosen_request_id new_id rq" and "rid \<noteq> []"
    and "mw_request_id (fst (snd (reached rid app rq s))) = Some rid"
    and "serve cfg new_id app rq s = (out, st, s')"
  shows "case out of
      Inl exc \<Rightarrow> (\<exists>name. exc = Unexpected name) \<and> s' = served_state cfg rid app rq s
    | Inr r \<Rightarrow> header_first (hr_headers r) ''X-Request-Id'' = Some rid \<and>
        logged_once rid (hr_status r) (served_state cfg rid app rq s) s'"
proof -
  obtain res st1 s1 where i: "fcam_error_dispatch new_id (limits_dispatch (limits_of cfg) app) rq
      (req_state_init\<lparr>mw_request_id := Some rid\<rparr>) s = (res, st1, s1)"
    by (metis prod.exhaust)
  note inner = inner_dispatch [OF i assms(4)]
  show ?thesis
  proof (cases res)
    case (Inl exc)
    with assms(2,5) i inner show ?thesis
      by (cases exc) (auto simp: serve_def request_id_dispatch_def)
  next
    case (Inr r)
    obtain st2 r2 where c: "maybe_capture_error st1 (r\<lparr>hr_headers := set_header ''X-Request-Id'' rid (hr_headers r)\<rparr>) = (st2, r2)"
      by (metis prod.exhaust)
    obtain e s2 where p: "persist_request_log rq st2 (hr_status r2) (elapsed_ms (mono s) (mono s1)) s1 = (e, s2)"
      by (metis prod.exhaust)
    have k: "lower ''X-Request-Id'' \<noteq> ''content-length''" by code_simp
    have h: "mw_request_id st2 = Some rid" "header_first (hr_headers r2) ''X-Request-Id'' = Some rid"
      using maybe_capture_error_keeps [OF c _ k] inner by (simp_all add: header_set)
    have "logged_once rid (hr_status r2) s1 s2" using p assms(1) h(1) assms(3) by (rule persist_logged_once)
    moreover have "sess s' = sess s2" "out = Inr r2"
      using assms(2,5) i c p by (auto simp: serve_def request_id_dispatch_def Inr Let_def split: option.splits)
    ultimately show ?thesis using inner h(2) by (simp add: logged_once_def)
  qed
qed

text \<open>C27. Every answer to a request of the data plane, the middlewares' own refusals included, carries the request
  id (the client's, when it is a valid one), and is written to the request log exactly once, with that id and the
  status answered, and with error details of at most 2000 characters that were redacted before they were cut. The
  log may only miss an answer when the database fails. An exception the application does not know passes
  through unlogged.\<close>

theorem answers_are_logged:
  assumes "infer_api_endpoint (wq_path rq) \<noteq> None" and "rid = chosen_request_id new_id rq" and "rid \<noteq> []"
    and "mw_request_id (fst (snd (reached rid app rq s))) = Some rid"
    and "serve cfg new_id app rq s = (out, st, s')"
  shows "case out of
      Inl exc \<Rightarrow> (\<exists>name. exc = Unexpected name) \<and> s' = served_state cfg rid app rq s
    | Inr r \<Rightarrow> header_first (hr_headers r) ''X-Request-Id'' = Some rid \<and>
        logged_once rid (hr_status r) (served_state cfg rid app rq s) s'"
  using assms by (rule served_and_logged)

lemma served_status:
  assumes "check_request (limits_of cfg) rq = None" and "fst (reached (chosen_request_id new_id rq) app rq s) = Inr r0"
  shows "\<exists>r. fst (serve cfg new_id app rq s) = Inr r \<and> hr_status r = hr_status r0"
proof -
  have "hr_status (snd (maybe_capture_error st r)) = hr_status r" for st r
    by (simp add: maybe_capture_error_def rebuilt_def)
  moreover obtain st0 s0 where "app rq (req_state_init\<lparr>mw_request_id := Some (chosen_request_id new_id rq)\<rparr>) s = (Inr r0, st0, s0)"
    using assms(2) by (cases "app rq (req_state_init\<lparr>mw_request_id := Some (chosen_request_id new_id rq)\<rparr>) s") (auto simp: reached_def)
  ultimately show ?thesis
    using assms(1) by (simp add: serve_def request_id_dispatch_def fcam_error_dispatch_def limits_dispatch_def Let_def
        case_prod_beta)
qed

text \<open>A refusal of the upstream service, for a request with an id of its own.\<close>

definition sample_web :: web_request where
  "sample_web = \<lparr>wq_method = ''GET'', wq_path = ''/v2/crawl/1'', wq_headers = [(''x-request-id'', ''request-0001'')],
     wq_body = []\<rparr>"

definition sample_refusal :: "memory call" where
  "sample_refusal rq st s = (Inr \<lparr>hr_status = 502, hr_headers = [(''Content-Length'', ''2'')], hr_body = ''no''\<rparr>, st, s)"

theorem answers_are_logged_witness:
  "logged_once ''request-0001'' 502 sample_app (snd (snd (serve sample_config ''new-id-1'' sample_refusal sample_web sample_app)))"
proof -
  have api: "infer_api_endpoint (wq_path sample_web) \<noteq> None"
    by (simp add: infer_api_endpoint_def sample_web_def startswith_def)
  have rid: "''request-0001'' = chosen_request_id ''new-id-1'' sample_web" by code_simp
  have ne: "''request-0001'' \<noteq> []" by simp
  have keeps: "mw_request_id (fst (snd (reached ''request-0001'' sample_refusal sample_web sample_app))) = Some ''request-0001''"
    by (simp add: reached_def sample_refusal_def)
  have allowed: "check_request (limits_of sample_config) sample_web = None"
    by code_simp
  have "fst (reached (chosen_request_id ''new-id-1'' sample_web) sample_refusal sample_web sample_app)
      = Inr \<lparr>hr_status = 502, hr_headers = [(''Content-Length'', ''2'')], hr_body = ''no''\<rparr>"
    by (simp add: reached_def sample_refusal_def)
  from served_status [OF allowed this]
  have status: "\<exists>r. fst (serve sample_config ''new-id-1'' sample_refusal sample_web sample_app) = Inr r \<and> hr_status r = 502"
    by simp
  have "served_state sample_config ''request-0001'' sample_refusal sample_web sample_app = sample_app"
    by (simp add: served_state_def reached_def sample_refusal_def)
  with answers_are_logged [OF api rid ne keeps] status show ?thesis by (cases "serve sample_config ''new-id-1'' sample_refusal sample_web sample_app") fastforce
qed





end
