(* ===== verification/Server.thy ===== *)
theory Server
  imports Gateway Middleware_Facts
begin

text \<open>
  The data plane as one application: the routes the four routers register and \<open>app/main.py\<close> includes, a
  request's way through FastAPI to its handler (the session, authentication and gates as dependencies, the
  exception handlers of \<open>errors.py\<close>), behind the middlewares of \<open>serve\<close>.

  What FastAPI and Starlette do themselves is the argument \<open>framework\<close>: which route a request takes (an index
  of the table, and the path parameter), what the query is, whether a body is JSON, and what remains of it when
  it is validated. A body that is no JSON is refused before the dependencies run, an invalid one after them.
\<close>

subsection \<open>The routes\<close>

type_synonym 'b endpoint = "inbound \<Rightarrow> int \<Rightarrow> string \<Rightarrow> rstate \<Rightarrow> 'b app \<Rightarrow> 'b handled"
type_synonym 'b routes = "(string \<times> string \<times> 'b endpoint) list"

definition api_router :: "'b backend \<Rightarrow> env \<Rightarrow> forwarder \<Rightarrow> 'b routes" where
  "api_router ops e fw =
     [(''POST'', ''/api/scrape'', \<lambda>inb cid _. api_scrape ops e fw inb cid),
      (''POST'', ''/api/crawl'', \<lambda>inb cid _. api_crawl ops e fw inb cid),
      (''GET'', ''/api/crawl/{crawl_id}'', \<lambda>inb cid p. api_crawl_status ops e fw inb cid p),
      (''POST'', ''/api/search'', \<lambda>inb cid _. api_search ops e fw inb cid),
      (''POST'', ''/api/agent'', \<lambda>inb cid _. api_agent ops e fw inb cid)]"

definition v1_router :: "'b backend \<Rightarrow> env \<Rightarrow> forwarder \<Rightarrow> 'b routes" where
  "v1_router ops e fw =
     [(''POST'', ''/v1/scrape'', \<lambda>inb cid _. v1_scrape ops e fw inb cid),
      (''POST'', ''/v1/crawl'', \<lambda>inb cid _. v1_crawl ops e fw inb cid),
      (''GET'', ''/v1/crawl/{crawl_id}'', \<lambda>inb cid _. v1_crawl_status ops e fw inb cid),
      (''POST'', ''/v1/search'', \<lambda>inb cid _. v1_search ops e fw inb cid),
      (''POST'', ''/v1/agent'', \<lambda>inb cid _. v1_agent ops e fw inb cid)]"

definition exa_router :: "'b backend \<Rightarrow> env \<Rightarrow> forwarder \<Rightarrow> 'b routes" where
  "exa_router ops e fw =
     [(''POST'', ''/exa/search'', \<lambda>inb cid _. exa_search ops e fw inb cid),
      (''POST'', ''/exa/findSimilar'', \<lambda>inb cid _. exa_find_similar ops e fw inb cid),
      (''POST'', ''/exa/contents'', \<lambda>inb cid _. exa_contents ops e fw inb cid),
      (''POST'', ''/exa/answer'', \<lambda>inb cid _. exa_answer ops e fw inb cid)]"

definition v2_router :: "'b backend \<Rightarrow> env \<Rightarrow> forwarder \<Rightarrow> 'b routes" where
  "v2_router ops e fw =
     [(''POST'', ''/v2/crawl'', \<lambda>inb cid _. v2_crawl ops e fw inb cid),
      (''POST'', ''/v2/crawl/start'', \<lambda>inb cid _. v2_crawl_start ops e fw inb cid),
      (''GET'', ''/v2/crawl/active'', \<lambda>inb cid _. v2_crawl_active ops e fw inb cid),
      (''POST'', ''/v2/crawl/params-preview'', \<lambda>inb cid _. v2_crawl_params_preview ops e fw inb cid),
      (''GET'', ''/v2/crawl/{job_id}'', \<lambda>inb cid p. v2_crawl_status ops e fw inb cid p),
      (''GET'', ''/v2/crawl/status/{job_id}'', \<lambda>inb cid p. v2_crawl_status_alias ops e fw inb cid p),
      (''POST'', ''/v2/agent'', \<lambda>inb cid _. v2_agent ops e fw inb cid),
      (''POST'', ''/v2/batch/scrape'', \<lambda>inb cid _. v2_batch_scrape ops e fw inb cid),
      (''POST'', ''/v2/batch/scrape/start'', \<lambda>inb cid _. v2_batch_scrape_start ops e fw inb cid),
      (''GET'', ''/v2/batch/scrape/{job_id}'', \<lambda>inb cid p. v2_batch_scrape_status ops e fw inb cid p),
      (''GET'', ''/v2/batch/scrape/status/{job_id}'', \<lambda>inb cid p. v2_batch_scrape_status_alias ops e fw inb cid p),
      (''DELETE'', ''/v2/crawl/{job_id}'', \<lambda>inb cid p. v2_crawl_delete ops e fw inb cid p),
      (''GET'', ''/v2/crawl/{job_id}/errors'', \<lambda>inb cid p. v2_crawl_errors ops e fw inb cid p),
      (''GET'', ''/v2/batch/scrape/{job_id}/errors'', \<lambda>inb cid p. v2_batch_scrape_errors ops e fw inb cid p),
      (''DELETE'', ''/v2/batch/scrape/{job_id}'', \<lambda>inb cid p. v2_batch_scrape_delete ops e fw inb cid p),
      (''GET'', ''/v2/agent/{job_id}'', \<lambda>inb cid p. v2_agent_status ops e fw inb cid p),
      (''DELETE'', ''/v2/agent/{job_id}'', \<lambda>inb cid p. v2_agent_delete ops e fw inb cid p),
      (''POST'', ''/v2/browser'', \<lambda>inb cid _. v2_browser_create ops e fw inb cid),
      (''GET'', ''/v2/browser'', \<lambda>inb cid _. v2_browser_list ops e fw inb cid),
      (''POST'', ''/v2/browser/{session_id}/execute'', \<lambda>inb cid p. v2_browser_execute ops e fw inb cid p),
      (''DELETE'', ''/v2/browser/{session_id}'', \<lambda>inb cid p. v2_browser_delete ops e fw inb cid p),
      (''POST'', ''/v2/extract'', \<lambda>inb cid _. v2_extract ops e fw inb cid),
      (''GET'', ''/v2/extract/{job_id}'', \<lambda>inb cid p. v2_extract_status ops e fw inb cid p),
      (''POST'', ''/v2/scrape'', \<lambda>inb cid _. v2_scrape ops e fw inb cid),
      (''POST'', ''/v2/search'', \<lambda>inb cid _. v2_search ops e fw inb cid),
      (''POST'', ''/v2/map'', \<lambda>inb cid _. v2_map_urls ops e fw inb cid),
      (''GET'', ''/v2/team/credit-usage'', \<lambda>inb cid _. v2_team_credit_usage ops e fw inb cid),
      (''GET'', ''/v2/team/queue-status'', \<lambda>inb cid _. v2_team_queue_status ops e fw inb cid),
      (''GET'', ''/v2/team/credit-usage/historical'', \<lambda>inb cid _. v2_team_credit_usage_historical ops e fw inb cid),
      (''GET'', ''/v2/team/token-usage'', \<lambda>inb cid _. v2_team_token_usage ops e fw inb cid),
      (''GET'', ''/v2/team/token-usage/historical'', \<lambda>inb cid _. v2_team_token_usage_historical ops e fw inb cid),
      (''GET'', ''/v2/{path:path}'', \<lambda>inb cid _. v2_passthrough_get ops e fw inb cid),
      (''POST'', ''/v2/{path:path}'', \<lambda>inb cid _. v2_passthrough_post ops e fw inb cid),
      (''DELETE'', ''/v2/{path:path}'', \<lambda>inb cid _. v2_passthrough_delete ops e fw inb cid)]"

text \<open>\<open>create_app\<close> includes the routers in this order.\<close>

definition data_routes :: "app_config \<Rightarrow> 'b backend \<Rightarrow> env \<Rightarrow> forwarder \<Rightarrow> 'b routes" where
  "data_routes cfg ops e fw =
     (if sv_enable_data_plane (c_server cfg)
      then api_router ops e fw @ v1_router ops e fw @ v2_router ops e fw @
        (if pv_enabled (c_exa cfg) then exa_router ops e fw else [])
      else [])"

subsection \<open>The application\<close>

type_synonym invalid = "(string \<times> json) list list"

record framework =
  fr_route :: "(string \<times> string) list \<Rightarrow> web_request \<Rightarrow> int + nat \<times> string"
  fr_query :: "web_request \<Rightarrow> string"
  fr_undecodable :: "web_request \<Rightarrow> invalid option"
  fr_payload :: "nat \<Rightarrow> web_request \<Rightarrow> invalid + json option"

text \<open>
  The state of the server holds the backend of both scopes, the keys' and the clients'. A handler works on
  the keys' side, the gates on the clients'.
\<close>

definition key_side :: "('b \<times> 'b) app \<Rightarrow> 'b app" where
  "key_side s = \<lparr>sess = sess s, rr = rr s, kback = fst (kback s), failures = failures s, wall = wall s,
     mono = mono s, sent = sent s, meters = meters s\<rparr>"

definition with_clients :: "'b \<Rightarrow> 'b app \<Rightarrow> ('b \<times> 'b) app" where
  "with_clients cb s = \<lparr>sess = sess s, rr = rr s, kback = (kback s, cb), failures = failures s, wall = wall s,
     mono = mono s, sent = sent s, meters = meters s\<rparr>"

definition note_error :: "error_note \<Rightarrow> req_state \<Rightarrow> req_state" where
  "note_error n st = st\<lparr>mw_error_code := Some (en_code n), mw_error_details := Some (en_details n)\<rparr>"

text \<open>What an attribute of \<open>request.state\<close> is when a handler may have assigned it.\<close>

definition newer :: "'a option \<Rightarrow> 'a option \<Rightarrow> 'a option" where
  "newer x y = (case x of None \<Rightarrow> y | Some _ \<Rightarrow> x)"

definition note_handler :: "rstate \<Rightarrow> req_state \<Rightarrow> req_state" where
  "note_handler rs st =
     st\<lparr>mw_endpoint := newer (rs_endpoint rs) (mw_endpoint st), mw_api_key_id := newer (rs_api_key_id rs) (mw_api_key_id st),
        mw_retry_count := newer (rs_retry_count rs) (mw_retry_count st)\<rparr>"

definition inbound_of :: "framework \<Rightarrow> web_request \<Rightarrow> string \<Rightarrow> json option \<Rightarrow> inbound" where
  "inbound_of fr rq rid body = \<lparr>ib_request_id = rid, ib_path = wq_path rq, ib_query = fr_query fr rq,
     ib_headers = wq_headers rq, ib_body = body\<rparr>"

text \<open>
  The endpoint function with its validated body; what it raises itself is part of its outcome, because its
  notes on \<open>request.state\<close> survive.
\<close>

definition run_endpoint ::
  "framework \<Rightarrow> nat \<Rightarrow> string \<Rightarrow> string \<Rightarrow> 'b endpoint \<Rightarrow> web_request \<Rightarrow> int \<Rightarrow> 'b app
     \<Rightarrow> (fcam_error + invalid + (fcam_error + http_response) \<times> rstate) \<times> 'b app" where
  "run_endpoint fr i param rid h rq cid s =
     (case fr_payload fr i rq of
        Inl errors \<Rightarrow> (Inr (Inl errors), s)
      | Inr body \<Rightarrow>
          (case h (inbound_of fr rq rid body) cid param rstate_init s of
             (r, rs, s1) \<Rightarrow> (Inr (Inr (r, rs)), s1)))"

definition answer_error :: "error_note \<times> http_response \<Rightarrow> req_state \<Rightarrow> (raised + http_response) \<times> req_state" where
  "answer_error nr st = (Inr (snd nr), note_error (fst nr) st)"

definition answer_of ::
  "web_request \<Rightarrow> string \<Rightarrow> (fcam_error + invalid + (fcam_error + http_response) \<times> rstate) \<Rightarrow> req_state
     \<Rightarrow> (raised + http_response) \<times> req_state" where
  "answer_of rq rid outcome st =
     (case outcome of
        Inl err \<Rightarrow> answer_error (handle_fcam_error (wq_path rq) rid err) st
      | Inr (Inl errors) \<Rightarrow> answer_error (handle_validation_error (wq_path rq) rid errors) st
      | Inr (Inr (Inl err, rs)) \<Rightarrow> answer_error (handle_fcam_error (wq_path rq) rid err) (note_handler rs st)
      | Inr (Inr (Inr resp, rs)) \<Rightarrow> (Inr resp, note_handler rs st))"

text \<open>\<open>get_db\<close>: a session opened on the committed rows, closed when the request is over.\<close>

definition opened :: "'b app \<Rightarrow> 'b app" where
  "opened s = s\<lparr>sess := open_session (db (sess s)) (faults (sess s))\<rparr>"

definition closed :: "'b app \<Rightarrow> 'b app" where
  "closed s = s\<lparr>sess := close_session (sess s)\<rparr>"

text \<open>The client \<open>require_client\<close> notes on \<open>request.state\<close>, whatever the gates decide.\<close>

definition caller :: "env \<Rightarrow> secrets \<Rightarrow> web_request \<Rightarrow> 'b app \<Rightarrow> int option" where
  "caller e secrets rq s =
     (case fst (require_client e secrets (wq_headers rq) s) of Inl _ \<Rightarrow> None | Inr cid \<Rightarrow> Some cid)"

definition governed_route ::
  "'b gateway \<Rightarrow> framework \<Rightarrow> nat \<Rightarrow> string \<Rightarrow> 'b endpoint \<Rightarrow> ('b \<times> 'b) call" where
  "governed_route g fr i param h rq st s =
     (let rid = id_or_dash (mw_request_id st);
          s0 = opened (key_side s);
          st1 = st\<lparr>mw_client_id := newer (caller (gw_env g) (gw_secrets g) rq s0) (mw_client_id st)\<rparr>
      in case governed (gw_ops g) (gw_env g) (fw_config (gw_forwarder g)) (gw_secrets g) (wq_headers rq)
                (run_endpoint fr i param rid h rq) (snd (kback s)) s0 of
           (outcome, cb, s1) \<Rightarrow>
             (case answer_of rq rid outcome st1 of (r, st2) \<Rightarrow> (r, st2, with_clients cb (closed s1))))"

definition data_plane :: "'b gateway \<Rightarrow> framework \<Rightarrow> ('b \<times> 'b) call" where
  "data_plane g fr rq st s =
     (let rid = id_or_dash (mw_request_id st);
          routes = data_routes (fw_config (gw_forwarder g)) (gw_ops g) (gw_env g) (gw_forwarder g);
          refuse = (\<lambda>nr. case answer_error nr st of (r, st1) \<Rightarrow> (r, st1, s))
      in case fr_route fr (map (\<lambda>(meth, template, _). (meth, template)) routes) rq of
           Inl status \<Rightarrow> refuse (handle_http_exception (wq_path rq) rid status)
         | Inr (i, param) \<Rightarrow>
             (case fr_undecodable fr rq of
                Some errors \<Rightarrow> refuse (handle_validation_error (wq_path rq) rid errors)
              | None \<Rightarrow>
                  if i < length routes
                  then (case routes ! i of (_, _, h) \<Rightarrow> governed_route g fr i param h rq st s)
                  else refuse (handle_http_exception (wq_path rq) rid 404)))"

definition serve_data_plane ::
  "'b gateway \<Rightarrow> framework \<Rightarrow> string \<Rightarrow> web_request \<Rightarrow> ('b \<times> 'b) app
     \<Rightarrow> (raised + http_response) \<times> req_state \<times> ('b \<times> 'b) app" where
  "serve_data_plane g fr new_id = serve (fw_config (gw_forwarder g)) new_id (data_plane g fr)"

end
