(* ===== verification/Server_Facts.thy ===== *)
theory Server_Facts
  imports Server Gateway_Properties
begin

text \<open>
  A request from its arrival to its log row: what every handler of the route table keeps, proved once per
  shape of handler, and carried through the gates and the middlewares.
\<close>

subsection \<open>Orderly steps\<close>

text \<open>\<open>tidy\<close>: work on tables other than keys and clients is committed or undone, and the request log is left alone.\<close>

definition tidy :: "'b app \<Rightarrow> 'b app \<Rightarrow> bool" where
  "tidy s s' \<longleftrightarrow> (other_tables (cur (sess s)) = other_tables (db (sess s)) \<longrightarrow>
     other_tables (cur (sess s')) = other_tables (db (sess s')) \<and> t_logs (db (sess s')) = t_logs (db (sess s)))"

definition orderly :: "(instant \<Rightarrow> 'b \<Rightarrow> string \<Rightarrow> nat) \<Rightarrow> nat \<Rightarrow> (up_request \<Rightarrow> bool) \<Rightarrow> 'b app \<Rightarrow> 'b app \<Rightarrow> bool" where
  "orderly held n Q s s' \<longleftrightarrow> steady held s s' \<and> tidy s s' \<and> (ok_rows s \<longrightarrow> sends n Q s s')"

lemma t_logs_other: "t_logs (other_tables t) = t_logs t"
  by (simp add: other_tables_def)

lemma tidy_trans: "tidy s t \<Longrightarrow> tidy t u \<Longrightarrow> tidy s u"
  by (simp add: tidy_def)

lemma same_others_tidy: "same_others s s' \<Longrightarrow> tidy s s'"
  unfolding same_others_def tidy_def by (metis t_logs_other)

lemma orderly_refl: "orderly held n Q s s"
  by (simp add: orderly_def tidy_def steady_refl sends_same)

lemma orderly_mono: "orderly held m Q s t \<Longrightarrow> m \<le> n \<Longrightarrow> orderly held n Q s t"
  unfolding orderly_def by (blast intro: sends_mono)

lemma orderly_trans: "orderly held m Q s t \<Longrightarrow> orderly held n Q t u \<Longrightarrow> orderly held (m + n) Q s u"
  unfolding orderly_def using steady_rows by (blast intro: steady_trans tidy_trans sends_trans)

lemma orderly_then: "orderly held 0 Q s t \<Longrightarrow> orderly held n Q t u \<Longrightarrow> orderly held n Q s u"
  using orderly_trans [of held 0 Q s t n u] by simp

lemma then_orderly: "orderly held n Q s t \<Longrightarrow> orderly held 0 Q t u \<Longrightarrow> orderly held n Q s u"
  using orderly_trans [of held n Q s t 0 u] by simp

text \<open>A session's step that leaves both views as they are.\<close>

lemma orderly_views:
  assumes "cur ss = cur (sess s)" and "db ss = db (sess s)"
  shows "orderly held n Q s (s\<lparr>sess := ss\<rparr>)"
  using assms by (simp add: orderly_def tidy_def steady_def same_rows_def sends_same)

text \<open>An edit of other tables, and its end by a commit or a rollback.\<close>

definition edits :: "'b app \<Rightarrow> 'b app \<Rightarrow> bool" where
  "edits s s1 \<longleftrightarrow> db (sess s1) = db (sess s) \<and> t_keys (cur (sess s1)) = t_keys (cur (sess s)) \<and>
     t_logs (cur (sess s1)) = t_logs (cur (sess s)) \<and> wall s1 = wall s \<and> kback s1 = kback s \<and> sent s1 = sent s"

lemma edits_simps [simp]:
  "edits s (on_idem f s)" "edits s (on_bindings h s)"
  by (simp_all add: edits_def on_idem_def on_bindings_def)

lemma edit_ended:
  assumes "edits s s1" and "wall s2 = wall s1" and "kback s2 = kback s1" and "sent s2 = sent s1"
    and "cur (sess s2) = db (sess s2)" and "db (sess s2) = cur (sess s1) \<or> db (sess s2) = db (sess s1)"
  shows "orderly held n Q s s2"
proof -
  have "ok_rows s \<longrightarrow> same_rows s s2"
    using assms by (auto simp: edits_def ok_rows_def coherent_def same_rows_def)
  moreover have "tidy s s2" using assms(1,5,6) unfolding edits_def tidy_def by (metis t_logs_other)
  ultimately show ?thesis using assms by (simp add: orderly_def steady_def edits_def sends_same)
qed

lemma commit_edit:
  assumes "edits s s1" and "commit_app s1 = (ok, s2)"
  shows "orderly held n Q s s2"
proof -
  have "wall s2 = wall s1" "kback s2 = kback s1" "sent s2 = sent s1"
    using app_frames(11-13) [of s1] assms(2) by simp_all
  moreover from assms(2) have "cur (sess s2) = db (sess s2)" "db (sess s2) = cur (sess s1) \<or> db (sess s2) = db (sess s1)"
    by (auto elim: commit_app_cases)
  ultimately show ?thesis by (rule edit_ended [OF assms(1)])
qed

lemma commit_exc_edit:
  assumes "edits s s1" and "commit_exc s1 = (x, s2)"
  shows "orderly held n Q s s2"
proof -
  have "wall s2 = wall s1" "kback s2 = kback s1" "sent s2 = sent s1"
    using assms(2) by (auto simp: commit_exc_def split: prod.splits option.splits)
  moreover from assms(2) have "cur (sess s2) = db (sess s2)" "db (sess s2) = cur (sess s1) \<or> db (sess s2) = db (sess s1)"
    by (auto elim: commit_exc_cases)
  ultimately show ?thesis by (rule edit_ended [OF assms(1)])
qed

lemma orderly_rollback: "orderly held n Q s (rollback_app s)"
  by (rule edit_ended [of s s]) (simp_all add: edits_def rollback_app_def rollback_def)

lemma orderly_fault: "next_fault (sess s) = (f, ss) \<Longrightarrow> orderly held n Q s (s\<lparr>sess := ss\<rparr>)"
  by (rule orderly_views) (simp_all add: next_fault_views)

subsection \<open>Idempotency and bindings\<close>

lemma orderly_judge_existing: "judge_existing repr now hash r s = (x, s') \<Longrightarrow> orderly held 0 Q s s'"
  by (auto simp: judge_existing_def orderly_refl split: if_splits prod.splits bool.splits idem_status.splits
      option.splits list.splits sum.splits intro: commit_edit [OF edits_simps(1)])

lemma orderly_cleanup: "orderly held 0 Q s (cleanup_expired cid s)"
  unfolding cleanup_expired_def by (rule commit_edit [OF edits_simps(1) prod.collapse [symmetric]])

lemma orderly_begin_once:
  assumes "begin_once repr cfg cid key hash s = (x, s')"
  shows "orderly held 0 Q s s'"
proof -
  define s1 where "s1 = cleanup_expired cid s"
  obtain y s2 where c: "commit_exc (on_idem (\<lambda>rs. rs @ [new_record cfg cid key hash s1]) s1) = (y, s2)"
    by (cases "commit_exc (on_idem (\<lambda>rs. rs @ [new_record cfg cid key hash s1]) s1)")
  have 2: "orderly held 0 Q s s2"
    using orderly_cleanup [of held Q s cid] commit_exc_edit [OF edits_simps(1) c] unfolding s1_def by (rule orderly_then)
  obtain f ss where f: "next_fault (sess s2) = (f, ss)" by (cases "next_fault (sess s2)")
  have 3: "orderly held 0 Q s (s2\<lparr>sess := ss\<rparr>)" by (rule orderly_then [OF 2 orderly_fault [OF f]])
  show ?thesis
    using assms c 2 3 f
    by (auto simp: begin_once_def Let_def s1_def [symmetric] split: option.splits db_exc.splits prod.splits bool.splits
        intro: orderly_then [OF 3 orderly_rollback] orderly_then [OF 2 orderly_judge_existing])
qed

lemma orderly_begin: "begin_request repr cfg cid key hash s = (x, s') \<Longrightarrow> orderly held 0 Q s s'"
proof (induction repr cfg cid key hash s rule: begin_request.induct)
  case (1 repr cfg cid key hash s)
  obtain y t where y: "begin_once repr cfg cid key hash s = (y, t)" by (cases "begin_once repr cfg cid key hash s")
  note first = orderly_begin_once [OF y, of held Q]
  show ?case
  proof (cases "y = Start_again")
    case True
    have "begin_request repr cfg cid key hash t = (x, s')"
      using 1(2) y True by (simp add: begin_request.simps [of repr cfg cid key hash s])
    with 1(1) [OF y [symmetric] True] first show ?thesis by (blast intro: orderly_then)
  next
    case False
    with 1(2) y first show ?thesis
      by (cases y) (simp_all add: begin_request.simps [of repr cfg cid key hash s])
  qed
qed

lemma orderly_start: "start_or_replay e cfg cid k endpoint meth payload s = (x, s') \<Longrightarrow> orderly held 0 Q s s'"
  by (auto simp: start_or_replay_def orderly_refl split: if_splits option.splits prod.splits sum.splits
      dest: orderly_begin)

lemma orderly_complete: "orderly held 0 Q s (complete cfg ctx resp s)"
proof -
  obtain f ss where f: "next_fault (sess s) = (f, ss)" by (cases "next_fault (sess s)")
  note 1 = orderly_fault [OF f, of held 0 Q]
  have 2: "orderly held 0 Q s (snd (commit_app (on_idem h (s\<lparr>sess := ss\<rparr>))))" for h
    by (rule orderly_then [OF 1 commit_edit [OF edits_simps(1) prod.collapse [symmetric]]])
  show ?thesis
    by (simp add: complete_def f Let_def orderly_refl 1 2 orderly_then [OF 1 orderly_rollback]
        split: option.split sum.split)
qed

lemma orderly_bind: "orderly held 0 Q s (bind_resource cid kid rt rid ttl s)"
proof -
  have 1: "orderly held 0 Q s u" if "commit_exc (on_bindings h s) = (x, u)" for h x u
    by (rule commit_exc_edit [OF edits_simps(2) that])
  have 2: "orderly held 0 Q s (snd (commit_app (on_bindings h' u)))" if "commit_exc (on_bindings h s) = (x, u)" for h x u h'
    by (rule orderly_then [OF 1 [OF that] commit_edit [OF edits_simps(2) prod.collapse [symmetric]]])
  show ?thesis
    unfolding bind_resource_def Let_def
    by (auto simp: orderly_refl split: prod.split option.split db_exc.split dest: 1 intro: 2)
qed

lemma orderly_lookup:
  assumes "lookup_bound_key_id cid rt rid s = (r, s')"
  shows "orderly held 0 Q s s'"
proof -
  obtain f ss where f: "next_fault (sess s) = (f, ss)" by (cases "next_fault (sess s)")
  note 1 = orderly_fault [OF f, of held 0 Q]
  have 2: "orderly held 0 Q s (snd (commit_app (on_bindings h (s\<lparr>sess := ss\<rparr>))))" for h
    by (rule orderly_then [OF 1 commit_edit [OF edits_simps(2) prod.collapse [symmetric]]])
  from assms 1 2 show ?thesis
    by (auto simp: lookup_bound_key_id_def f Let_def orderly_refl split: if_splits option.splits)
qed

subsection \<open>The handlers\<close>

text \<open>A request authenticated with a key of the client, and the most a single inbound request may cause.\<close>

definition client_request :: "env \<Rightarrow> forwarder \<Rightarrow> int \<Rightarrow> 'b app \<Rightarrow> up_request \<Rightarrow> bool" where
  "client_request e fw cid s rq \<longleftrightarrow> (\<exists>call. fa_client_id call = cid \<and> tenant_request e fw call s rq)"

definition request_bound :: "forwarder \<Rightarrow> nat" where
  "request_bound fw = 2 * max (total_attempts fw ''firecrawl'') (total_attempts fw ''exa'')"

definition well_behaved ::
  "(instant \<Rightarrow> 'b \<Rightarrow> string \<Rightarrow> nat) \<Rightarrow> env \<Rightarrow> forwarder \<Rightarrow> int \<Rightarrow> (rstate \<Rightarrow> 'b app \<Rightarrow> 'b handled) \<Rightarrow> bool" where
  "well_behaved held e fw cid H \<longleftrightarrow>
     (\<forall>rs s r rs' s'. H rs s = (r, rs', s') \<longrightarrow> orderly held (request_bound fw) (client_request e fw cid s) s s')"

lemma well_behavedD:
  "well_behaved held e fw cid H \<Longrightarrow> H rs s = (r, rs', s') \<Longrightarrow>
     orderly held (request_bound fw) (client_request e fw cid s) s s'"
  unfolding well_behaved_def by blast

lemma sends_weaken: "sends n P s t \<Longrightarrow> (\<And>rq. P rq \<Longrightarrow> Q rq) \<Longrightarrow> sends n Q s t"
  unfolding sends_def by blast

lemma call_is_client_request:
  "tenant_request e fw (call_of inb cid meth path body pinned provider) s rq \<Longrightarrow> client_request e fw cid s rq"
  unfolding client_request_def by (rule exI, rule conjI [rotated], assumption) (simp add: call_of_def)

context lease_backend begin

lemma client_request_rows: "same_rows s t \<Longrightarrow> client_request e fw cid t rq \<Longrightarrow> client_request e fw cid s rq"
  unfolding client_request_def by (blast intro: tenant_request_rows)

text \<open>A quiet step before a well-behaved handler, and one after it.\<close>

lemma orderly_from:
  assumes "orderly held 0 (client_request e fw cid s) s t" and "orderly held n (client_request e fw cid t) t u"
  shows "orderly held n (client_request e fw cid s) s u"
proof -
  have "sends n (client_request e fw cid s) s u" if "ok_rows s"
  proof -
    have "same_rows s t" "ok_rows t" using assms(1) that steady_rows unfolding orderly_def by blast+
    with assms(2) have "sends n (client_request e fw cid s) t u"
      unfolding orderly_def by (blast intro: sends_weaken client_request_rows)
    with assms(1) that show ?thesis unfolding orderly_def by (metis sends_trans add_0)
  qed
  with assms show ?thesis unfolding orderly_def by (blast intro: steady_trans tidy_trans)
qed

lemma well_behaved_after:
  assumes "orderly held 0 (client_request e fw cid s) s t" and "well_behaved held e fw cid H"
    and "H rs t = (r, rs', s')"
  shows "orderly held (request_bound fw) (client_request e fw cid s) s s'"
  using assms(1) well_behavedD [OF assms(2,3)] by (rule orderly_from)

lemma forward_orderly:
  assumes "forward ops e fw (call_of inb cid meth path body pinned provider) s = (r, s')"
    and "provider \<in> {''firecrawl'', ''exa''}"
  shows "orderly held (request_bound fw) (client_request e fw cid s) s s'"
proof -
  let ?c = "call_of inb cid meth path body pinned provider"
  have "sends (request_bound fw) (client_request e fw cid s) s s'" if "ok_rows s"
  proof -
    have "sends (total_attempts fw provider) (tenant_request e fw ?c s) s s'"
      using forward_sent [OF assms(1) that] by (simp add: call_of_def)
    then have "sends (total_attempts fw provider) (client_request e fw cid s) s s'"
      by (rule sends_weaken) (rule call_is_client_request)
    moreover have "total_attempts fw provider \<le> request_bound fw" using assms(2) by (auto simp: request_bound_def)
    ultimately show ?thesis by (rule sends_mono)
  qed
  then show ?thesis
    using steady_forward [OF assms(1)] same_others_tidy [OF forward_others [OF assms(1)]] by (simp add: orderly_def)
qed

lemma route_well_behaved:
  "provider \<in> {''firecrawl'', ''exa''} \<Longrightarrow>
     well_behaved held e fw cid (forward_route ops e fw inb cid endpoint meth path body provider)"
  unfolding well_behaved_def
  by (auto simp only: forward_route_def split: prod.splits sum.splits dest: forward_orderly)

lemma fallback_well_behaved:
  "well_behaved held e fw cid (forward_with_fallback ops e fw inb cid meth primary fallback payload pinned)"
  unfolding well_behaved_def
proof (intro allI impI)
  fix rs s r rs' s'
  assume f: "forward_with_fallback ops e fw inb cid meth primary fallback payload pinned rs s = (r, rs', s')"
  have "sends (request_bound fw) (client_request e fw cid s) s s'" if ok: "ok_rows s"
  proof -
    have "sends (2 * total_attempts fw ''firecrawl'') (client_request e fw cid s) s s'"
      by (rule sends_weaken [OF fallback_sent [OF f ok]]) (blast intro: call_is_client_request)
    then show ?thesis by (rule sends_mono) (simp add: request_bound_def)
  qed
  moreover have "steady held s s'" using f by (rule fallback_relation) (blast intro: steady_forward steady_trans)+
  moreover have "tidy s s'"
    using f by (rule fallback_relation) (blast intro: same_others_tidy [OF forward_others] tidy_trans)+
  ultimately show "orderly held (request_bound fw) (client_request e fw cid s) s s'" by (simp add: orderly_def)
qed

lemma plain_well_behaved: "well_behaved held e fw cid (plain_v2 ops e fw inb cid endpoint meth path payload)"
  using fallback_well_behaved [of e fw cid inb meth "with_query inb path" None payload None]
  unfolding well_behaved_def plain_v2_def by blast

lemma create_well_behaved: "well_behaved held e fw cid (create_v2 ops e fw inb cid primary fallback rt)"
  unfolding well_behaved_def
proof (intro allI impI)
  fix rs s r rs' s'
  assume c: "create_v2 ops e fw inb cid primary fallback rt rs s = (r, rs', s')"
  obtain x rs1 s1 where f: "forward_with_fallback ops e fw inb cid ''POST'' primary fallback (ib_body inb) None rs s = (x, rs1, s1)"
    by (metis prod.exhaust)
  have "s' = s1 \<or> (\<exists>kid rid. s' = bind_resource cid kid rt rid None s1)"
    using c f by (auto simp: create_v2_def maybe_bind_created_resource_def split: sum.splits option.splits)
  with well_behavedD [OF fallback_well_behaved f] orderly_bind
  show "orderly held (request_bound fw) (client_request e fw cid s) s s'" by (blast intro: then_orderly)
qed

lemma bound_well_behaved:
  "well_behaved held e fw cid (bound_v2 ops e fw inb cid endpoint rt job meth primary fallback payload)"
  unfolding well_behaved_def
proof (intro allI impI)
  fix rs s r rs' s'
  assume b: "bound_v2 ops e fw inb cid endpoint rt job meth primary fallback payload rs s = (r, rs', s')"
   
  obtain pinned s1 where l: "lookup_bound_key_id cid rt job s = (pinned, s1)"
    by (cases "lookup_bound_key_id cid rt job s")
  from b l have "forward_with_fallback ops e fw inb cid meth (with_query inb primary)
      (map_option (with_query inb) fallback) payload pinned (rs\<lparr>rs_endpoint := Some endpoint\<rparr>) s1 = (r, rs', s')"
    by (simp add: bound_v2_def)
  from well_behaved_after [OF orderly_lookup [OF l] fallback_well_behaved this]
  show "orderly held (request_bound fw) (client_request e fw cid s) s s'" .
qed

lemma idempotent_well_behaved:
  assumes "well_behaved held e fw cid H"
  shows "well_behaved held e fw cid (idempotent_route e fw inb cid endpoint H)"
  unfolding well_behaved_def
proof (intro allI impI)
  fix rs s r rs' s'
  assume i: "idempotent_route e fw inb cid endpoint H rs s = (r, rs', s')"
  let ?Q = "client_request e fw cid s" and ?rs0 = "rs\<lparr>rs_endpoint := Some endpoint\<rparr>"
  obtain x s1 where st: "start_or_replay e (fw_config fw) cid (header_first (ib_headers inb) ''x-idempotency-key'')
      endpoint ''POST'' (ib_body inb) s = (x, s1)" by (metis prod.exhaust)
  note begun = orderly_start [OF st, of held ?Q]
  obtain y rs1 s2 where h: "H ?rs0 s1 = (y, rs1, s2)" by (metis prod.exhaust)
  note ran = well_behaved_after [OF begun assms h]
  have finished: "orderly held (request_bound fw) ?Q s (complete (fw_config fw) ctx resp s2)" for ctx resp
    by (rule then_orderly [OF ran orderly_complete])
  show "orderly held (request_bound fw) ?Q s s'"
    using i st h ran finished orderly_mono [OF begun]
    by (auto simp: idempotent_route_def Let_def split: sum.splits option.splits)
qed

lemma endpoint_noted:
  "well_behaved held e fw cid H \<Longrightarrow> well_behaved held e fw cid (\<lambda>rs. H (f rs))"
  unfolding well_behaved_def by blast

lemmas shapes = route_well_behaved fallback_well_behaved plain_well_behaved create_well_behaved bound_well_behaved
  idempotent_well_behaved endpoint_noted

end

subsection \<open>The routes\<close>

context lease_backend begin

lemma api_routes: "(meth, template, h) \<in> set (api_router ops e fw) \<Longrightarrow> well_behaved held e fw cid (h inb cid p)"
  by (auto simp: api_router_def api_scrape_def api_crawl_def api_crawl_status_def api_search_def api_agent_def
      intro!: shapes(1-6))

lemma v1_routes: "(meth, template, h) \<in> set (v1_router ops e fw) \<Longrightarrow> well_behaved held e fw cid (h inb cid p)"
  by (auto simp: v1_router_def v1_scrape_def v1_crawl_def v1_crawl_status_def v1_search_def v1_agent_def
      intro!: shapes(1-6))

lemma exa_routes: "(meth, template, h) \<in> set (exa_router ops e fw) \<Longrightarrow> well_behaved held e fw cid (h inb cid p)"
  by (auto simp: exa_router_def exa_search_def exa_find_similar_def exa_contents_def exa_answer_def intro!: shapes(1-6))

lemmas v2_defs = v2_crawl_def v2_crawl_start_def v2_crawl_active_def v2_crawl_params_preview_def v2_crawl_status_def
  v2_crawl_status_alias_def v2_agent_def v2_batch_scrape_def v2_batch_scrape_start_def v2_batch_scrape_status_def
  v2_batch_scrape_status_alias_def v2_crawl_delete_def v2_crawl_errors_def v2_batch_scrape_errors_def
  v2_batch_scrape_delete_def v2_agent_status_def v2_agent_delete_def v2_browser_create_def v2_browser_list_def
  v2_browser_execute_def v2_browser_delete_def v2_extract_def v2_extract_status_def v2_scrape_def v2_search_def
  v2_map_urls_def v2_team_credit_usage_def v2_team_queue_status_def v2_team_credit_usage_historical_def
  v2_team_token_usage_def v2_team_token_usage_historical_def v2_passthrough_get_def v2_passthrough_post_def
  v2_passthrough_delete_def

lemma v2_routes: "(meth, template, h) \<in> set (v2_router ops e fw) \<Longrightarrow> well_behaved held e fw cid (h inb cid p)"
  unfolding v2_router_def v2_defs list.set insert_iff empty_iff prod.inject
  by (elim disjE conjE) (simp_all add: shapes(1-6) endpoint_noted)

lemma routes_well_behaved:
  "(meth, template, h) \<in> set (data_routes cfg ops e fw) \<Longrightarrow> well_behaved held e fw cid (h inb cid p)"
  by (auto simp: data_routes_def split: if_splits dest: api_routes v1_routes v2_routes exa_routes)

end

subsection \<open>Through the gates\<close>

lemma orderly_same:
  assumes "cur (sess s') = cur (sess s)" and "db (sess s') = db (sess s)" and "wall s' = wall s" and "kback s' = kback s"
    and "sent s' = sent s"
  shows "orderly held n Q s s'"
  using assms by (simp add: orderly_def tidy_def steady_def same_rows_def sends_same)

lemma orderly_authenticate: "require_client e secrets hs s = (r, s') \<Longrightarrow> orderly held n Q s s'"
  by (drule require_client_sess) (simp add: orderly_same)

text \<open>The quota check may commit the client's new day.\<close>

lemma orderly_client_commit:
  assumes "commit (sess (on_client cid f s)) = (x, ss)"
  shows "orderly held n Q s (s\<lparr>sess := ss\<rparr>)"
proof -
  let ?t = "sess (on_client cid f s)"
  have "cur ss = cur ?t" "db ss = db (sess s) \<or> db ss = cur ?t"
    using assms by (auto simp: commit_def split: prod.splits if_splits dest: next_fault_views)
  moreover have "t_keys (cur ?t) = t_keys (cur (sess s))" "t_logs (cur ?t) = t_logs (cur (sess s))"
    by (simp_all add: on_client_def upd_client_def)
  moreover have "other_tables (cur ?t) = other_tables (cur (sess s))" by simp
  ultimately show ?thesis
    unfolding orderly_def tidy_def steady_def same_rows_def ok_rows_def coherent_def
    by (auto simp: sends_same) (metis t_logs_other)+
qed

lemma orderly_check_quota: "check_client_quota e cfg c s = (r, s') \<Longrightarrow> orderly held n Q s s'"
  by (auto simp: check_client_quota_def Let_def orderly_refl split: option.splits if_splits prod.splits
      dest: orderly_client_commit)

lemma orderly_gates: "enforce_client_governance ops e cfg c cb s = (r, cb', s') \<Longrightarrow> orderly held n Q s s'"
  by (auto simp: enforce_client_governance_def orderly_refl split: sum.splits option.splits prod.splits if_splits
      dest: orderly_check_quota)

context lease_backend begin

text \<open>Only an authenticated caller causes requests, and only with the keys of the client it is.\<close>

lemma governed_orderly:
  assumes "governed ops e cfg secrets hs handler cb s = (r, cb', s')"
    and "\<And>cid t x u. handler cid t = (x, u) \<Longrightarrow> orderly held n (client_request e fw cid t) t u"
  shows "case fst (require_client e secrets hs s) of
      Inl _ \<Rightarrow> orderly held 0 (\<lambda>_. False) s s'
    | Inr cid \<Rightarrow> orderly held n (client_request e fw cid s) s s'"
proof -
  obtain q s1 where rc: "require_client e secrets hs s = (q, s1)" by (cases "require_client e secrets hs s")
  note 1 = orderly_authenticate [OF rc, of held 0]
  show ?thesis
  proof (cases q)
    case (Inl err)
    with assms(1) rc 1 show ?thesis by (simp add: governed_def)
  next
    case (Inr cid)
    let ?Q = "client_request e fw cid s"
    show ?thesis
    proof (cases "get_client cid (sess s1)")
      case None
      with assms(1) rc Inr orderly_mono [OF 1] show ?thesis by (simp add: governed_def)
    next
      case (Some c)
      obtain x cb1 s2 where en: "enforce_client_governance ops e cfg c cb s1 = (x, cb1, s2)" by (metis prod.exhaust)
      have 2: "orderly held 0 ?Q s s2" by (rule orderly_then [OF 1 orderly_gates [OF en]])
      obtain y s3 where h: "handler cid s2 = (y, s3)" by (cases "handler cid s2")
      have 3: "orderly held n ?Q s s3" by (rule orderly_from [OF 2 assms(2) [OF h]])
      have "s' = s2 \<or> s' = s3" using assms(1) rc Inr Some en h by (auto simp: governed_def split: sum.splits)
      then show ?thesis using rc Inr 3 orderly_mono [OF 2] by auto
    qed
  qed
qed

text \<open>The client's own leases, when its limiter raises nothing.\<close>

lemma governed_client_leases:
  assumes "governed ops e cfg secrets hs handler cb s = (r, cb', s')"
    and "\<And>cid t x u. handler cid t = (x, u) \<Longrightarrow> orderly held n (client_request e fw cid t) t u"
    and "\<And>clk k n b. \<exists>x b'. be_allow ops clk k n b = (Inr x, b')" and "wall s' \<le> t"
  shows "held t cb' = held t cb"
  using assms(1) _ assms(3,4) by (rule governed_held) (use assms(2) in \<open>auto simp: orderly_def steady_def\<close>)

end

subsection \<open>The application\<close>

lemma key_side_sel [simp]:
  "sess (key_side s) = sess s" "kback (key_side s) = fst (kback s)" "wall (key_side s) = wall s"
  "sent (key_side s) = sent s" "mono (key_side s) = mono s"
  by (simp_all add: key_side_def)

lemma with_clients_sel [simp]:
  "sess (with_clients cb s) = sess s" "kback (with_clients cb s) = (kback s, cb)" "wall (with_clients cb s) = wall s"
  "sent (with_clients cb s) = sent s"
  by (simp_all add: with_clients_def)

lemma opened_sel [simp]:
  "cur (sess (opened s)) = db (sess s)" "db (sess (opened s)) = db (sess s)" "kback (opened s) = kback s"
  "wall (opened s) = wall s" "sent (opened s) = sent s" "ok_rows (opened s) = distinct (map k_id (t_keys (db (sess s))))"
  by (simp_all add: opened_def open_session_def ok_rows_def coherent_def)

lemma closed_sel [simp]:
  "db (sess (closed s)) = db (sess s)" "kback (closed s) = kback s" "wall (closed s) = wall s" "sent (closed s) = sent s"
  by (simp_all add: closed_def close_session_def)

text \<open>What one request may do to the server: requests with the caller's keys only, leases as before, no log row.\<close>

definition confined ::
  "(instant \<Rightarrow> 'b \<Rightarrow> string \<Rightarrow> nat) \<Rightarrow> 'b gateway \<Rightarrow> web_request \<Rightarrow> ('b \<times> 'b) app \<Rightarrow> ('b \<times> 'b) app \<Rightarrow> bool" where
  "confined held g rq s s' \<longleftrightarrow>
     (let s0 = opened (key_side s) in
      sends (request_bound (gw_forwarder g))
        (\<lambda>x. \<exists>cid. caller (gw_env g) (gw_secrets g) rq s0 = Some cid \<and>
           client_request (gw_env g) (gw_forwarder g) cid s0 x) s s') \<and>
     (\<forall>t key. wall s' \<le> t \<longrightarrow> held t (fst (kback s')) key = held t (fst (kback s)) key \<and>
        held t (snd (kback s')) key = held t (snd (kback s)) key)"

lemma confined_refl: "confined held g rq s s"
  by (simp add: confined_def Let_def sends_same)

lemma answer_of_answers:
  "\<exists>resp st'. answer_of rq rid outcome st = (Inr resp, st') \<and> mw_request_id st' = mw_request_id st"
  by (simp add: answer_of_def answer_error_def note_error_def note_handler_def split: sum.split prod.split)

context lease_backend begin

lemma governed_route_run:
  assumes "governed_route g fr i param h rq st s = (r, st', s')" and "gw_ops g = ops"
    and "(meth, template, h) \<in> set (data_routes cfg ops (gw_env g) (gw_forwarder g))"
    and "\<And>clk k n b. \<exists>x b'. be_allow ops clk k n b = (Inr x, b')"
    and "distinct (map k_id (t_keys (db (sess s))))"
  shows "confined held g rq s s'" and "t_logs (db (sess s')) = t_logs (db (sess s))"
    and "\<exists>resp. r = Inr resp" and "mw_request_id st' = mw_request_id st"
proof -
  let ?e = "gw_env g" and ?fw = "gw_forwarder g" and ?rid = "id_or_dash (mw_request_id st)"
  let ?s0 = "opened (key_side s)"
  let ?run = "run_endpoint fr i param ?rid h rq"
  define st1 where "st1 = st\<lparr>mw_client_id := newer (caller ?e (gw_secrets g) rq ?s0) (mw_client_id st)\<rparr>"
  obtain outcome cb s1 where gov: "governed ops ?e (fw_config ?fw) (gw_secrets g) (wq_headers rq) ?run (snd (kback s)) ?s0
      = (outcome, cb, s1)" by (metis prod.exhaust)
  have run: "?run cid t = (x, u) \<Longrightarrow> orderly held (request_bound ?fw) (client_request ?e ?fw cid t) t u" for cid t x u
    using well_behavedD [OF routes_well_behaved [OF assms(3)]]
    by (auto simp: run_endpoint_def orderly_refl split: sum.splits prod.splits)
  obtain resp st2 where ans: "answer_of rq ?rid outcome st1 = (Inr resp, st2)" "mw_request_id st2 = mw_request_id st1"
    using answer_of_answers by blast
  have s': "r = Inr resp" "st' = st2" "s' = with_clients cb (closed s1)"
    using assms(1,2) gov ans(1) by (simp_all add: governed_route_def Let_def st1_def)
  then show "\<exists>resp. r = Inr resp" "mw_request_id st' = mw_request_id st" using ans(2) by (simp_all add: st1_def)
  let ?Q = "\<lambda>x. \<exists>cid. caller ?e (gw_secrets g) rq ?s0 = Some cid \<and> client_request ?e ?fw cid ?s0 x"
  have gates: "case fst (require_client ?e (gw_secrets g) (wq_headers rq) ?s0) of
      Inl _ \<Rightarrow> orderly held 0 (\<lambda>_. False) ?s0 s1
    | Inr cid \<Rightarrow> orderly held (request_bound ?fw) (client_request ?e ?fw cid ?s0) ?s0 s1"
    using gov by (rule governed_orderly) (rule run)
  obtain P where o: "orderly held (request_bound ?fw) P ?s0 s1" and P: "\<And>x. P x \<Longrightarrow> ?Q x"
  proof (cases "fst (require_client ?e (gw_secrets g) (wq_headers rq) ?s0)")
    case (Inl err)
    with gates that [of "\<lambda>_. False"] show ?thesis by (simp add: orderly_mono [where m = 0])
  next
    case (Inr cid)
    with gates that [of "client_request ?e ?fw cid ?s0"] show ?thesis by (simp add: caller_def)
  qed
  have ok: "ok_rows ?s0" using assms(5) by simp
  from o ok have "sends (request_bound ?fw) P ?s0 s1" unfolding orderly_def by blast
  then have "sends (request_bound ?fw) ?Q ?s0 s1" by (rule sends_weaken) (rule P)
  then have "sends (request_bound ?fw) ?Q s s'" by (simp add: sends_def s')
  moreover have "held t (fst (kback s')) key = held t (fst (kback s)) key" if "wall s' \<le> t" for t key
    using o that by (simp add: orderly_def steady_def s')
  moreover have "held t (snd (kback s')) key = held t (snd (kback s)) key" if "wall s' \<le> t" for t key
  proof -
    have "wall s1 \<le> t" using that by (simp add: s')
    with gov run assms(4) have "held t cb = held t (snd (kback s))" by (rule governed_client_leases)
    then show ?thesis by (simp add: s')
  qed
  ultimately show "confined held g rq s s'" by (simp add: confined_def Let_def)
  show "t_logs (db (sess s')) = t_logs (db (sess s))" using o by (simp add: orderly_def tidy_def s')
qed

lemma data_plane_run:
  assumes "data_plane g fr rq st s = (r, st', s')" and "gw_ops g = ops"
    and "\<And>clk k n b. \<exists>x b'. be_allow ops clk k n b = (Inr x, b')"
    and "distinct (map k_id (t_keys (db (sess s))))"
  shows "confined held g rq s s' \<and> t_logs (db (sess s')) = t_logs (db (sess s)) \<and>
    (\<exists>resp. r = Inr resp) \<and> mw_request_id st' = mw_request_id st"
proof -
  let ?routes = "data_routes (fw_config (gw_forwarder g)) ops (gw_env g) (gw_forwarder g)"
  have refused: "s' = s \<and> (\<exists>resp. r = Inr resp) \<and> mw_request_id st' = mw_request_id st"
    if "(case answer_error nr st of (r, st1) \<Rightarrow> (r, st1, s)) = (r, st', s')" for nr
    using that by (auto simp: answer_error_def note_error_def)
  show ?thesis
  proof (cases "\<exists>i param. fr_route fr (map (\<lambda>(meth, template, _). (meth, template)) ?routes) rq = Inr (i, param)
      \<and> fr_undecodable fr rq = None \<and> i < length ?routes")
    case True
    then obtain i param where i: "fr_route fr (map (\<lambda>(meth, template, _). (meth, template)) ?routes) rq = Inr (i, param)"
      "fr_undecodable fr rq = None" "i < length ?routes" by blast
    obtain meth template h where h: "?routes ! i = (meth, template, h)" by (metis prod.exhaust)
    have "governed_route g fr i param h rq st s = (r, st', s')"
      using assms(1,2) i h by (simp add: data_plane_def Let_def)
    moreover have "(meth, template, h) \<in> set ?routes" using i(3) h by (metis nth_mem)
    ultimately show ?thesis
      using governed_route_run [OF _ assms(2) _ assms(3,4)] by auto
  next
    case False
    then have "s' = s \<and> (\<exists>resp. r = Inr resp) \<and> mw_request_id st' = mw_request_id st"
      using assms(1,2) by (auto simp: data_plane_def Let_def split: sum.splits option.splits if_splits dest!: refused)
    with confined_refl show ?thesis by blast
  qed
qed

end

subsection \<open>Behind the middlewares\<close>







end
