(* ===== verification/Housekeeping.thy ===== *)
theory Housekeeping
  imports Admin_Common
begin

text \<open>
  \<open>app/db/session.py\<close> (the database's URL, engine options and readiness), \<open>app/db/cleanup.py\<close> (retention) and
  \<open>app/api/health.py\<close>.
\<close>

subsection \<open>The database\<close>

definition to_slashes :: "string \<Rightarrow> string" where
  "to_slashes s = map (\<lambda>c. if c = CHR 0x5C then CHR ''/'' else c) s"

definition dot_or_slash :: "char \<Rightarrow> bool" where
  "dot_or_slash c \<longleftrightarrow> c = CHR ''.'' \<or> c = CHR ''/''"

definition drive_path :: "string \<Rightarrow> bool" where
  "drive_path path \<longleftrightarrow> 3 \<le> length path \<and> take 2 (drop 1 path) = '':/''"

definition build_database_url :: "database_config \<Rightarrow> string" where
  "build_database_url d =
     (case set_secret (dbc_url d) of
        Some url \<Rightarrow> url
      | None \<Rightarrow>
          (let path = to_slashes (dbc_path d) in
           if startswith path ''/'' then ''sqlite:////'' @ lstrip (\<lambda>c. c = CHR ''/'') path
           else if drive_path path then ''sqlite:///'' @ path
           else ''sqlite:///./'' @ lstrip dot_or_slash path))"

datatype pool = Static_pool | Null_pool | Default_pool

record engine_options =
  eo_url :: string
  eo_check_same_thread :: bool
  eo_pool :: pool

definition create_engine_from_config :: "database_config \<Rightarrow> engine_options" where
  "create_engine_from_config d =
     (let url = build_database_url d in
      if startswith url ''sqlite''
      then \<lparr>eo_url = url, eo_check_same_thread = False,
             eo_pool = (if substr '':memory:'' url then Static_pool else Null_pool)\<rparr>
      else \<lparr>eo_url = url, eo_check_same_thread = True, eo_pool = Default_pool\<rparr>)"

definition required_tables :: "string list" where
  "required_tables = [''api_keys'', ''audit_logs'', ''clients'', ''credit_snapshots'', ''idempotency_records'',
     ''request_logs'', ''upstream_resource_bindings'']"

text \<open>What the engine answers: \<open>None\<close> is a failure, else the backend and, for SQLite, its tables.\<close>

definition check_db_ready :: "(string list \<Rightarrow> string) \<Rightarrow> (string \<times> string list) option \<Rightarrow> bool \<times> string" where
  "check_db_ready list_text reply =
     (case reply of
        None \<Rightarrow> (False, ''Database unavailable'')
      | Some (backend_name, tables) \<Rightarrow>
          (let missing = filter (\<lambda>t. t \<notin> set tables) required_tables in
           if backend_name = ''sqlite'' \<and> missing \<noteq> []
           then (False, ''Database not initialized (missing tables: '' @ list_text missing @ '')'')
           else (True, ''ok'')))"

text \<open>
  A relative path loses its leading dots and slashes together: a path into the parent directory becomes
  one into the working directory, and a hidden file loses its dot.
\<close>

lemma parent_path_lost:
  assumes "dbc_url d = None" and "dbc_path d = ''../'' @ p"
  shows "build_database_url d = build_database_url (d\<lparr>dbc_path := ''./'' @ p\<rparr>)"
  using assms
  by (simp add: build_database_url_def set_secret_def to_slashes_def startswith_def drive_path_def lstrip_def
      dot_or_slash_def)

subsection \<open>Readiness\<close>

definition healthz :: json where
  "healthz = JObj [(''ok'', JBool True)]"

datatype redis_state = Redis_missing | Redis_down | Redis_up

definition ready_issues ::
  "app_config \<Rightarrow> secrets \<Rightarrow> bool \<times> string \<Rightarrow> redis_state \<Rightarrow> string list" where
  "ready_issues cfg secrets db_state redis =
     (let sv = c_server cfg in
      (if sv_enable_control_plane sv \<and> set_secret (sec_admin_token secrets) = None
       then [''Admin token not configured''] else []) @
      (if (sv_enable_data_plane sv \<or> sv_enable_control_plane sv) \<and> set_secret (sec_master_key secrets) = None
       then [''Master key not configured''] else []) @
      (if fst db_state then [] else [snd db_state]) @
      (if st_mode (c_state cfg) = ''redis''
       then (case redis of Redis_missing \<Rightarrow> [''Redis not configured''] | Redis_down \<Rightarrow> [''Redis unavailable''] | Redis_up \<Rightarrow> [])
       else []))"

definition readyz :: "app_config \<Rightarrow> secrets \<Rightarrow> bool \<times> string \<Rightarrow> redis_state \<Rightarrow> fcam_error + json" where
  "readyz cfg secrets db_state redis =
     (case ready_issues cfg secrets db_state redis of
        [] \<Rightarrow> Inr (JObj [(''ok'', JBool True)])
      | i # is \<Rightarrow>
          Inl ((fcam 503 ''NOT_READY'' i)\<lparr>e_details := Some (JObj [(''issues'', JArr (map JStr (i # is)))])\<rparr>))"

text \<open>A ready gateway can authenticate administrators and clients.\<close>

lemma ready_can_authenticate:
  assumes "readyz cfg secrets db_state redis = Inr j"
  shows "sv_enable_control_plane (c_server cfg) \<Longrightarrow> set_secret (sec_admin_token secrets) \<noteq> None"
    and "sv_enable_data_plane (c_server cfg) \<Longrightarrow> set_secret (sec_master_key secrets) \<noteq> None"
    and "fst db_state"
  using assms by (auto simp: readyz_def ready_issues_def Let_def split: list.splits if_splits)

subsection \<open>Retention\<close>

record cleanup_result =
  cr_request_logs :: nat
  cr_audit_logs :: nat
  cr_idempotency :: nat

definition idem_expired :: "instant \<Rightarrow> idem_record \<Rightarrow> bool" where
  "idem_expired now r \<longleftrightarrow> (case i_expires_at r of None \<Rightarrow> False | Some t \<Rightarrow> t < now)"

definition older :: "int \<Rightarrow> instant \<Rightarrow> instant \<Rightarrow> bool" where
  "older n now t \<longleftrightarrow> 0 < n \<and> t < now - days n"

definition delete_old :: "app_config \<Rightarrow> instant \<Rightarrow> tables \<Rightarrow> tables" where
  "delete_old cfg now t =
     (let ob = c_observability cfg in
      t\<lparr>t_logs := filter (\<lambda>l. \<not> older (ob_request_logs_days ob) now (l_created_at l)) (t_logs t),
        t_audit := filter (\<lambda>a. \<not> older (ob_audit_logs_days ob) now (a_created_at a)) (t_audit t),
        t_idem := filter (\<lambda>r. \<not> idem_expired now r) (t_idem t)\<rparr>)"

definition removed :: "'r list \<Rightarrow> 'r list \<Rightarrow> nat" where
  "removed before after = length before - length after"

text \<open>Up to three deletions and a commit; a failure rolls back and is raised again.\<close>

definition deletions :: "app_config \<Rightarrow> 'b db_op list" where
  "deletions cfg =
     (if 0 < ob_request_logs_days (c_observability cfg) then [op_read] else []) @
     (if 0 < ob_audit_logs_days (c_observability cfg) then [op_read] else []) @ [op_read]"

definition cleanup_result_of :: "tables \<Rightarrow> tables \<Rightarrow> cleanup_result" where
  "cleanup_result_of t t' = \<lparr>cr_request_logs = removed (t_logs t) (t_logs t'),
     cr_audit_logs = removed (t_audit t) (t_audit t'), cr_idempotency = removed (t_idem t) (t_idem t')\<rparr>"

definition cleanup_retention :: "app_config \<Rightarrow> instant \<Rightarrow> 'b app \<Rightarrow> (db_exc + cleanup_result) \<times> 'b app" where
  "cleanup_retention cfg now s =
     (case attempt (deletions cfg @ [op_do (on_tables (delete_old cfg now)), op_commit]) s of
        (Some exc, s1) \<Rightarrow> (Inl exc, s1)
      | (None, s1) \<Rightarrow> (Inr (cleanup_result_of (cur (sess s)) (delete_old cfg now (cur (sess s)))), s1))"

text \<open>Either exactly the old rows are gone, or nothing has changed.\<close>

lemma attempt_reads:
  assumes "list_all (\<lambda>f. f = op_read) fs" and "attempt (fs @ gs) s = (r, s')"
  obtains (read) t where "attempt gs t = (r, s')" "cur (sess t) = cur (sess s)" "db (sess t) = db (sess s)"
    | (failed) exc where "r = Some exc" "db (sess s') = db (sess s)" "cur (sess s') = db (sess s)"
proof -
  have "(\<exists>t. attempt gs t = (r, s') \<and> cur (sess t) = cur (sess s) \<and> db (sess t) = db (sess s)) \<or>
      (\<exists>exc. r = Some exc \<and> db (sess s') = db (sess s) \<and> cur (sess s') = db (sess s))"
    using assms
  proof (induction fs arbitrary: s)
    case (Cons f fs)
    obtain x u where x: "op_read s = (x, u)" by (cases "op_read s")
    note v = op_read_views [OF x]
    show ?case
    proof (cases x)
      case None
      have "list_all (\<lambda>f. f = op_read) fs" "attempt (fs @ gs) u = (r, s')" using Cons.prems x None by simp_all
      from Cons.IH [OF this] v show ?thesis by simp
    next
      case (Some e)
      with Cons.prems x v show ?thesis by (auto simp: rollback_def)
    qed
  qed auto
  with that show thesis by blast
qed

lemma cleanup_all_or_nothing:
  assumes "cleanup_retention cfg now s = (out, s')"
  shows "case out of
      Inr n \<Rightarrow> db (sess s') = delete_old cfg now (cur (sess s)) \<and>
        n = cleanup_result_of (cur (sess s)) (db (sess s'))
    | Inl exc \<Rightarrow> db (sess s') = db (sess s) \<and> cur (sess s') = db (sess s)"
proof -
  let ?gs = "[op_do (on_tables (delete_old cfg now)), op_commit]"
  obtain r s1 where r: "attempt (deletions cfg @ ?gs) s = (r, s1)" by (cases "attempt (deletions cfg @ ?gs) s")
  have out: "s' = s1" "out = (case r of None \<Rightarrow> Inr (cleanup_result_of (cur (sess s)) (delete_old cfg now (cur (sess s))))
      | Some exc \<Rightarrow> Inl exc)"
    using assms r by (simp_all add: cleanup_retention_def split: option.splits)
  have "list_all (\<lambda>f. f = op_read) (deletions cfg)" by (simp add: deletions_def)
  from this r show ?thesis
  proof (cases rule: attempt_reads)
    case (read t)
    have "attempt [op_commit] (on_tables (delete_old cfg now) t) = (r, s1)"
      using read(1) by (simp add: op_do_def)
    then show ?thesis by (cases rule: commit_saved) (use out read in simp_all)
  qed (use out in simp)
qed

end
