(* ===== verification/Migration.thy ===== *)
theory Migration
  imports Pystr
begin

text \<open>
  \<open>app/tools/migrate_sqlite_to_postgres.py\<close>: the choice of tables, the copy in batches, the sequences and the
  verification. Rows are their primary key and their cells by column; of the target PostgreSQL enforces primary
  keys and the foreign keys of \<open>app/db/models.py\<close> (the other constraints hold for rows that come from a source
  that has them too; the migrations leave out the reference of \<open>api_keys.client_id\<close>, see \<open>Schema_Facts\<close>). What the tool finds out about its surroundings is a record of answers.
\<close>

subsection \<open>Rows and constraints\<close>

datatype cell = Null | Num int | Txt string | Blob string

record row =
  rw_id :: int
  rw_cells :: "(string \<times> cell) list"

definition cell_of :: "row \<Rightarrow> string \<Rightarrow> cell" where
  "cell_of r c = (if c = ''id'' then Num (rw_id r) else case map_of (rw_cells r) c of None \<Rightarrow> Null | Some v \<Rightarrow> v)"

type_synonym database = "string \<Rightarrow> row list"

definition foreign_keys :: "(string \<times> string \<times> string) list" where
  "foreign_keys =
     [(''api_keys'', ''client_id'', ''clients''), (''request_logs'', ''client_id'', ''clients''),
      (''request_logs'', ''api_key_id'', ''api_keys''), (''credit_snapshots'', ''api_key_id'', ''api_keys''),
      (''idempotency_records'', ''client_id'', ''clients''), (''upstream_resource_bindings'', ''client_id'', ''clients''),
      (''upstream_resource_bindings'', ''api_key_id'', ''api_keys'')]"

definition references :: "string \<Rightarrow> (string \<times> string) list" where
  "references t = map snd (filter (\<lambda>(a, c, r). a = t) foreign_keys)"

text \<open>A reference is null or the key of a row of the table referred to.\<close>

definition refers :: "database \<Rightarrow> string \<Rightarrow> row \<Rightarrow> bool" where
  "refers d t r \<longleftrightarrow> (\<forall>(c, ref) \<in> set (references t).
     case cell_of r c of Null \<Rightarrow> True | Num i \<Rightarrow> i \<in> rw_id ` set (d ref) | _ \<Rightarrow> False)"

text \<open>The target, with the state of each table's sequence: its value, and whether that has been given out.\<close>

record target =
  pg_rows :: database
  pg_seq :: "string \<Rightarrow> int \<times> bool"

definition next_id :: "target \<Rightarrow> string \<Rightarrow> int" where
  "next_id pg t = (case pg_seq pg t of (v, called) \<Rightarrow> if called then v + 1 else v)"

definition add_rows :: "string \<Rightarrow> row list \<Rightarrow> target \<Rightarrow> target" where
  "add_rows t batch pg = pg\<lparr>pg_rows := (pg_rows pg)(t := pg_rows pg t @ batch)\<rparr>"

definition insert_rows :: "string \<Rightarrow> row list \<Rightarrow> target \<Rightarrow> target option" where
  "insert_rows t batch pg =
     (if distinct (map rw_id (pg_rows pg t @ batch)) \<and> list_all (refers (pg_rows pg) t) batch
      then Some (add_rows t batch pg) else None)"

text \<open>\<open>TRUNCATE TABLE ... RESTART IDENTITY\<close> fails when a table that is not listed refers to a listed one.\<close>

definition truncate_tables :: "string list \<Rightarrow> target \<Rightarrow> target option" where
  "truncate_tables ts pg =
     (if list_all (\<lambda>(a, c, r). r \<in> set ts \<longrightarrow> a \<in> set ts) foreign_keys
      then Some (pg\<lparr>pg_rows := (\<lambda>t. if t \<in> set ts then [] else pg_rows pg t),
                    pg_seq := (\<lambda>t. if t \<in> set ts then (1, False) else pg_seq pg t)\<rparr>)
      else None)"

subsection \<open>The tables of a run\<close>

datatype migration_error =
    No_sqlite_path | No_postgres_url | No_sqlite_file
  | Not_postgres string | Unreachable string | Head_unknown | Uninitialised string | Behind string string
  | Unknown_tables "string set" | Nothing_selected | Missing_dependency string "string set"
  | Not_empty "(string \<times> nat) list" | Count_differs string nat nat
  | Sample_missing string int | Sample_differs string int string
  | Db_failed string

definition TABLE_ORDER :: "string list" where
  "TABLE_ORDER = [''clients'', ''api_keys'', ''idempotency_records'', ''request_logs'', ''audit_logs'']"

definition DEPENDENCIES :: "(string \<times> string set) list" where
  "DEPENDENCIES = [(''api_keys'', {''clients''}), (''idempotency_records'', {''clients''}),
     (''request_logs'', {''clients'', ''api_keys''})]"

definition SAMPLE_COLUMNS :: "(string \<times> string list) list" where
  "SAMPLE_COLUMNS =
     [(''clients'', [''id'', ''name'', ''token_hash'', ''is_active'']),
      (''api_keys'', [''id'', ''client_id'', ''api_key_hash'', ''api_key_last4'', ''plan_type'', ''is_active'',
         ''api_key_ciphertext'', ''account_password_ciphertext'']),
      (''idempotency_records'', [''id'', ''client_id'', ''idempotency_key'', ''request_hash'', ''status'']),
      (''request_logs'', [''id'', ''request_id'', ''client_id'', ''api_key_id'', ''endpoint'', ''method'',
         ''status_code'', ''success'', ''retry_count'']),
      (''audit_logs'', [''id'', ''actor_type'', ''action'', ''resource_type'', ''resource_id''])]"

definition parse_csv_list :: "string option \<Rightarrow> string set option" where
  "parse_csv_list v = map_option (\<lambda>s. set (filter (\<lambda>x. x \<noteq> []) (map strip (split_on (CHR '','') s)))) v"

definition resolve_tables :: "string set option \<Rightarrow> string set option \<Rightarrow> migration_error + string list" where
  "resolve_tables include_v exclude_v =
     (let inc = (case include_v of None \<Rightarrow> {} | Some x \<Rightarrow> x);
          exc = (case exclude_v of None \<Rightarrow> {} | Some x \<Rightarrow> x);
          unknown = (inc \<union> exc) - set TABLE_ORDER;
          tables = filter (\<lambda>t. (include_v = None \<or> t \<in> inc) \<and> t \<notin> exc) TABLE_ORDER
      in if unknown \<noteq> {} then Inl (Unknown_tables unknown)
         else if tables = [] then Inl Nothing_selected
         else Inr tables)"

definition validate_table_selection :: "string list \<Rightarrow> migration_error option" where
  "validate_table_selection selected =
     map_option (\<lambda>(t, deps). Missing_dependency t (deps - set selected))
       (find (\<lambda>(t, deps). t \<in> set selected \<and> \<not> deps \<subseteq> set selected) DEPENDENCIES)"

subsection \<open>Copying a table\<close>

record table_summary =
  ts_table :: string
  ts_source_rows :: nat
  ts_migrated_rows :: nat

text \<open>The loop over the source rows with its pending batch; a refused insert is an exception of the driver.\<close>

fun copy_rows :: "int \<Rightarrow> string \<Rightarrow> row list \<Rightarrow> row list \<Rightarrow> nat \<Rightarrow> target \<Rightarrow> (target \<times> nat) option" where
  "copy_rows bs t [] batch n pg =
     (if batch = [] then Some (pg, n)
      else map_option (\<lambda>pg1. (pg1, n + length batch)) (insert_rows t batch pg))"
| "copy_rows bs t (r # rs) batch n pg =
     (let b = batch @ [r] in
      if bs \<le> int (length b)
      then (case insert_rows t b pg of None \<Rightarrow> None | Some pg1 \<Rightarrow> copy_rows bs t rs [] (n + length b) pg1)
      else copy_rows bs t rs b n pg)"

definition fix_postgres_sequence :: "string \<Rightarrow> target \<Rightarrow> target" where
  "fix_postgres_sequence t pg =
     (let ids = map rw_id (pg_rows pg t) in
      pg\<lparr>pg_seq := (pg_seq pg)(t := if ids = [] then (1, False) else (Max (set ids), True))\<rparr>)"

text \<open>One transaction per table: a failure leaves the target as it was.\<close>

definition migrate_one_table :: "database \<Rightarrow> int \<Rightarrow> bool \<Rightarrow> string \<Rightarrow> target \<Rightarrow> (migration_error + table_summary) \<times> target" where
  "migrate_one_table src bs dry_run t pg =
     (let n = length (src t) in
      if dry_run then (Inr \<lparr>ts_table = t, ts_source_rows = n, ts_migrated_rows = 0\<rparr>, pg)
      else
        (case copy_rows bs t (sort_key rw_id (src t)) [] 0 pg of
           None \<Rightarrow> (Inl (Db_failed t), pg)
         | Some (pg1, m) \<Rightarrow>
             (Inr \<lparr>ts_table = t, ts_source_rows = n, ts_migrated_rows = m\<rparr>, fix_postgres_sequence t pg1)))"

fun migrate_tables ::
  "database \<Rightarrow> int \<Rightarrow> bool \<Rightarrow> string list \<Rightarrow> target \<Rightarrow> (migration_error + table_summary list) \<times> target" where
  "migrate_tables src bs dry_run [] pg = (Inr [], pg)"
| "migrate_tables src bs dry_run (t # ts) pg =
     (case migrate_one_table src bs dry_run t pg of
        (Inl err, pg1) \<Rightarrow> (Inl err, pg1)
      | (Inr x, pg1) \<Rightarrow>
          (case migrate_tables src bs dry_run ts pg1 of
             (Inl err, pg2) \<Rightarrow> (Inl err, pg2)
           | (Inr xs, pg2) \<Rightarrow> (Inr (x # xs), pg2)))"

subsection \<open>Verification\<close>

definition verify_counts :: "database \<Rightarrow> target \<Rightarrow> string list \<Rightarrow> migration_error option" where
  "verify_counts src pg ts =
     map_option (\<lambda>t. Count_differs t (length (src t)) (length (pg_rows pg t)))
       (find (\<lambda>t. length (src t) \<noteq> length (pg_rows pg t)) ts)"

definition same_cell :: "string \<Rightarrow> cell \<Rightarrow> cell \<Rightarrow> bool" where
  "same_cell col a b \<longleftrightarrow>
     (if substr ''ciphertext'' col then
        (case (a, b) of
           (Null, Null) \<Rightarrow> True
         | (Blob x, Blob y) \<Rightarrow> x \<noteq> [] \<and> y \<noteq> [] \<and> x = y
         | _ \<Rightarrow> False)
      else a = b)"

definition sample_columns :: "string \<Rightarrow> string list" where
  "sample_columns t = (case map_of SAMPLE_COLUMNS t of None \<Rightarrow> [''id''] | Some cs \<Rightarrow> if cs = [] then [''id''] else cs)"

definition verify_row :: "target \<Rightarrow> string \<Rightarrow> row \<Rightarrow> migration_error option" where
  "verify_row pg t r =
     (case find (\<lambda>d. rw_id d = rw_id r) (pg_rows pg t) of
        None \<Rightarrow> Some (Sample_missing t (rw_id r))
      | Some d \<Rightarrow>
          map_option (\<lambda>c. Sample_differs t (rw_id r) c)
            (find (\<lambda>c. \<not> same_cell c (cell_of r c) (cell_of d c)) (sample_columns t)))"

fun first_some :: "('a \<Rightarrow> 'e option) \<Rightarrow> 'a list \<Rightarrow> 'e option" where
  "first_some f [] = None"
| "first_some f (x # xs) = (case f x of None \<Rightarrow> first_some f xs | Some e \<Rightarrow> Some e)"

definition verify_samples :: "database \<Rightarrow> target \<Rightarrow> nat \<Rightarrow> string list \<Rightarrow> migration_error option" where
  "verify_samples src pg n ts =
     first_some (\<lambda>t. first_some (verify_row pg t) (take n (sort_key rw_id (src t)))) ts"

subsection \<open>A run\<close>

record surroundings =
  su_sqlite_path :: "string option list"
  su_postgres_url :: "string option list"
  su_file_exists :: bool
  su_dialect :: string
  su_sqlite_up :: bool
  su_postgres_up :: bool
  su_head :: "string option"
  su_sqlite_rev :: "string option"
  su_postgres_rev :: "string option"

text \<open>\<open>args.x or os.environ.get(...) or ...\<close>: the first that is given and not empty.\<close>

fun first_filled :: "string option list \<Rightarrow> string option" where
  "first_filled [] = None"
| "first_filled (None # xs) = first_filled xs"
| "first_filled (Some x # xs) = (if x = [] then first_filled xs else Some x)"

definition sqlite_url_from_path :: "string \<Rightarrow> string" where
  "sqlite_url_from_path path =
     (let normalized = map (\<lambda>c. if c = CHR 0x5C then CHR ''/'' else c) path in
      if startswith normalized ''/'' then ''sqlite:////'' @ lstrip (\<lambda>c. c = CHR ''/'') normalized
      else ''sqlite:///'' @ normalized)"

definition at_head :: "string option \<Rightarrow> string option \<Rightarrow> string \<Rightarrow> migration_error option" where
  "at_head wanted have_rev label =
     (case wanted of
        None \<Rightarrow> Some Head_unknown
      | Some h \<Rightarrow>
          (case have_rev of
             None \<Rightarrow> Some (Uninitialised label)
           | Some v \<Rightarrow> if v = h then None else Some (Behind label v)))"

definition preflight :: "surroundings \<Rightarrow> migration_error option" where
  "preflight su =
     (if first_filled (su_sqlite_path su) = None then Some No_sqlite_path
      else if first_filled (su_postgres_url su) = None then Some No_postgres_url
      else if \<not> su_file_exists su then Some No_sqlite_file
      else if su_dialect su \<noteq> ''postgresql'' then Some (Not_postgres (su_dialect su))
      else if \<not> su_sqlite_up su then Some (Unreachable ''SQLite'')
      else if \<not> su_postgres_up su then Some (Unreachable ''Postgres'')
      else (case at_head (su_head su) (su_sqlite_rev su) ''SQLite'' of
              Some err \<Rightarrow> Some err
            | None \<Rightarrow> at_head (su_head su) (su_postgres_rev su) ''Postgres''))"

record migration_options =
  mo_dry_run :: bool
  mo_truncate :: bool
  mo_include :: "string option"
  mo_exclude :: "string option"
  mo_batch_size :: int
  mo_verify :: bool

definition prepare_target :: "migration_options \<Rightarrow> string list \<Rightarrow> target \<Rightarrow> migration_error + target" where
  "prepare_target mo ts pg =
     (if mo_truncate mo then
        (if mo_dry_run mo then Inr pg
         else (case truncate_tables ts pg of None \<Rightarrow> Inl (Db_failed ''TRUNCATE'') | Some pg1 \<Rightarrow> Inr pg1))
      else
        (let non_empty = filter (\<lambda>(t, n). 0 < n) (map (\<lambda>t. (t, length (pg_rows pg t))) ts)
         in if non_empty \<noteq> [] then Inl (Not_empty non_empty) else Inr pg))"

definition verify_run :: "migration_options \<Rightarrow> database \<Rightarrow> string list \<Rightarrow> target \<Rightarrow> migration_error option" where
  "verify_run mo src ts pg =
     (if mo_dry_run mo \<or> \<not> mo_verify mo then None
      else (case verify_counts src pg ts of Some err \<Rightarrow> Some err | None \<Rightarrow> verify_samples src pg 10 ts))"

definition migrate ::
  "surroundings \<Rightarrow> migration_options \<Rightarrow> database \<Rightarrow> target \<Rightarrow> (migration_error + table_summary list) \<times> target" where
  "migrate su mo src pg =
     (case preflight su of
        Some err \<Rightarrow> (Inl err, pg)
      | None \<Rightarrow>
          (case resolve_tables (parse_csv_list (mo_include mo)) (parse_csv_list (mo_exclude mo)) of
             Inl err \<Rightarrow> (Inl err, pg)
           | Inr ts \<Rightarrow>
               (case validate_table_selection ts of
                  Some err \<Rightarrow> (Inl err, pg)
                | None \<Rightarrow>
                    (case prepare_target mo ts pg of
                       Inl err \<Rightarrow> (Inl err, pg)
                     | Inr pg1 \<Rightarrow>
                         (case migrate_tables src (mo_batch_size mo) (mo_dry_run mo) ts pg1 of
                            (Inl err, pg2) \<Rightarrow> (Inl err, pg2)
                          | (Inr xs, pg2) \<Rightarrow>
                              (case verify_run mo src ts pg2 of
                                 Some err \<Rightarrow> (Inl err, pg2)
                               | None \<Rightarrow> (Inr xs, pg2)))))))"

end
