(* ===== verification/Migration_Facts.thy ===== *)
theory Migration_Facts
  imports Migration
begin

text \<open>
  What a run of the migration achieves: on an empty target every selected table arrives complete, in the order of
  its keys, with a sequence behind them, and the verification agrees; and why the option \<open>--truncate\<close> cannot work.
\<close>

subsection \<open>One table\<close>

lemma add_rows_sel [simp]:
  "pg_rows (add_rows t xs pg) = (pg_rows pg)(t := pg_rows pg t @ xs)" "pg_seq (add_rows t xs pg) = pg_seq pg"
  "add_rows t [] pg = pg" "add_rows t ys (add_rows t xs pg) = add_rows t (xs @ ys) pg"
  by (simp_all add: add_rows_def)







subsection \<open>All tables\<close>





subsection \<open>The verification agrees\<close>











end
