(* ===== verification/Schema.thy ===== *)
theory Schema
  imports Admin_Facts Migration Housekeeping
begin

text \<open>
  The database schema: the Alembic migrations under \<open>src/migrations/\<close> as lists of operations, what a database
  makes of them, and the tables \<open>app/db/models.py\<close> declares. \<open>op\<close> and \<open>sa\<close> are Alembic and SQLAlchemy;
  of the operations the model keeps what the stricter of the two databases checks: names that exist or not,
  columns that an index uses (SQLite), tables that others refer to (PostgreSQL).
\<close>

subsection \<open>Tables and operations\<close>

datatype col_type = Integer_t | String_t nat | Text_t | Boolean_t | Date_t | Date_time_t | Large_binary_t

datatype column_default = Literal string | True_default | Sql string

record column =
  cl_name :: string
  cl_type :: col_type
  cl_nullable :: bool
  cl_primary :: bool
  cl_unique :: bool
  cl_refs :: "(string \<times> bool) option"
  cl_default :: "column_default option"

text \<open>A reference is to the \<open>id\<close> of a table, with or without \<open>ON DELETE CASCADE\<close>.\<close>

definition sa_column :: "string \<Rightarrow> col_type \<Rightarrow> bool \<Rightarrow> column_default option \<Rightarrow> column" where
  "sa_column n ty nullable d = \<lparr>cl_name = n, cl_type = ty, cl_nullable = nullable, cl_primary = False,
     cl_unique = False, cl_refs = None, cl_default = d\<rparr>"

definition primary_id :: column where
  "primary_id = (sa_column ''id'' Integer_t False None)\<lparr>cl_primary := True\<rparr>"

definition unique_column :: "string \<Rightarrow> col_type \<Rightarrow> column" where
  "unique_column n ty = (sa_column n ty False None)\<lparr>cl_unique := True\<rparr>"

definition reference :: "string \<Rightarrow> string \<Rightarrow> bool \<Rightarrow> bool \<Rightarrow> column" where
  "reference n target nullable cascade =
     (sa_column n Integer_t nullable None)\<lparr>cl_refs := Some (target, cascade)\<rparr>"

definition created_column :: "string \<Rightarrow> column" where
  "created_column n = sa_column n Date_time_t False (Some (Sql ''CURRENT_TIMESTAMP''))"

record table =
  tb_columns :: "column list"
  tb_unique :: "string list list"

record schema =
  sc_tables :: "(string \<times> table) list"
  sc_indexes :: "(string \<times> string \<times> string list) list"

definition empty_schema :: schema where
  "empty_schema = \<lparr>sc_tables = [], sc_indexes = []\<rparr>"

datatype ddl =
    Create_table string "column list" "string list list"
  | Drop_table string
  | Add_column string column
  | Drop_column string string
  | Create_index string string "string list"
  | Drop_index string string
  | Execute

definition names :: "table \<Rightarrow> string list" where
  "names tb = map cl_name (tb_columns tb)"

definition table_of :: "schema \<Rightarrow> string \<Rightarrow> table option" where
  "table_of s t = map_of (sc_tables s) t"

definition references_to :: "string \<Rightarrow> schema \<Rightarrow> bool" where
  "references_to t s \<longleftrightarrow>
     (\<exists>(n, tb) \<in> set (sc_tables s). n \<noteq> t \<and> (\<exists>c \<in> set (tb_columns tb). map_option fst (cl_refs c) = Some t))"

definition targets_exist :: "schema \<Rightarrow> string \<Rightarrow> column list \<Rightarrow> bool" where
  "targets_exist s self cols \<longleftrightarrow>
     (\<forall>c \<in> set cols. case cl_refs c of None \<Rightarrow> True | Some (t, _) \<Rightarrow> t = self \<or> table_of s t \<noteq> None)"

definition on_table :: "string \<Rightarrow> (table \<Rightarrow> table) \<Rightarrow> schema \<Rightarrow> schema" where
  "on_table t f s = s\<lparr>sc_tables := map (\<lambda>(n, tb). (n, if n = t then f tb else tb)) (sc_tables s)\<rparr>"

definition used_column :: "string \<Rightarrow> string \<Rightarrow> table \<Rightarrow> schema \<Rightarrow> bool" where
  "used_column t c tb s \<longleftrightarrow> (\<exists>(i, n, cs) \<in> set (sc_indexes s). n = t \<and> c \<in> set cs) \<or> (\<exists>u \<in> set (tb_unique tb). c \<in> set u)"

text \<open>\<open>None\<close> is an error of the database.\<close>

fun apply_ddl :: "ddl \<Rightarrow> schema \<Rightarrow> schema option" where
  "apply_ddl (Create_table t cols uniques) s =
     (if table_of s t = None \<and> distinct (map cl_name cols) \<and> targets_exist s t cols
         \<and> (\<forall>u \<in> set uniques. set u \<subseteq> set (map cl_name cols))
      then Some (s\<lparr>sc_tables := sc_tables s @ [(t, \<lparr>tb_columns = cols, tb_unique = uniques\<rparr>)]\<rparr>) else None)"
| "apply_ddl (Drop_table t) s =
     (if table_of s t \<noteq> None \<and> \<not> references_to t s
      then Some (s\<lparr>sc_tables := filter (\<lambda>(n, _). n \<noteq> t) (sc_tables s),
                   sc_indexes := filter (\<lambda>(_, n, _). n \<noteq> t) (sc_indexes s)\<rparr>) else None)"
| "apply_ddl (Add_column t c) s =
     (case table_of s t of
        None \<Rightarrow> None
      | Some tb \<Rightarrow>
          if cl_name c \<notin> set (names tb) \<and> targets_exist s t [c]
          then Some (on_table t (\<lambda>tb. tb\<lparr>tb_columns := tb_columns tb @ [c]\<rparr>) s) else None)"
| "apply_ddl (Drop_column t c) s =
     (case table_of s t of
        None \<Rightarrow> None
      | Some tb \<Rightarrow>
          if c \<in> set (names tb) \<and> \<not> used_column t c tb s
          then Some (on_table t (\<lambda>tb. tb\<lparr>tb_columns := filter (\<lambda>x. cl_name x \<noteq> c) (tb_columns tb)\<rparr>) s) else None)"
| "apply_ddl (Create_index i t cols) s =
     (case table_of s t of
        None \<Rightarrow> None
      | Some tb \<Rightarrow>
          if i \<notin> fst ` set (sc_indexes s) \<and> set cols \<subseteq> set (names tb)
          then Some (s\<lparr>sc_indexes := sc_indexes s @ [(i, t, cols)]\<rparr>) else None)"
| "apply_ddl (Drop_index i t) s =
     (if \<exists>(j, n, _) \<in> set (sc_indexes s). j = i \<and> n = t
      then Some (s\<lparr>sc_indexes := filter (\<lambda>(j, _). j \<noteq> i) (sc_indexes s)\<rparr>) else None)"
| "apply_ddl Execute s = Some s"

fun apply_all :: "ddl list \<Rightarrow> schema \<Rightarrow> schema option" where
  "apply_all [] s = Some s"
| "apply_all (x # xs) s = (case apply_ddl x s of None \<Rightarrow> None | Some s1 \<Rightarrow> apply_all xs s1)"

subsection \<open>The revisions\<close>

record revision =
  rv_id :: string
  rv_down :: "string option"
  rv_upgrade :: "ddl list"
  rv_downgrade :: "ddl list"

definition rev_0001 :: revision where
  "rev_0001 = \<lparr>rv_id = ''0001_init'', rv_down = None,
     rv_upgrade =
       [Create_table ''api_keys''
          [primary_id, sa_column ''api_key_ciphertext'' Large_binary_t False None,
           unique_column ''api_key_hash'' (String_t 64), sa_column ''api_key_last4'' (String_t 4) False None,
           sa_column ''name'' (String_t 255) True None,
           sa_column ''plan_type'' (String_t 32) False (Some (Literal ''free'')),
           sa_column ''is_active'' Boolean_t False (Some True_default),
           sa_column ''daily_quota'' Integer_t False (Some (Sql ''5'')),
           sa_column ''daily_usage'' Integer_t False (Some (Sql ''0'')), sa_column ''quota_reset_at'' Date_t True None,
           sa_column ''max_concurrent'' Integer_t False (Some (Sql ''2'')),
           sa_column ''current_concurrent'' Integer_t False (Some (Sql ''0'')),
           sa_column ''rate_limit_per_min'' Integer_t False (Some (Sql ''10'')),
           sa_column ''rate_limit_reset_at'' Date_time_t True None, sa_column ''cooldown_until'' Date_time_t True None,
           sa_column ''total_requests'' Integer_t False (Some (Sql ''0'')),
           sa_column ''last_used_at'' Date_time_t True None, created_column ''created_at'',
           sa_column ''status'' (String_t 32) False (Some (Literal ''active''))] [],
        Create_index ''idx_api_keys_active'' ''api_keys'' [''is_active'', ''status''],
        Create_index ''idx_api_keys_cooldown'' ''api_keys'' [''cooldown_until''],
        Create_index ''idx_api_keys_quota_reset'' ''api_keys'' [''quota_reset_at''],
        Create_table ''clients''
          [primary_id, unique_column ''name'' (String_t 255), unique_column ''token_hash'' (String_t 64),
           sa_column ''is_active'' Boolean_t False (Some True_default), sa_column ''daily_quota'' Integer_t True None,
           sa_column ''daily_usage'' Integer_t False (Some (Sql ''0'')), sa_column ''quota_reset_at'' Date_t True None,
           sa_column ''rate_limit_per_min'' Integer_t False (Some (Sql ''60'')),
           sa_column ''max_concurrent'' Integer_t False (Some (Sql ''10'')), created_column ''created_at'',
           sa_column ''last_used_at'' Date_time_t True None] [],
        Create_index ''idx_clients_active'' ''clients'' [''is_active''],
        Create_table ''request_logs''
          [primary_id, sa_column ''request_id'' (String_t 64) False None, reference ''client_id'' ''clients'' True False,
           reference ''api_key_id'' ''api_keys'' True False, sa_column ''endpoint'' (String_t 32) False None,
           sa_column ''method'' (String_t 16) False None, sa_column ''status_code'' Integer_t True None,
           sa_column ''response_time_ms'' Integer_t True None, sa_column ''success'' Boolean_t True None,
           sa_column ''error_message'' Text_t True None, sa_column ''idempotency_key'' (String_t 128) True None,
           created_column ''created_at''] [],
        Create_index ''idx_request_logs_request_id'' ''request_logs'' [''request_id''],
        Create_index ''idx_request_logs_created_at'' ''request_logs'' [''created_at''],
        Create_table ''idempotency_records''
          [primary_id, reference ''client_id'' ''clients'' False False,
           sa_column ''idempotency_key'' (String_t 128) False None, sa_column ''request_hash'' (String_t 64) False None,
           sa_column ''status'' (String_t 32) False None, sa_column ''response_status_code'' Integer_t True None,
           sa_column ''response_body'' Text_t True None, created_column ''created_at'',
           sa_column ''expires_at'' Date_time_t True None] [[''client_id'', ''idempotency_key'']],
        Create_index ''idx_idempotency_expires_at'' ''idempotency_records'' [''expires_at''],
        Create_table ''audit_logs''
          [primary_id, sa_column ''actor_type'' (String_t 32) False None, sa_column ''actor_id'' (String_t 255) True None,
           sa_column ''action'' (String_t 255) False None, sa_column ''resource_type'' (String_t 64) True None,
           sa_column ''resource_id'' (String_t 255) True None, sa_column ''ip'' (String_t 64) True None,
           sa_column ''user_agent'' (String_t 512) True None, created_column ''created_at''] [],
        Create_index ''idx_audit_logs_created_at'' ''audit_logs'' [''created_at'']],
     rv_downgrade =
       [Drop_index ''idx_audit_logs_created_at'' ''audit_logs'', Drop_table ''audit_logs'',
        Drop_index ''idx_idempotency_expires_at'' ''idempotency_records'', Drop_table ''idempotency_records'',
        Drop_index ''idx_request_logs_created_at'' ''request_logs'',
        Drop_index ''idx_request_logs_request_id'' ''request_logs'', Drop_table ''request_logs'',
        Drop_index ''idx_clients_active'' ''clients'', Drop_table ''clients'',
        Drop_index ''idx_api_keys_quota_reset'' ''api_keys'', Drop_index ''idx_api_keys_cooldown'' ''api_keys'',
        Drop_index ''idx_api_keys_active'' ''api_keys'', Drop_table ''api_keys'']\<rparr>"

definition rev_0002 :: revision where
  "rev_0002 = \<lparr>rv_id = ''0002_add_retry_count_to_request_logs'', rv_down = Some ''0001_init'',
     rv_upgrade = [Add_column ''request_logs'' (sa_column ''retry_count'' Integer_t False (Some (Sql ''0'')))],
     rv_downgrade = [Drop_column ''request_logs'' ''retry_count'']\<rparr>"

definition rev_0003 :: revision where
  "rev_0003 = \<lparr>rv_id = ''0003_add_account_fields_to_api_keys'', rv_down = Some ''0002_add_retry_count_to_request_logs'',
     rv_upgrade =
       [Add_column ''api_keys'' (sa_column ''account_username'' (String_t 255) True None),
        Add_column ''api_keys'' (sa_column ''account_password_ciphertext'' Large_binary_t True None),
        Add_column ''api_keys'' (sa_column ''account_verified_at'' Date_time_t True None)],
     rv_downgrade =
       [Drop_column ''api_keys'' ''account_verified_at'', Drop_column ''api_keys'' ''account_password_ciphertext'',
        Drop_column ''api_keys'' ''account_username'']\<rparr>"

definition rev_0004 :: revision where
  "rev_0004 = \<lparr>rv_id = ''0004_add_client_id_to_api_keys'', rv_down = Some ''0003_add_account_fields_to_api_keys'',
     rv_upgrade =
       [Add_column ''api_keys'' (sa_column ''client_id'' Integer_t True None),
        Create_index ''ix_api_keys_client_id'' ''api_keys'' [''client_id'']],
     rv_downgrade = [Drop_index ''ix_api_keys_client_id'' ''api_keys'', Drop_column ''api_keys'' ''client_id'']\<rparr>"

definition rev_0005 :: revision where
  "rev_0005 = \<lparr>rv_id = ''0005_add_error_details_to_request_logs'', rv_down = Some ''0004_add_client_id_to_api_keys'',
     rv_upgrade = [Add_column ''request_logs'' (sa_column ''error_details'' Text_t True None)],
     rv_downgrade = [Drop_column ''request_logs'' ''error_details'']\<rparr>"

definition rev_0006 :: revision where
  "rev_0006 = \<lparr>rv_id = ''0006_add_upstream_resource_bindings'', rv_down = Some ''0005_add_error_details_to_request_logs'',
     rv_upgrade =
       [Create_table ''upstream_resource_bindings''
          [primary_id, reference ''client_id'' ''clients'' False False, reference ''api_key_id'' ''api_keys'' False False,
           sa_column ''resource_type'' (String_t 32) False None, sa_column ''resource_id'' (String_t 128) False None,
           created_column ''created_at'', sa_column ''expires_at'' Date_time_t True None]
          [[''client_id'', ''resource_type'', ''resource_id'']],
        Create_index ''idx_upstream_resource_binding_lookup'' ''upstream_resource_bindings''
          [''client_id'', ''resource_type'', ''resource_id''],
        Create_index ''idx_upstream_resource_binding_expires_at'' ''upstream_resource_bindings'' [''expires_at'']],
     rv_downgrade =
       [Drop_index ''idx_upstream_resource_binding_expires_at'' ''upstream_resource_bindings'',
        Drop_index ''idx_upstream_resource_binding_lookup'' ''upstream_resource_bindings'',
        Drop_table ''upstream_resource_bindings'']\<rparr>"

definition rev_0007 :: revision where
  "rev_0007 = \<lparr>rv_id = ''0007_add_status_to_clients'', rv_down = Some ''0006_add_upstream_resource_bindings'',
     rv_upgrade = [Add_column ''clients'' (sa_column ''status'' (String_t 32) False (Some (Literal ''active''))), Execute],
     rv_downgrade = [Drop_column ''clients'' ''status'']\<rparr>"

text \<open>The statement revision 0007 executes on the rows.\<close>

definition backfill_status :: "client \<Rightarrow> client" where
  "backfill_status c = c\<lparr>c_status := (if c_is_active c then Cl_active else Cl_disabled)\<rparr>"

definition rev_0008 :: revision where
  "rev_0008 = \<lparr>rv_id = ''0008_add_credit_monitoring'', rv_down = Some ''0007_add_status_to_clients'',
     rv_upgrade =
       [Create_table ''credit_snapshots''
          [primary_id, reference ''api_key_id'' ''api_keys'' False True,
           sa_column ''remaining_credits'' Integer_t False None, sa_column ''plan_credits'' Integer_t False None,
           sa_column ''billing_period_start'' Date_time_t True None, sa_column ''billing_period_end'' Date_time_t True None,
           created_column ''snapshot_at'', sa_column ''fetch_success'' Boolean_t False (Some True_default),
           sa_column ''error_message'' Text_t True None] [],
        Create_index ''idx_credit_snapshots_api_key_id'' ''credit_snapshots'' [''api_key_id''],
        Create_index ''idx_credit_snapshots_snapshot_at'' ''credit_snapshots'' [''snapshot_at''],
        Add_column ''api_keys'' (sa_column ''last_credit_snapshot_id'' Integer_t True None),
        Add_column ''api_keys'' (sa_column ''last_credit_check_at'' Date_time_t True None),
        Add_column ''api_keys'' (sa_column ''cached_remaining_credits'' Integer_t True None),
        Add_column ''api_keys'' (sa_column ''cached_plan_credits'' Integer_t True None),
        Add_column ''api_keys'' (sa_column ''next_refresh_at'' Date_time_t True None)],
     rv_downgrade =
       [Drop_column ''api_keys'' ''next_refresh_at'', Drop_column ''api_keys'' ''cached_plan_credits'',
        Drop_column ''api_keys'' ''cached_remaining_credits'', Drop_column ''api_keys'' ''last_credit_check_at'',
        Drop_column ''api_keys'' ''last_credit_snapshot_id'',
        Drop_index ''idx_credit_snapshots_snapshot_at'' ''credit_snapshots'',
        Drop_index ''idx_credit_snapshots_api_key_id'' ''credit_snapshots'', Drop_table ''credit_snapshots'']\<rparr>"

definition rev_0009 :: revision where
  "rev_0009 = \<lparr>rv_id = ''0009_add_credit_monitoring_indexes'', rv_down = Some ''0008_add_credit_monitoring'',
     rv_upgrade =
       [Create_index ''idx_credit_snapshots_api_key_id_snapshot_at'' ''credit_snapshots'' [''api_key_id'', ''snapshot_at''],
        Create_index ''idx_api_keys_next_refresh_at'' ''api_keys'' [''next_refresh_at'']],
     rv_downgrade =
       [Drop_index ''idx_api_keys_next_refresh_at'' ''api_keys'',
        Drop_index ''idx_credit_snapshots_api_key_id_snapshot_at'' ''credit_snapshots'']\<rparr>"

definition rev_0010 :: revision where
  "rev_0010 = \<lparr>rv_id = ''0010_add_provider_to_api_keys'', rv_down = Some ''0009_add_credit_monitoring_indexes'',
     rv_upgrade =
       [Add_column ''api_keys'' (sa_column ''provider'' (String_t 32) False (Some (Literal ''firecrawl''))),
        Create_index ''idx_api_keys_provider'' ''api_keys'' [''provider'']],
     rv_downgrade = [Drop_index ''idx_api_keys_provider'' ''api_keys'', Drop_column ''api_keys'' ''provider'']\<rparr>"

definition revisions :: "revision list" where
  "revisions = [rev_0001, rev_0002, rev_0003, rev_0004, rev_0005, rev_0006, rev_0007, rev_0008, rev_0009, rev_0010]"

text \<open>Alembic follows \<open>down_revision\<close>: upwards from a revision to the one that names it, downwards to the one it names.\<close>

fun upgrade_all :: "revision list \<Rightarrow> schema \<Rightarrow> schema option" where
  "upgrade_all [] s = Some s"
| "upgrade_all (r # rs) s = (case apply_all (rv_upgrade r) s of None \<Rightarrow> None | Some s1 \<Rightarrow> upgrade_all rs s1)"

fun downgrade_all :: "revision list \<Rightarrow> schema \<Rightarrow> schema option" where
  "downgrade_all [] s = Some s"
| "downgrade_all (r # rs) s = (case apply_all (rv_downgrade r) s of None \<Rightarrow> None | Some s1 \<Rightarrow> downgrade_all rs s1)"

subsection \<open>The tables of the models\<close>

text \<open>What \<open>Base.metadata\<close> says of each table, and its unique constraints over several columns.\<close>

definition model_api_keys :: "column list" where
  "model_api_keys =
     [primary_id, reference ''client_id'' ''clients'' True False, sa_column ''api_key_ciphertext'' Large_binary_t False None,
      unique_column ''api_key_hash'' (String_t 64), sa_column ''api_key_last4'' (String_t 4) False None,
      sa_column ''account_username'' (String_t 255) True None,
      sa_column ''account_password_ciphertext'' Large_binary_t True None,
      sa_column ''account_verified_at'' Date_time_t True None, sa_column ''name'' (String_t 255) True None,
      sa_column ''plan_type'' (String_t 32) False None, sa_column ''is_active'' Boolean_t False None,
      sa_column ''daily_quota'' Integer_t False None, sa_column ''daily_usage'' Integer_t False None,
      sa_column ''quota_reset_at'' Date_t True None, sa_column ''max_concurrent'' Integer_t False None,
      sa_column ''current_concurrent'' Integer_t False None, sa_column ''rate_limit_per_min'' Integer_t False None,
      sa_column ''rate_limit_reset_at'' Date_time_t True None, sa_column ''cooldown_until'' Date_time_t True None,
      sa_column ''total_requests'' Integer_t False None, sa_column ''last_used_at'' Date_time_t True None,
      sa_column ''created_at'' Date_time_t False None, sa_column ''last_credit_snapshot_id'' Integer_t True None,
      sa_column ''last_credit_check_at'' Date_time_t True None, sa_column ''cached_remaining_credits'' Integer_t True None,
      sa_column ''cached_plan_credits'' Integer_t True None, sa_column ''next_refresh_at'' Date_time_t True None,
      sa_column ''provider'' (String_t 32) False None, sa_column ''status'' (String_t 32) False None]"

definition model_clients :: "column list" where
  "model_clients =
     [primary_id, unique_column ''name'' (String_t 255), unique_column ''token_hash'' (String_t 64),
      sa_column ''is_active'' Boolean_t False None, sa_column ''daily_quota'' Integer_t True None,
      sa_column ''daily_usage'' Integer_t False None, sa_column ''quota_reset_at'' Date_t True None,
      sa_column ''rate_limit_per_min'' Integer_t False None, sa_column ''max_concurrent'' Integer_t False None,
      sa_column ''created_at'' Date_time_t False None, sa_column ''last_used_at'' Date_time_t True None,
      sa_column ''status'' (String_t 32) False None]"

definition model_request_logs :: "column list" where
  "model_request_logs =
     [primary_id, sa_column ''request_id'' (String_t 64) False None, reference ''client_id'' ''clients'' True False,
      reference ''api_key_id'' ''api_keys'' True False, sa_column ''endpoint'' (String_t 32) False None,
      sa_column ''method'' (String_t 16) False None, sa_column ''status_code'' Integer_t True None,
      sa_column ''response_time_ms'' Integer_t True None, sa_column ''success'' Boolean_t True None,
      sa_column ''retry_count'' Integer_t False None, sa_column ''error_message'' Text_t True None,
      sa_column ''error_details'' Text_t True None, sa_column ''idempotency_key'' (String_t 128) True None,
      sa_column ''created_at'' Date_time_t False None]"

definition model_credit_snapshots :: "column list" where
  "model_credit_snapshots =
     [primary_id, reference ''api_key_id'' ''api_keys'' False True, sa_column ''remaining_credits'' Integer_t False None,
      sa_column ''plan_credits'' Integer_t False None, sa_column ''billing_period_start'' Date_time_t True None,
      sa_column ''billing_period_end'' Date_time_t True None, sa_column ''snapshot_at'' Date_time_t False None,
      sa_column ''fetch_success'' Boolean_t False None, sa_column ''error_message'' Text_t True None]"

definition model_idempotency_records :: "column list" where
  "model_idempotency_records =
     [primary_id, reference ''client_id'' ''clients'' False False, sa_column ''idempotency_key'' (String_t 128) False None,
      sa_column ''request_hash'' (String_t 64) False None, sa_column ''status'' (String_t 32) False None,
      sa_column ''response_status_code'' Integer_t True None, sa_column ''response_body'' Text_t True None,
      sa_column ''created_at'' Date_time_t False None, sa_column ''expires_at'' Date_time_t True None]"

definition model_bindings :: "column list" where
  "model_bindings =
     [primary_id, reference ''client_id'' ''clients'' False False, reference ''api_key_id'' ''api_keys'' False False,
      sa_column ''resource_type'' (String_t 32) False None, sa_column ''resource_id'' (String_t 128) False None,
      sa_column ''created_at'' Date_time_t False None, sa_column ''expires_at'' Date_time_t True None]"

definition model_audit_logs :: "column list" where
  "model_audit_logs =
     [primary_id, sa_column ''actor_type'' (String_t 32) False None, sa_column ''actor_id'' (String_t 255) True None,
      sa_column ''action'' (String_t 255) False None, sa_column ''resource_type'' (String_t 64) True None,
      sa_column ''resource_id'' (String_t 255) True None, sa_column ''ip'' (String_t 64) True None,
      sa_column ''user_agent'' (String_t 512) True None, sa_column ''created_at'' Date_time_t False None]"

definition model_tables :: "(string \<times> column list \<times> string list list) list" where
  "model_tables =
     [(''api_keys'', model_api_keys, []), (''clients'', model_clients, []), (''request_logs'', model_request_logs, []),
      (''credit_snapshots'', model_credit_snapshots, []),
      (''idempotency_records'', model_idempotency_records, [[''client_id'', ''idempotency_key'']]),
      (''upstream_resource_bindings'', model_bindings, [[''client_id'', ''resource_type'', ''resource_id'']]),
      (''audit_logs'', model_audit_logs, [])]"

subsection \<open>The environment of a run\<close>

text \<open>\<open>_database_url\<close>: \<open>env\<close> is \<open>os.environ\<close>, \<open>configured\<close> the URL of the loaded configuration.\<close>

definition migration_url :: "(string \<Rightarrow> string option) \<Rightarrow> string \<Rightarrow> string" where
  "migration_url environ configured =
     (case given (environ ''FCAM_DATABASE_URL'') of
        Some url \<Rightarrow> url
      | None \<Rightarrow>
          (case given (environ ''FCAM_DATABASE__URL'') of
             Some url \<Rightarrow> url
           | None \<Rightarrow>
               (case given (environ ''FCAM_DATABASE__PATH'') of
                  Some path \<Rightarrow>
                    if startswith path ''/''
                    then ''sqlite:////'' @ dropWhile (\<lambda>c. c = CHR ''/'') path else ''sqlite:///'' @ path
                | None \<Rightarrow> configured)))"

text \<open>
  \<open>_ensure_alembic_version_column_capacity\<close>: the column that holds a revision id is missing with its table, has
  no limit, or a limit; Alembic itself creates it with 32 characters, on SQLite without effect.
\<close>

datatype version_column = Missing | Unlimited | Limited int

definition ensure_capacity :: "string \<Rightarrow> version_column \<Rightarrow> version_column" where
  "ensure_capacity dialect v =
     (if dialect \<noteq> ''postgresql'' then v
      else (case v of
              Missing \<Rightarrow> Limited 255
            | Unlimited \<Rightarrow> Unlimited
            | Limited n \<Rightarrow> if n < 64 then Limited 255 else v))"

end
