(* ===== verification/Schema_Facts.thy ===== *)
theory Schema_Facts
  imports Schema
begin

text \<open>
  The migrations lead to the schema of the models but for one reference, and every one of them can be undone.
\<close>

subsection \<open>Undoing\<close>

definition column_names :: "schema \<Rightarrow> string \<Rightarrow> string set" where
  "column_names s t = (case table_of s t of None \<Rightarrow> {} | Some tb \<Rightarrow> set (names tb))"

text \<open>Names are unique, and what an index, a unique constraint or a reference names exists.\<close>

definition sound_schema :: "schema \<Rightarrow> bool" where
  "sound_schema s \<longleftrightarrow>
     distinct (map fst (sc_tables s)) \<and>
     (\<forall>(i, t, cs) \<in> set (sc_indexes s). table_of s t \<noteq> None \<and> set cs \<subseteq> column_names s t) \<and>
     (\<forall>(t, tb) \<in> set (sc_tables s). targets_exist s t (tb_columns tb) \<and> (\<forall>u \<in> set (tb_unique tb). set u \<subseteq> set (names tb)))"

fun undo :: "ddl \<Rightarrow> ddl list" where
  "undo (Create_table t cols uniques) = [Drop_table t]"
| "undo (Add_column t c) = [Drop_column t (cl_name c)]"
| "undo (Create_index i t cols) = [Drop_index i t]"
| "undo _ = []"

fun additive :: "ddl \<Rightarrow> bool" where
  "additive (Create_table t cols uniques) = True"
| "additive (Add_column t c) = True"
| "additive (Create_index i t cols) = True"
| "additive Execute = True"
| "additive _ = False"

lemma apply_all_append: "apply_all (xs @ ys) s = (case apply_all xs s of None \<Rightarrow> None | Some t \<Rightarrow> apply_all ys t)"
  by (induction xs arbitrary: s) (auto split: option.split)

lemma table_of_append: "table_of (s\<lparr>sc_tables := sc_tables s @ [(t, tb)]\<rparr>) n =
    (case table_of s n of None \<Rightarrow> if n = t then Some tb else None | Some x \<Rightarrow> Some x)"
  by (auto simp: table_of_def map_add_def split: option.split)

lemma table_of_on: "table_of (on_table t f s) n = (if n = t then map_option f (table_of s n) else table_of s n)"
proof -
  have "map_of (map (\<lambda>(n, tb). (n, if n = t then f tb else tb)) xs) n =
      (if n = t then map_option f (map_of xs n) else map_of xs n)" for xs :: "(string \<times> table) list"
    by (induction xs) auto
  then show ?thesis by (simp add: table_of_def on_table_def)
qed

lemma table_of_iff: "table_of s t \<noteq> None \<longleftrightarrow> t \<in> fst ` set (sc_tables s)"
  by (force simp: table_of_def map_of_eq_None_iff)

lemma undo_create:
  assumes "apply_ddl (Create_table t cols uniques) s = Some s'" and "sound_schema s"
  shows "apply_ddl (Drop_table t) s' = Some s \<and> sound_schema s'"
proof -
  let ?tb = "\<lparr>tb_columns = cols, tb_unique = uniques\<rparr>"
  have new: "table_of s t = None" "distinct (map cl_name cols)" "targets_exist s t cols"
    "\<forall>u \<in> set uniques. set u \<subseteq> set (map cl_name cols)"
    and s': "s' = s\<lparr>sc_tables := sc_tables s @ [(t, ?tb)]\<rparr>"
    using assms(1) by (simp_all split: if_splits)
  have t: "t \<notin> fst ` set (sc_tables s)" using new(1) table_of_iff by blast
  have "\<not> references_to t s"
    using assms(2) new(1) by (fastforce simp: references_to_def sound_schema_def targets_exist_def split: option.splits)
  then have "\<not> references_to t s'" by (auto simp: references_to_def s')
  moreover have "table_of s' t \<noteq> None" using new(1) by (simp add: s' table_of_append)
  moreover have "filter (\<lambda>(n, _). n \<noteq> t) (sc_tables s') = sc_tables s" using t by (force simp: s' filter_id_conv)
  moreover have "filter (\<lambda>(_, n, _). n \<noteq> t) (sc_indexes s') = sc_indexes s"
    using assms(2) new(1) by (fastforce simp: s' filter_id_conv sound_schema_def)
  moreover have "s = s\<lparr>sc_tables := sc_tables s, sc_indexes := sc_indexes s\<rparr>" by simp
  ultimately have "apply_ddl (Drop_table t) s' = Some s" by (simp add: s')
  moreover have "sound_schema s'"
    using assms(2) new t
    by (fastforce simp: sound_schema_def s' table_of_append column_names_def targets_exist_def names_def split: option.splits)
  ultimately show ?thesis by blast
qed

lemma on_table_id:
  assumes "\<And>tb. (t, tb) \<in> set (sc_tables s) \<Longrightarrow> g (f tb) = tb"
  shows "on_table t g (on_table t f s) = s"
proof -
  have "map (\<lambda>(n, tb). (n, if n = t then g tb else tb)) (map (\<lambda>(n, tb). (n, if n = t then f tb else tb)) xs) = xs"
    if "\<And>tb. (t, tb) \<in> set xs \<Longrightarrow> g (f tb) = tb" for xs
    using that by (induction xs) auto
  then show ?thesis using assms by (simp add: on_table_def)
qed

lemma undo_column:
  assumes "apply_ddl (Add_column t c) s = Some s'" and "sound_schema s"
  shows "apply_ddl (Drop_column t (cl_name c)) s' = Some s \<and> sound_schema s'"
proof -
  let ?f = "\<lambda>tb. tb\<lparr>tb_columns := tb_columns tb @ [c]\<rparr>"
  obtain tb where tb: "table_of s t = Some tb" "cl_name c \<notin> set (names tb)" "targets_exist s t [c]"
    and s': "s' = on_table t ?f s"
    using assms(1) by (auto split: option.splits if_splits)
  have tb': "table_of s' t = Some (?f tb)" by (simp add: s' table_of_on tb)
  have idx: "sc_indexes s' = sc_indexes s" by (simp add: s' on_table_def)
  have mem: "(t, tb) \<in> set (sc_tables s)" using tb(1) by (simp add: table_of_def map_of_SomeD)
  have only: "x = tb" if "(t, x) \<in> set (sc_tables s)" for x
    using that mem assms(2) by (auto simp: sound_schema_def dest: eq_key_imp_eq_value)
  have "\<not> used_column t (cl_name c) (?f tb) s'"
    using assms(2) tb(1,2) mem by (fastforce simp: used_column_def idx sound_schema_def column_names_def)
  moreover have "on_table t (\<lambda>tb. tb\<lparr>tb_columns := filter (\<lambda>x. cl_name x \<noteq> cl_name c) (tb_columns tb)\<rparr>) s' = s"
    unfolding s'
  proof (rule on_table_id)
    fix x
    assume "(t, x) \<in> set (sc_tables s)"
    then have "cl_name c \<notin> set (names x)" using only tb(2) by simp
    then have "filter (\<lambda>y. cl_name y \<noteq> cl_name c) (tb_columns x) = tb_columns x"
      by (intro filter_True ballI) (metis names_def image_eqI set_map)
    then show "(?f x)\<lparr>tb_columns := filter (\<lambda>y. cl_name y \<noteq> cl_name c) (tb_columns (?f x))\<rparr> = x" by simp
  qed
  moreover have "cl_name c \<in> set (names (?f tb))" by (simp add: names_def)
  ultimately have "apply_ddl (Drop_column t (cl_name c)) s' = Some s" by (simp add: tb')
  moreover have "sound_schema s'"
  proof -
    have "map fst (sc_tables s') = map fst (sc_tables s)" by (simp add: s' on_table_def case_prod_beta comp_def)
    moreover have exist: "table_of s' n \<noteq> None \<longleftrightarrow> table_of s n \<noteq> None" for n by (simp add: s' table_of_on)
    moreover have "column_names s n \<subseteq> column_names s' n" for n
      by (auto simp: column_names_def s' table_of_on names_def split: option.split)
    moreover have "targets_exist s' n (tb_columns x) \<and> (\<forall>u \<in> set (tb_unique x). set u \<subseteq> set (names x))"
      if mem': "(n, x) \<in> set (sc_tables s')" for n x
    proof -
      obtain y where y: "(n, y) \<in> set (sc_tables s)" "x = (if n = t then ?f y else y)"
        using mem' by (auto simp: s' on_table_def)
      have same: "targets_exist s' n cs = targets_exist s n cs" for cs
        unfolding targets_exist_def exist by (rule refl)
      have "targets_exist s n (tb_columns y)" "\<forall>u \<in> set (tb_unique y). set u \<subseteq> set (names y)"
        using assms(2) y(1) unfolding sound_schema_def by blast+
      then show ?thesis using y(2) tb(3) unfolding same by (auto simp: targets_exist_def names_def)
    qed
    ultimately show ?thesis using assms(2) by (fastforce simp: sound_schema_def idx)
  qed
  ultimately show ?thesis by blast
qed

lemma undo_index:
  assumes "apply_ddl (Create_index i t cols) s = Some s'" and "sound_schema s"
  shows "apply_ddl (Drop_index i t) s' = Some s \<and> sound_schema s'"
proof -
  obtain tb where tb: "table_of s t = Some tb" "i \<notin> fst ` set (sc_indexes s)" "set cols \<subseteq> set (names tb)"
    and s': "s' = s\<lparr>sc_indexes := sc_indexes s @ [(i, t, cols)]\<rparr>"
    using assms(1) by (auto split: option.splits if_splits)
  have "filter (\<lambda>(j, _). j \<noteq> i) (sc_indexes s') = sc_indexes s"
    using tb(2) by (force simp: s' filter_id_conv)
  then have "apply_ddl (Drop_index i t) s' = Some s" by (simp add: s')
  moreover have same: "table_of s' n = table_of s n" "sc_tables s' = sc_tables s" for n by (simp_all add: s' table_of_def)
  moreover have "column_names s' = column_names s" "targets_exist s' = targets_exist s"
    unfolding fun_eq_iff column_names_def targets_exist_def same by simp_all
  moreover have "set cols \<subseteq> column_names s t" using tb(1,3) by (simp add: column_names_def)
  ultimately have "apply_ddl (Drop_index i t) s' = Some s" "sound_schema s'"
    using assms(2) tb(1) by (simp_all add: sound_schema_def) (auto simp: s')
  then show ?thesis by blast
qed

lemma undo_ddl:
  assumes "apply_ddl x s = Some s'" and "additive x" and "sound_schema s"
  shows "apply_all (undo x) s' = Some s \<and> sound_schema s'"
  using assms
proof (cases x)
  case (Create_table t cols uniques)
  with undo_create [of t cols uniques s s'] assms show ?thesis by simp
next
  case (Add_column t c)
  with undo_column [of t c s s'] assms show ?thesis by simp
next
  case (Create_index i t cols)
  with undo_index [of i t cols s s'] assms show ?thesis by simp
qed auto

lemma undo_all:
  assumes "apply_all xs s = Some s'" and "list_all additive xs" and "sound_schema s"
  shows "apply_all (concat (map undo (rev xs))) s' = Some s \<and> sound_schema s'"
  using assms
proof (induction xs arbitrary: s)
  case (Cons x xs)
  obtain s1 where x: "apply_ddl x s = Some s1" and xs: "apply_all xs s1 = Some s'"
    using Cons.prems(1) by (auto split: option.splits)
  have 1: "apply_all (undo x) s1 = Some s" "sound_schema s1" using undo_ddl [OF x] Cons.prems(2,3) by auto
  have "apply_all (concat (map undo (rev xs))) s' = Some s1 \<and> sound_schema s'"
    using Cons.IH [OF xs] Cons.prems(2) 1(2) by simp
  with 1(1) show ?case by (simp add: apply_all_append)
qed simp

text \<open>Each downgrade takes back its upgrade, last step first.\<close>

lemmas revision_defs = rev_0001_def rev_0002_def rev_0003_def rev_0004_def rev_0005_def rev_0006_def rev_0007_def
  rev_0008_def rev_0009_def rev_0010_def

lemma revisions_mirrored:
  "list_all (\<lambda>r. list_all additive (rv_upgrade r) \<and> rv_downgrade r = concat (map undo (rev (rv_upgrade r)))) revisions"
  by (simp add: revisions_def revision_defs sa_column_def)

lemma revision_undone:
  assumes "r \<in> set revisions" and "sound_schema s" and "apply_all (rv_upgrade r) s = Some s'"
  shows "apply_all (rv_downgrade r) s' = Some s \<and> sound_schema s'"
  using undo_all [OF assms(3)] assms(1,2) revisions_mirrored by (simp add: list_all_iff)

lemma revisions_undone:
  assumes "set rs \<subseteq> set revisions" and "sound_schema s" and "upgrade_all rs s = Some s'"
  shows "downgrade_all (rev rs) s' = Some s \<and> sound_schema s'"
  using assms
proof (induction rs arbitrary: s)
  case (Cons r rs)
  obtain s1 where r: "apply_all (rv_upgrade r) s = Some s1" and rs: "upgrade_all rs s1 = Some s'"
    using Cons.prems(3) by (auto split: option.splits)
  have 1: "apply_all (rv_downgrade r) s1 = Some s" "sound_schema s1"
    using revision_undone [OF _ Cons.prems(2) r] Cons.prems(1) by auto
  have app: "downgrade_all (xs @ ys) t = (case downgrade_all xs t of None \<Rightarrow> None | Some u \<Rightarrow> downgrade_all ys u)" for xs ys t
    by (induction xs arbitrary: t) (auto split: option.split)
  have "downgrade_all (rev rs) s' = Some s1 \<and> sound_schema s'"
    using Cons.IH [OF _ 1(2) rs] Cons.prems(1) by simp
  with 1(1) show ?case by (simp add: app)
qed simp

subsection \<open>Where the migrations lead\<close>

text \<open>A column without what only the migrations say (a default of the server) and without its reference.\<close>

definition plain :: "column \<Rightarrow> column" where
  "plain c = c\<lparr>cl_default := None, cl_refs := None\<rparr>"

definition columns_agree :: "schema \<Rightarrow> bool" where
  "columns_agree s \<longleftrightarrow> set (map fst (sc_tables s)) = set (map fst model_tables) \<and>
     list_all (\<lambda>(t, cols, uniques). case table_of s t of
        None \<Rightarrow> False
      | Some tb \<Rightarrow> set (map plain (tb_columns tb)) = set (map plain cols) \<and> tb_unique tb = uniques) model_tables"

definition model_references :: "(string \<times> string \<times> string \<times> bool) list" where
  "model_references = concat (map (\<lambda>(t, cols, uniques). concat (map (\<lambda>c.
     case cl_refs c of None \<Rightarrow> [] | Some (target, cascade) \<Rightarrow> [(t, cl_name c, target, cascade)]) cols)) model_tables)"

definition has_reference :: "schema \<Rightarrow> string \<times> string \<times> string \<times> bool \<Rightarrow> bool" where
  "has_reference s = (\<lambda>(t, c, ref). case table_of s t of
      None \<Rightarrow> False
    | Some tb \<Rightarrow> \<exists>x \<in> set (tb_columns tb). cl_name x = c \<and> cl_refs x = Some ref)"

definition fits :: "nat \<Rightarrow> version_column \<Rightarrow> bool" where
  "fits n v = (case v of Missing \<Rightarrow> False | Unlimited \<Rightarrow> True | Limited k \<Rightarrow> int n \<le> k)"

lemma migrated:
  "case upgrade_all revisions empty_schema of None \<Rightarrow> False
   | Some s \<Rightarrow> columns_agree s \<and>
       filter (\<lambda>x. \<not> has_reference s x) model_references = [(''api_keys'', ''client_id'', ''clients'', False)]"
  by code_simp

text \<open>The references the migration tool is modelled with are those of the models.\<close>

lemma references_of_models: "map (\<lambda>(t, c, target, cascade). (t, c, target)) model_references = foreign_keys"
  by code_simp

lemma empty_sound: "sound_schema empty_schema"
  by (simp add: sound_schema_def empty_schema_def)

lemma longest_id: "list_all (\<lambda>r. length (rv_id r) \<le> 64) revisions"
  by (simp add: revisions_def revision_defs)

text \<open>C23. The migrations. Run from an empty database in the order of their \<open>down_revision\<close>, they succeed and lead to
  the tables of the models: the same columns, types, nullability and unique constraints. Of the models' foreign
  keys exactly one is missing, that of \<open>api_keys.client_id\<close>, which revision 0004 adds as a plain column. Any
  number of the last revisions can be taken back: from every sound schema on which some of them ran, their downgrades
  restore that schema. PostgreSQL's version column holds every revision's id, whatever it was before. And
  the statement revision 0007 runs on the clients makes flag and status agree.\<close>

theorem migrations_reach_models:
  assumes "set rs \<subseteq> set revisions" and "sound_schema s" and "upgrade_all rs s = Some s'"
  shows "downgrade_all (rev rs) s' = Some s \<and>
    (\<exists>full. upgrade_all revisions empty_schema = Some full \<and> columns_agree full \<and>
       filter (\<lambda>x. \<not> has_reference full x) model_references = [(''api_keys'', ''client_id'', ''clients'', False)] \<and>
       downgrade_all (rev revisions) full = Some empty_schema) \<and>
    map rv_down revisions = None # map Some (butlast (map rv_id revisions)) \<and>
    (\<forall>r \<in> set revisions. \<forall>v. fits (length (rv_id r)) (ensure_capacity ''postgresql'' v)) \<and>
    list_all coherent_client (map backfill_status cs)"
proof (intro conjI)
  show "downgrade_all (rev rs) s' = Some s" using revisions_undone [OF assms] by simp
  obtain full where full: "upgrade_all revisions empty_schema = Some full" "columns_agree full"
    "filter (\<lambda>x. \<not> has_reference full x) model_references = [(''api_keys'', ''client_id'', ''clients'', False)]"
    using migrated by (auto split: option.splits)
  with revisions_undone [OF subset_refl empty_sound full(1)]
  show "\<exists>full. upgrade_all revisions empty_schema = Some full \<and> columns_agree full \<and>
       filter (\<lambda>x. \<not> has_reference full x) model_references = [(''api_keys'', ''client_id'', ''clients'', False)] \<and>
       downgrade_all (rev revisions) full = Some empty_schema" by blast
  show "map rv_down revisions = None # map Some (butlast (map rv_id revisions))"
    by (simp add: revisions_def revision_defs)
  show "\<forall>r \<in> set revisions. \<forall>v. fits (length (rv_id r)) (ensure_capacity ''postgresql'' v)"
    using longest_id by (fastforce simp: list_all_iff fits_def ensure_capacity_def split: version_column.split)
  show "list_all coherent_client (map backfill_status cs)"
    by (simp add: list_all_iff coherent_client_def backfill_status_def)
qed

text \<open>The first revision, taken back.\<close>

theorem migrations_reach_models_witness:
  "\<exists>s. upgrade_all [rev_0001] empty_schema = Some s \<and> downgrade_all [rev_0001] s = Some empty_schema"
proof -
  have r: "set [rev_0001] \<subseteq> set revisions" by (simp add: revisions_def)
  have "upgrade_all [rev_0001] empty_schema \<noteq> None" by code_simp
  then obtain s where "upgrade_all [rev_0001] empty_schema = Some s" by blast
  with migrations_reach_models [OF r empty_sound this] show ?thesis by simp
qed

end
