(* ===== verification/Spec2Isabelle.thy ===== *)
theory Spec2Isabelle
  imports Samples Redis_Backend Gateway_Properties Credit_Facts Admin_Logs Server_Facts
    Housekeeping Migration_Facts Schema_Facts
begin

text \<open>
  A model of firecrawl-manger, an API gateway that hands out a client's upstream API keys in turn: a
  request comes in with a client token, passes the middlewares and the client's concurrency, rate and quota
  gates, is forwarded to Firecrawl or Exa with one of the client's keys, and is accounted for and logged. An
  administrator manages keys and clients, reads statistics and logs, and follows the credits of the keys.

  Parts and their theories (code under \<open>src/app/\<close>):

  \<^item> \<open>Prelude\<close>, \<open>Pystr\<close>, \<open>Json\<close>, \<open>Base64\<close>, \<open>Civil\<close>: lists and times, and the pieces of Python's standard
    library the program uses (string methods, \<open>json.dumps\<close> and \<open>json.loads\<close>, base 64, calendar dates).
  \<^item> \<open>Errors\<close> (\<open>errors.py\<close>), \<open>Config\<close> (\<open>config.py\<close>): exceptions as values, error bodies, the
    configuration records with their defaults and the merge of its sources.
  \<^item> \<open>Models\<close> (\<open>db/models.py\<close>): the rows, and SQLAlchemy's session as a record of committed tables,
    the session's view and a list of the outcomes of coming round trips, so that every
    \<open>except Exception: db.rollback()\<close> of the code is a branch.
  \<^item> \<open>Rate_Limit\<close>, \<open>Concurrency\<close>, \<open>Clock\<close>, \<open>Security\<close> (\<open>core/rate_limit.py\<close>, \<open>core/concurrency.py\<close>,
    \<open>core/time.py\<close>, \<open>core/security.py\<close>).
  \<^item> \<open>App_State\<close>: the state of one request (session, rotation indexes, limiter state, clocks, the
    requests sent so far, metrics) and the interface \<open>lease_backend\<close> of the limiter, the concurrency
    manager and the cool-down store, interpreted on the in-memory ones (\<open>core/cooldown.py\<close> included).
    \<open>Redis_Backend\<close> interprets it on the Redis ones: the scripts, the transactions that stand in for
    them, and a store in which every command may fail or conflict.
  \<^item> \<open>Key_Pool\<close> (\<open>core/key_pool.py\<close>): the selection of a key and its specification.
  \<^item> \<open>Http_Util\<close>, \<open>Credit_Estimator\<close>, \<open>Forwarder\<close>, \<open>Key_Test\<close> (\<open>core/forwarder.py\<close>,
    \<open>core/credit_estimator.py\<close>): the forwarding loops, one definition per block of the code. The loop
    over the pool is a recursion that ends because every turn uses one of \<open>max_selection_tries\<close>.
    \<open>Forward_Facts\<close> holds what they leave in the tables, by the locale \<open>quiet_relation\<close>: what every
    relation closed under the marking of keys and under commits says of a whole call.
  \<^item> \<open>Idempotency\<close>, \<open>Resource_Binding\<close> (\<open>core/idempotency.py\<close>, \<open>core/resource_binding.py\<close>). The
    recursion of \<open>start_or_replay\<close> ends because each round deletes a record of the key.
  \<^item> \<open>Governance\<close> (\<open>api/deps.py\<close>), \<open>Data_Plane\<close> (\<open>api/data_plane.py\<close>, \<open>firecrawl_compat.py\<close>,
    \<open>exa_compat.py\<close>, \<open>firecrawl_v2_compat.py\<close>) with \<open>Data_Plane_Facts\<close>: authentication, the gates,
    and every route.
  \<^item> \<open>Redact\<close> (\<open>core/redact.py\<close>, \<open>observability/logging.py\<close>), \<open>Middleware\<close> (\<open>middleware.py\<close>) with
    \<open>Middleware_Facts\<close>: the three middlewares as functions on what they wrap, the request log and what it hides.
  \<^item> \<open>Server\<close> with \<open>Server_Facts\<close> (\<open>main.py\<close>): the route table, and a request from its arrival to its
    log row. Starlette's matching of routes and FastAPI's validation are the argument \<open>framework\<close>.
  \<^item> \<open>Admin_Common\<close>, \<open>Admin_Keys\<close>, \<open>Admin_Key_Ops\<close>, \<open>Admin_Clients\<close>, \<open>Key_Import\<close>, \<open>Admin_Credits\<close>,
    \<open>Admin_Stats\<close>, \<open>Admin_Logs\<close> (\<open>api/control_plane.py\<close>, \<open>core/key_import.py\<close>, \<open>core/batch_clients.py\<close>, \<open>core/credit_aggregator.py\<close>):
    each handler as its transaction with the audit trail; queries as functions of the rows. \<open>Admin_Facts\<close>
    shows by the locale \<open>table_invariant\<close> what every handler keeps.
  \<^item> \<open>Credits\<close> with \<open>Credit_Facts\<close> (\<open>core/credit_fetcher.py\<close>, \<open>credit_refresh.py\<close>,
    \<open>credit_refresh_scheduler.py\<close>): the usage request, the schedule, and a round of the background refresh.
  \<^item> \<open>Gateway\<close> with \<open>Gateway_Properties\<close>: the operations of both planes as the steps of one state
    machine, and what holds in every state they reach.
  \<^item> \<open>Housekeeping\<close> (\<open>db/session.py\<close>, \<open>db/cleanup.py\<close>, \<open>api/health.py\<close>), \<open>Migration\<close> with
    \<open>Migration_Facts\<close> (\<open>tools/migrate_sqlite_to_postgres.py\<close>), \<open>Schema\<close> with \<open>Schema_Facts\<close>
    (\<open>src/migrations/\<close>): the revisions as lists of operations on a schema.
  \<^item> \<open>Samples\<close>: a small deployment on which the properties are run.

  What the lemmas show. \<open>steady\<close>, \<open>sends\<close>, \<open>settled\<close>, \<open>smooth\<close> and \<open>calm\<close> are the invariants: the
  identity of the rows and the balance of the leases, the requests sent, the ledger of usage counters,
  and what a session that answers keeps. Every operation has its lemma for each, and the properties
  compose them along a request. \<open>kept\<close> says the same of an invariant of the tables along the
  administrator's operations, \<open>orderly\<close> of a whole handler.

  Conventions. Instants are microseconds, strings lists of characters below 256, the token bucket's
  floats exact rationals. Time zones, ciphers, hashes, UTF-8 decoding and the upstream service are
  parameters (\<open>env\<close>, \<open>crypto\<close>); the only hypothesis on them is \<open>aes_sound\<close>, what AES-GCM promises.
  Stored timestamps are compared as instants, as PostgreSQL does (SQLite compares their digits). Threads are
  interleaved where the code shares state under a lock (\<open>conc_step\<close>, and the steps on the Redis store), and
  requests at the granularity of \<open>reaches\<close>. The reader of the logs (\<open>follow\<close>) has one step of fuel more than
  there are rows, which is enough because every page but the last is full.

  Not modelled: the construction of the FastAPI application in the rest of \<open>main.py\<close>, the cancelling of the
  scheduler's task, the installation of log handlers, the rendering of metrics, SQLAlchemy's engine,
  the reading of YAML files and the validation of the configuration by pydantic (calls into libraries),
  Alembic's opening of the database; the entry points under \<open>scripts/\<close> and the web interface.
\<close>

section \<open>Forwarding\<close>

text \<open>
  C1. Whatever a call to \<open>forward\<close> does, at most \<open>max_retries + 1\<close> requests leave for the upstream
  service, and each is authenticated with the decrypted key of a row that belongs to the calling client
  and to the provider of the call.
\<close>

theorem forward_stays_in_tenant:
  assumes "forward memory_ops e fw call s = (r, s')" and "ok_rows s"
  shows "sends (total_attempts fw (fa_provider call)) (tenant_request e fw call s) s s'"
  using assms by (rule mem.forward_sent)

theorem forward_stays_in_tenant_witness:
  "sends 2 (tenant_request (sample_env [500]) sample_forwarder sample_call sample_app) sample_app
     (snd (forward memory_ops (sample_env [500]) sample_forwarder sample_call sample_app))"
  using forward_stays_in_tenant [where e = "sample_env [500]" and fw = sample_forwarder and call = sample_call,
      OF prod.collapse [symmetric] sample_ok] by simp

text \<open>
  C2. Forwarding, on every path, keeps the identity of every key row and gives back every concurrency
  lease it took: at any later time each key has as many leases as before.
\<close>

theorem forward_returns_leases:
  assumes "forward memory_ops e fw call s = (r, s')"
  shows "steady memory_held s s'"
  using assms by (rule mem.steady_forward)

theorem forward_returns_leases_witness:
  "steady memory_held sample_app (snd (forward memory_ops (sample_env [429]) sample_forwarder sample_call sample_app))"
  by (rule forward_returns_leases [OF prod.collapse [symmetric]])



text \<open>
  C4. Liveness of the good case: when the key the pool selects is admitted by its gates and the
  upstream service gives it a final answer, \<open>forward\<close> returns that answer, at the first attempt, and
  says which key it used.
\<close>

theorem forward_returns_answer:
  assumes "smooth s" and "fw_master_key fw = Some mk" and "provider_base_url fw (fa_provider call) = Inr url"
    and "fa_pinned call = None"
    and "select ops e (fw_config fw) (Some (fa_client_id call)) (fa_provider call) s = (Inr kid, s1)"
    and "key_row kid s1 = Some k"
    and "admit ops k (metered (record_key_selected kid) s1) = (Admitted l, s2)"
    and "decrypt_api_key (en_crypto e) mk (k_ciphertext k) = Some p"
    and "ev_outcome (en_upstream e (length (sent s2)) (upstream_request fw call url p)) = Reply resp"
    and "classify resp = Final"
  shows "fst (forward ops e fw call s) = Inr (result_of resp kid 0)"
  using assms by (rule forward_answers)

theorem forward_returns_answer_witness:
  "fst (forward memory_ops (sample_env []) sample_forwarder sample_crawl_call sample_begun) =
     Inr (result_of (sample_reply 200) 1 0)"
proof (rule sample_admitted)
  fix k s2
  assume "key_row 1 sample_selected = Some k"
    "admit memory_ops k (metered (record_key_selected 1) sample_selected) = (Admitted (Slot_lease ''1''), s2)"
    "decrypt_api_key (en_crypto (sample_env [])) (replicate 32 (CHR ''k'')) (k_ciphertext k) = Some ''fc-alpha''"
  from forward_returns_answer [OF sample_run(2-5,1) this sample_run(6,7)] show ?thesis .
qed



text \<open>
  C6. The retries of the key pool: the retry count reported with an answer is within the selection
  bound, as many requests were sent as attempts were made, and an answer that asks for a retry (429,
  401, 403 or 5xx) is only returned once every attempt was used.
\<close>

theorem pool_retries_exhausted:
  assumes "pool_loop ops e fw call mk url pool_init s = (Inr res, s')"
  shows "0 \<le> fr_retry_count res \<and> fr_retry_count res < int (max_selection_tries fw (fa_provider call)) \<and>
    int (length (sent s')) - int (length (sent s)) \<le> fr_retry_count res + 1 \<and>
    (upstream_status_in retryable res \<longrightarrow>
       length (sent s') = length (sent s) + total_attempts fw (fa_provider call))"
  using pool_loop_result [OF assms] by blast

theorem pool_retries_exhausted_witness:
  "int (length (sent (snd (pool_loop memory_ops (sample_env []) sample_forwarder sample_crawl_call
     (replicate 32 (CHR ''k'')) sample_url pool_init sample_begun)))) - int (length (sent sample_begun)) \<le> 1"
proof -
  let ?p = "pool_loop memory_ops (sample_env []) sample_forwarder sample_crawl_call (replicate 32 (CHR ''k''))
    sample_url pool_init sample_begun"
  have "fst ?p = Inr (result_of (sample_reply 200) 1 0)"
    using sample_forward sample_run(3-5) by (simp add: forward_def)
  then have "?p = (Inr (result_of (sample_reply 200) 1 0), snd ?p)" by (simp add: prod_eq_iff)
  from pool_retries_exhausted [OF this] show ?thesis by (simp add: result_of_def)
qed

text \<open>
  C7. Forwarding touches no table but the keys' and the clients'.
\<close>

theorem forward_other_tables:
  assumes "forward ops e fw call s = (r, s')"
    and "other_tables (cur (sess s)) = other_tables (db (sess s))"
  shows "other_tables (cur (sess s')) = other_tables (cur (sess s)) \<and>
    other_tables (db (sess s')) = other_tables (db (sess s))"
  using forward_others [OF assms(1)] assms(2) by (simp add: same_others_def)

theorem forward_other_tables_witness:
  "t_bindings (db (sess (snd (forward memory_ops (sample_env []) sample_forwarder sample_call sample_app)))) =
     t_bindings sample_tables"
  by (rule other_tables_fields(2))
    (use forward_other_tables [where ops = memory_ops and e = "sample_env []" and fw = sample_forwarder
        and call = sample_call and s = sample_app, OF prod.collapse [symmetric]] in simp)

text \<open>
  C8. A request to the upstream service carries exactly one credential, the one of the key: whatever
  authentication headers the client sent, and whatever their case, are gone.
\<close>

theorem one_credential:
  assumes "provider_auth_header fw (fa_provider call) plaintext = [(a, v)]"
  shows "filter (\<lambda>(k, v). lower k \<in> {''authorization'', ''x-api-key''})
      (rq_headers (upstream_request fw call url plaintext)) = [(a, v)]"
proof -
  have "a \<in> {''authorization'', ''x-api-key''}"
    using assms by (auto simp: provider_auth_header_def split: if_splits option.splits)
  then show ?thesis
    using upstream_headers_auth [of a "fa_headers call" "fa_request_id call" v] assms
    by (simp add: upstream_request_def)
qed

theorem one_credential_witness:
  "filter (\<lambda>(k, v). lower k \<in> {''authorization'', ''x-api-key''})
     (rq_headers (upstream_request sample_forwarder sample_call sample_url ''fc-alpha'')) =
     [(''authorization'', ''Bearer fc-alpha'')]"
  by (rule one_credential) (simp add: provider_auth_header_def)

section \<open>Resources, sticky keys and idempotency\<close>

text \<open>
  C9. A resource that the upstream service just created is bound to the key that created it, so that
  every later call of the client on it finds that key.
\<close>

theorem created_resource_is_bound:
  assumes "create_v2 ops e fw inb cid primary fallback rt rs s = (Inr resp, rs', s')"
    and "smooth s" and "other_tables (cur (sess s)) = other_tables (db (sess s))"
    and "extract_id_from_response resp = Some rid"
    and "find (binding_match cid rt (strip rid)) (t_bindings (cur (sess s))) = None"
  shows "\<exists>kid. rs_api_key_id rs' = Some kid \<and> bound_key cid rt rid now (cur (sess s')) = Some kid"
  using assms by (rule created_resource_bound)

theorem created_resource_is_bound_witness:
  "\<exists>kid. bound_key 1 ''crawl'' ''job-1'' 99 (cur (sess (snd (snd (create_v2 memory_ops (sample_env [])
     sample_forwarder sample_inbound 1 ''/v2/crawl'' (Some ''/v2/crawl/start'') ''crawl'' rstate_init sample_begun))))) =
     Some kid"
proof -
  let ?c = "create_v2 memory_ops (sample_env []) sample_forwarder sample_inbound 1 ''/v2/crawl''
    (Some ''/v2/crawl/start'') ''crawl'' rstate_init sample_begun"
  have "fst ?c = Inr (to_fastapi_response (sample_reply 200))"
    using sample_fallback(1) [of "''/v2/crawl/start''" rstate_init] by (simp add: create_v2_def case_prod_beta)
  then have c: "?c = (Inr (to_fastapi_response (sample_reply 200)), fst (snd ?c), snd (snd ?c))"
    by (simp add: prod_eq_iff)
  have "other_tables (cur (sess sample_begun)) = other_tables (db (sess sample_begun))"
    using sample_begun_calm by (simp add: calm_def)
  from created_resource_is_bound [OF c sample_run(2) this sample_response(2), of 99] sample_begun_bindings
  show ?thesis by auto
qed

text \<open>
  C10. A call on a bound resource is sticky: as long as the binding is in force and its key usable, all
  requests of the call are authenticated with that key and the answer is reported for that key.
\<close>

theorem bound_route_uses_key:
  assumes "bound_v2 memory_ops e fw inb cid endpoint rt job meth primary None payload rs s = (r, rs', s')"
    and "faults (sess s) = []" and "strip job \<noteq> []"
    and "bound_key cid rt job (wall s) (cur (sess s)) = Some kid"
    and "pinned_row cid ''firecrawl'' kid (cur (sess s)) = Some k"
  shows "sends (total_attempts fw ''firecrawl'')
      (key_request e fw (call_of inb cid meth (with_query inb primary) payload (Some kid) ''firecrawl'') k) s s' \<and>
    (case r of Inl _ \<Rightarrow> True | Inr _ \<Rightarrow> rs_api_key_id rs' = Some kid)"
  using mem.bound_route_key [OF assms] by (auto split: sum.split)

theorem bound_route_uses_key_witness:
  "sends 2 (key_request (sample_env [500]) sample_forwarder
       (call_of sample_inbound 1 ''DELETE'' ''/v2/crawl/job-0'' None (Some 2) ''firecrawl'') (sample_key 2 ''fc-beta''))
     sample_app (snd (snd (v2_crawl_delete memory_ops (sample_env [500]) sample_forwarder sample_inbound 1 ''job-0''
       rstate_init sample_app)))"
proof -
  have h: "strip ''job-0'' \<noteq> []" "bound_key 1 ''crawl'' ''job-0'' (wall sample_app) (cur (sess sample_app)) = Some 2"
    "pinned_row 1 ''firecrawl'' 2 (cur (sess sample_app)) = Some (sample_key 2 ''fc-beta'')"
    by (code_simp, code_simp, simp add: pinned_row_def sample_tables_def sample_key_def pinned_usable_def is_disabled_def)
  show ?thesis
    using bound_route_uses_key [where e = "sample_env [500]" and fw = sample_forwarder and inb = sample_inbound
        and endpoint = "''crawl''" and meth = "''DELETE''" and primary = "''/v2/crawl/job-0''" and payload = None
        and rs = rstate_init, OF prod3_collapse _ h]
    by (simp add: v2_crawl_delete_def with_query_def sample_inbound_def)
qed

text \<open>
  C11. Replay: once \<open>POST /v2/crawl\<close> answered a request with an idempotency key, the same request gets
  the same response until the record expires, and nothing is sent upstream for it.
\<close>

theorem crawl_replayed:
  assumes "v2_crawl memory_ops e fw inb cid rs s = (Inr resp, rs1, u)"
    and "header_first (ib_headers inb) ''x-idempotency-key'' = Some key" and "key \<noteq> []"
    and "ip_enabled (c_idempotency (fw_config fw))"
    and "calm s" and "\<forall>r \<in> set (t_idem (cur (sess s))). \<not> live cid key (wall s) r"
    and "int (length (hr_body resp)) \<le> max (ip_max_response_bytes (c_idempotency (fw_config fw))) 1"
    and "t_idem (cur (sess v)) = t_idem (cur (sess u))" and "calm v"
    and "wall v \<le> wall s + seconds (max (ip_ttl_seconds (c_idempotency (fw_config fw))) 1)"
  shows "\<exists>rs2 v'. v2_crawl memory_ops e fw inb cid rs' v = (Inr resp, rs2, v') \<and> sent v' = sent v"
  using idempotent_route_replays [OF assms(5,6,4,3,2) idem_body_create assms(1) [unfolded v2_crawl_def] assms(7-10)]
  by (simp add: v2_crawl_def)

theorem crawl_replayed_witness:
  "\<exists>rs2 v'. v2_crawl memory_ops (sample_env []) sample_forwarder sample_inbound 1 rstate_init
       (sample_answered\<lparr>wall := seconds 60\<rparr>)
     = (Inr (to_fastapi_response (sample_reply 200)), rs2, v') \<and> sent v' = sent sample_answered"
proof -
  let ?v = "sample_answered\<lparr>wall := seconds 60\<rparr>"
  have v: "t_idem (cur (sess ?v)) = t_idem (cur (sess sample_answered))" "calm ?v"
    "wall ?v \<le> wall sample_app + seconds (max (ip_ttl_seconds (c_idempotency (fw_config sample_forwarder))) 1)"
    "int (length (hr_body (to_fastapi_response (sample_reply 200))))
       \<le> max (ip_max_response_bytes (c_idempotency (fw_config sample_forwarder))) 1"
    using sample_answered_calm by (simp_all add: calm_def idempotency_default_def seconds_def)
  show ?thesis
    using crawl_replayed [OF sample_crawl sample_inbound_key _ _ sample_calm(1) _ v(4,1,2,3)]
    by (simp add: idempotency_default_def sample_tables_def)
qed

text \<open>
  C12. No double creation: when forwarding a request with an idempotency key raised, the same request is
  refused with \<open>IDEMPOTENCY_IN_PROGRESS\<close> until the record expires.
\<close>

theorem crawl_not_repeated_after_error:
  assumes "v2_crawl memory_ops e fw inb cid rs s = (Inl err, rs1, u)"
    and "header_first (ib_headers inb) ''x-idempotency-key'' = Some key" and "key \<noteq> []"
    and "ip_enabled (c_idempotency (fw_config fw))"
    and "calm s" and "\<forall>r \<in> set (t_idem (cur (sess s))). \<not> live cid key (wall s) r"
    and "t_idem (cur (sess v)) = t_idem (cur (sess u))" and "calm v"
    and "wall v \<le> wall s + seconds (max (ip_ttl_seconds (c_idempotency (fw_config fw))) 1)"
  shows "fst (v2_crawl memory_ops e fw inb cid rs' v) = Inl idem_in_progress"
  using idempotent_error_holds [OF assms(5,6,4,3,2) idem_body_create assms(1) [unfolded v2_crawl_def] assms(7-9)]
  by (simp add: v2_crawl_def)

theorem crawl_not_repeated_after_error_witness:
  "fst (v2_crawl memory_ops (sample_env []) (sample_forwarder\<lparr>fw_master_key := None\<rparr>) sample_inbound 1 rstate_init
     (sample_begun\<lparr>wall := seconds 60\<rparr>)) = Inl idem_in_progress"
proof -
  let ?v = "sample_begun\<lparr>wall := seconds 60\<rparr>"
  have v: "t_idem (cur (sess ?v)) = t_idem (cur (sess sample_begun))" "calm ?v"
    "wall ?v \<le> wall sample_app + seconds (max (ip_ttl_seconds (c_idempotency
       (fw_config (sample_forwarder\<lparr>fw_master_key := None\<rparr>)))) 1)"
    using sample_begun_calm by (simp_all add: calm_def idempotency_default_def seconds_def)
  show ?thesis
    using crawl_not_repeated_after_error [OF sample_crawl_error sample_inbound_key _ _ sample_calm(1) _ v]
    by (simp add: idempotency_default_def sample_tables_def)
qed

section \<open>The key pool\<close>

text \<open>
  C13. Refinement: while no cooldown is stored outside the database and its round trips succeed,
  \<open>KeyPool.select\<close>, with its per-key commits and its in-place resets, picks exactly what the
  specification picks: the first eligible key in rotation order, or the error that the standings of all
  keys of the pool call for.
\<close>

theorem select_refines_spec:
  assumes "quiet ops" and "ok_rows s" and "faults (sess s) = []" and "unique_ok (cur (sess s))"
  shows "fst (select ops e cfg cid p s) = select_spec e cfg cid p s"
  using assms by (rule select_standing)

theorem select_refines_spec_witness:
  "fst (select memory_ops (sample_env []) sample_config (Some 1) ''firecrawl'' sample_app) =
     select_spec (sample_env []) sample_config (Some 1) ''firecrawl'' sample_app \<and>
   select_spec (sample_env []) sample_config (Some 1) ''firecrawl'' sample_app = Inr 1"
proof
  show "fst (select memory_ops (sample_env []) sample_config (Some 1) ''firecrawl'' sample_app) =
     select_spec (sample_env []) sample_config (Some 1) ''firecrawl'' sample_app"
    by (rule select_refines_spec) (simp_all add: quiet_memory sample_unique)
  show "select_spec (sample_env []) sample_config (Some 1) ''firecrawl'' sample_app = Inr 1" by code_simp
qed

text \<open>
  C14. What \<open>select\<close> returns is a key of the caller's pool that is active, neither cooling nor failed,
  within its daily quota, with its daily counter reset for today; and the rotation goes on behind it.
\<close>

theorem selected_key_is_ready:
  assumes "select ops e cfg cid p s = (Inr kid, s')"
  shows "\<exists>idx < length (pool_ids cid p (sess s)). kid = pool_ids cid p (sess s) ! idx
      \<and> rr s' (scope_of cid p) = Some (idx + 1) \<and>
    (\<exists>k. key_row kid s' = Some k \<and> ready (today_in_timezone (en_zone e) (qt_timezone (c_quota cfg)) (wall s)) k)"
  using select_pick(2,3) [OF assms] by blast

theorem selected_key_is_ready_witness:
  "\<exists>k. key_row 1 sample_selected = Some k \<and> \<not> is_disabled k \<and> \<not> quota_spent k"
  using selected_key_is_ready [OF sample_run(1)] by (auto simp: ready_def)

text \<open>
  C15. Fairness of the rotation: while the pool stays the same and a key stays eligible, the key is
  selected at least once in as many selections as the pool has keys.
\<close>

theorem rotation_is_fair:
  assumes "quiet ops" and "selection_series ops e cfg cid p ids i S" and "i < length ids"
  shows "\<exists>j < length ids. fst (select ops e cfg cid p (S j)) = Inr (ids ! i)"
  using assms by (rule series_served)

theorem rotation_is_fair_witness:
  "\<exists>j < 2. fst (select memory_ops (sample_env []) sample_config (Some 1) ''firecrawl'' (sample_series j)) = Inr 2"
  using rotation_is_fair [OF quiet_memory sample_selection_series] by (simp add: numeral_2_eq_2)

section \<open>Governance\<close>







text \<open>
  C19. The token bucket: over any sequence of calls in time order, the number of calls a key is granted
  until \<open>fin\<close> is at most the tokens it had at the start plus what its rate refills in between.
\<close>

theorem token_bucket_bound:
  assumes "0 < rate key" and "sorted (now # map fst calls)" and "\<forall>t \<in> fst ` set calls. t \<le> fin"
    and "bs key = Some b" and "last_refill b \<le> now" and "0 \<le> tokens b" and "now \<le> fin"
  shows "of_nat (granted rate key calls bs)
      \<le> level now (rate key) key bs + (fin - now) * (of_int (rate key) / 60)"
  using assms by (rule granted_le)

theorem token_bucket_bound_witness:
  "(of_nat (granted (\<lambda>_. 2) ''a'' [(0, ''a''), (1, ''a''), (30, ''a''), (60, ''b'')]
      [''a'' \<mapsto> \<lparr>tokens = 1, last_refill = 0\<rparr>]) :: rat) \<le> 3"
  using token_bucket_bound [of "\<lambda>_. 2" "''a''" 0 "[(0, ''a''), (1, ''a''), (30, ''a''), (60, ''b'')]" 60
      "[''a'' \<mapsto> \<lparr>tokens = 1, last_refill = 0\<rparr>]" "\<lparr>tokens = 1, last_refill = 0\<rparr>"]
  by (simp add: level_def refilled_def bucket_at_def)



text \<open>
  C21. The concurrency manager: in every reachable state the counter of a key is the number of its
  leases that were granted and not released, and never above the largest limit asked for.
\<close>

theorem concurrency_limit_kept:
  assumes "conc_reachable s"
  shows "current key (cy_states s) = int (outstanding key s) \<and> int (outstanding key s) \<le> max 0 (cy_hi s key)"
  using conc_reachable_inv [OF assms] by (simp add: conc_inv_def)

theorem concurrency_limit_kept_witness:
  "\<exists>s. conc_reachable s \<and> outstanding ''k'' s = 1 \<and> current ''k'' (cy_states s) = 1"
proof -
  obtain st where a: "try_acquire ''k'' 1 Map.empty = (Some (Slot_lease ''k''), st)"
    by (simp add: try_acquire_def)
  let ?s = "conc_init\<lparr>cy_states := st, cy_leases := cy_leases conc_init @ [\<lparr>lo_lease = Slot_lease ''k'', lo_released = False\<rparr>],
      cy_hi := (cy_hi conc_init)(''k'' := max (cy_hi conc_init ''k'') 1)\<rparr>"
  have "conc_step conc_init ?s" using a by (intro conc_step.granted) (simp add: conc_init_def)
  then have r: "conc_reachable ?s" by (rule conc_reachable.step [OF conc_reachable.init])
  moreover have "outstanding ''k'' ?s = 1" by (simp add: outstanding_def conc_init_def holds_def)
  ultimately show ?thesis using concurrency_limit_kept [OF r, of "''k''"] by auto
qed

section \<open>Accounting that differs from what is documented\<close>



text \<open>
  Every request on a job of a crawl is estimated like the creation of a crawl: for \<open>DELETE
  /v2/crawl/{id}\<close> the path is normalised to \<open>/v2/crawl\<close>, and at least 5 credits are deducted.
\<close>

theorem job_request_priced_as_creation:
  assumes "job \<noteq> []" and "set job \<inter> {CHR ''/'', CHR ''?''} = {}"
  shows "estimate_credit_cost (normalize_endpoint (''/v2/crawl/'' @ job)) rd = estimate_credit_cost ''/v2/crawl'' rd
    \<and> (\<forall>c. estimate_credit_cost (normalize_endpoint (''/v2/crawl/'' @ job)) rd = Some c \<longrightarrow> 5 \<le> c)"
  using normalize_job_path(1) [OF assms] estimate_at_least_base [of "''/v2/crawl''" rd]
  by (auto simp: base_cost_def credit_cost_map_def)

theorem job_request_priced_as_creation_witness:
  "estimate_credit_cost (normalize_endpoint ''/v2/crawl/job-1'') None = Some 5"
proof -
  have "estimate_credit_cost (normalize_endpoint (''/v2/crawl/'' @ ''job-1'')) None = estimate_credit_cost ''/v2/crawl'' None"
    using job_request_priced_as_creation [of "''job-1''" None] by simp
  also have "\<dots> = Some 5" by (simp add: estimate_credit_cost_def base_cost_def credit_cost_map_def)
  finally show ?thesis by simp
qed

section \<open>Fallback paths, key tests and the parts below\<close>

text \<open>
  A route with a fallback path sends at most twice the attempts of one call, every request with a
  key of the client and to one of the two paths.
\<close>

theorem fallback_route_requests:
  assumes "forward_with_fallback memory_ops e fw inb cid meth primary fallback payload pinned rs s = (r, rs', s')"
    and "ok_rows s"
  shows "sends (2 * total_attempts fw ''firecrawl'')
    (\<lambda>rq. \<exists>path \<in> {primary} \<union> set_option fallback.
      tenant_request e fw (call_of inb cid meth path payload pinned ''firecrawl'') s rq) s s'"
  using assms by (rule mem.fallback_sent)

theorem fallback_route_requests_witness:
  "sends 4 (\<lambda>rq. \<exists>path \<in> {''/v2/crawl'', ''/v2/crawl/start''}.
      tenant_request (sample_env [404]) sample_forwarder
        (call_of sample_inbound 1 ''POST'' path None None ''firecrawl'') sample_app rq) sample_app
     (snd (snd (forward_with_fallback memory_ops (sample_env [404]) sample_forwarder sample_inbound 1 ''POST''
       ''/v2/crawl'' (Some ''/v2/crawl/start'') None None rstate_init sample_app)))"
  using fallback_route_requests [where e = "sample_env [404]" and fw = sample_forwarder and inb = sample_inbound
      and cid = 1 and meth = "''POST''" and primary = "''/v2/crawl''" and fallback = "Some ''/v2/crawl/start''"
      and payload = None and pinned = None and rs = rstate_init, OF prod3_collapse sample_ok]
  by (simp add: disj_commute)



text \<open>
  C26. A stored response is read back as it was, to the byte, whatever bytes its body has.
\<close>

theorem stored_response_roundtrip:
  assumes "serialize_response m resp = Inr (st, body)" and "distinct (map fst (hr_headers resp))"
  shows "deserialize_response repr st body = Inr resp"
  using assms by (rule deserialize_serialize)

theorem stored_response_roundtrip_witness:
  "deserialize_response (\<lambda>_. []) 200 (dumps_default (response_blob (sample_reply 200))) = Inr (sample_reply 200)"
  by (rule stored_response_roundtrip [of 100])
    (simp_all add: serialize_response_def sample_reply_def)

text \<open>
  An API key survives encryption and decryption under AES-GCM, for every master key and nonce.
\<close>

theorem api_key_encryption_roundtrip:
  assumes "aes_sound cr" and "length nonce = 12" and "cr_utf8_decode cr p = Some p"
  shows "decrypt_api_key cr mk (encrypt_api_key cr mk nonce p) = Some p"
  using decrypt_encrypt_with [OF assms] by (simp add: decrypt_api_key_def encrypt_api_key_def)

theorem api_key_encryption_roundtrip_witness:
  "decrypt_api_key sample_crypto [] (encrypt_api_key sample_crypto [] (replicate 12 (CHR ''n'')) ''fc-alpha'') =
     Some ''fc-alpha''"
  by (rule api_key_encryption_roundtrip) (simp_all add: aes_sound_def sample_crypto_def)

text \<open>
  Merging configurations: a key of the override that holds a mapping is merged into a mapping of
  the base, any other value of the override wins, and keys the override does not have stay.
\<close>

theorem deep_merge_lookup:
  assumes "distinct (map fst ov)"
  shows "(map_of ov k = None \<longrightarrow> map_of (deep_merge base ov) k = map_of base k) \<and>
    (\<forall>v. map_of ov k = Some v \<and> \<not> is_obj v \<longrightarrow> map_of (deep_merge base ov) k = Some v) \<and>
    (\<forall>dv db. map_of ov k = Some (JObj dv) \<and> map_of base k = Some (JObj db) \<longrightarrow>
       map_of (deep_merge base ov) k = Some (JObj (deep_merge db dv)))"
  using deep_merge_other [of k ov base] deep_merge_scalar [OF assms] deep_merge_nested [OF assms]
  by (auto simp: map_of_eq_None_iff)

theorem deep_merge_lookup_witness:
  "map_of (deep_merge [(''server'', JObj [(''port'', JInt 8000), (''host'', JStr ''h'')])]
      [(''server'', JObj [(''port'', JInt 9000)])]) ''server'' =
     Some (JObj (deep_merge [(''port'', JInt 8000), (''host'', JStr ''h'')] [(''port'', JInt 9000)]))"
  using deep_merge_lookup [of "[(''server'', JObj [(''port'', JInt 9000)])]" "''server''"
      "[(''server'', JObj [(''port'', JInt 8000), (''host'', JStr ''h'')])]"] by simp

text \<open>
  The wait until the quota resets is exact to the second: one second after it the date in the
  configured zone is the next one, and before it it is still today's, as long as the zone's offset does
  not change in between.
\<close>

theorem quota_reset_wait_exact:
  assumes "\<forall>t. tz_offset zone tz t = tz_offset zone tz now"
  shows "today_in_timezone zone tz (now + seconds (seconds_until_next_midnight zone tz now) + usec)
      = today_in_timezone zone tz now + 1 \<and>
    (\<forall>t. now \<le> t \<and> t < now + seconds (seconds_until_next_midnight zone tz now) \<longrightarrow>
       today_in_timezone zone tz t = today_in_timezone zone tz now)"
  using assms seconds_until_reaches_tomorrow seconds_until_not_before by metis

theorem quota_reset_wait_exact_witness:
  "today_in_timezone (\<lambda>_ _. 0) ''UTC'' (0 + seconds (seconds_until_next_midnight (\<lambda>_ _. 0) ''UTC'' 0) + usec) = 1"
proof -
  have "\<forall>t. tz_offset (\<lambda>_ _. 0) ''UTC'' t = tz_offset (\<lambda>_ _. 0) ''UTC'' 0" by (simp add: tz_offset_def)
  from quota_reset_wait_exact [OF this] show ?thesis by (simp add: today_in_timezone_def tz_offset_def)
qed

text \<open>
  Error bodies parse back to what was raised: on the Firecrawl-compatible routes \<open>success\<close>,
  \<open>error\<close> and, when there is one, \<open>code\<close>.
\<close>

theorem proxy_error_body_parses:
  "loads (hr_body (build_proxy_error_response rid e)) =
     Some (JObj ([(''success'', JBool False), (''error'', JStr (e_message e))] @
                 (if e_code e = [] then [] else [(''code'', JStr (e_code e))])))"
  by (rule proxy_error_body)

end
